theory Spec2Isabelle
  imports Main "HOL-Library.Signed_Division" "HOL-Library.Multiset" "HOL-Library.Sublist"
begin

section \<open>Ragged all-to-all thunk: data model\<close>

text \<open>
  The embedding follows \<^verbatim>\<open>nccl_ragged_all_to_all_thunk.cc\<close>. Values of
  \<^verbatim>\<open>int64_t\<close>, \<^verbatim>\<open>int32_t\<close> and \<^verbatim>\<open>int\<close> are modelled as \<^typ>\<open>int\<close>;
  signed overflow is undefined behaviour in C++ and no definition below relies on
  wrap-around. C++ integer division truncates towards zero, which is \<open>sdiv\<close>.
  A local variable whose C++ name is also the name of a struct field carries a prime.
\<close>

datatype PrimitiveType = PRED | S8 | S16 | S32 | S64 | U8 | U16 | U32 | U64 | F16 | BF16 | F32 | F64

datatype StatusCode = kInternal | kUnimplemented | kInvalidArgument | kOther nat

text \<open>\<^verbatim>\<open>absl::Status\<close>: success, or an error code with its message.\<close>

datatype Status = OkStatus | Error StatusCode string

text \<open>
  Device memory. An allocation is identified by the rank of the device that holds it and
  its role in the operation: operand \<open>k\<close> of the instruction, its result, or the scratch
  buffer that receives the resolved output offsets. A \<^verbatim>\<open>se::DeviceMemoryBase\<close> is a range
  of an allocation; offsets and sizes are counted in elements of the buffer's element
  type (the C++ counts bytes, a fixed multiple).
\<close>

datatype buffer_id = Operand int nat | Result int | OffsetsScratch int

record DeviceMemoryBase =
  opaque :: buffer_id
  elem_offset :: int
  elem_count :: int

record DeviceBufferPair =
  element_type :: PrimitiveType
  source_buffer :: DeviceMemoryBase
  destination_buffer :: DeviceMemoryBase

text \<open>
  \<^verbatim>\<open>GpuCollectives::Slice(buffer, element_type, offset, count)\<close> is declared outside the
  file. Modelled from the spec: the "byte-range slice addressing primitive" of section 6,
  the range of \<open>count\<close> elements that starts \<open>offset\<close> elements into the buffer.
\<close>

definition Slice :: "DeviceMemoryBase \<Rightarrow> PrimitiveType \<Rightarrow> int \<Rightarrow> int \<Rightarrow> DeviceMemoryBase" where
  "Slice buff dtype offset cnt =
     \<lparr>opaque = opaque buff, elem_offset = elem_offset buff + offset, elem_count = cnt\<rparr>"

text \<open>
  \<^verbatim>\<open>NcclCollectiveConfig\<close> and \<^verbatim>\<open>NcclRaggedAllToAllConfig\<close>: only the fields the
  source file reads. A replica group is its list of \<^verbatim>\<open>replica_ids\<close>.
\<close>

record NcclCollectiveConfig =
  operand_count :: nat
  operand_element_type :: "PrimitiveType list"
  replica_groups :: "int list list"

record NcclRaggedAllToAllConfig =
  config :: NcclCollectiveConfig
  num_total_updates :: int
  ragged_row_element_size :: int

text \<open>
  The thunk's members. \<open>thunk_config\<close> is \<^verbatim>\<open>config_\<close>, \<open>device_count\<close> is
  \<^verbatim>\<open>device_count_\<close> (initially \<open>-1\<close>), and the four maps are the per-executor
  caches \<^verbatim>\<open>host_buffer_allocs_\<close>, \<^verbatim>\<open>device_buffer_allocs_\<close>, \<^verbatim>\<open>start_events_\<close> and
  \<^verbatim>\<open>end_events_\<close>, keyed by the executor's identity. A host allocation and an event
  are identified by the handle the executor returned for them; the device allocation is
  kept as its \<^verbatim>\<open>memory()\<close>.
\<close>

record NcclRaggedAllToAllStartThunk =
  thunk_config :: NcclRaggedAllToAllConfig
  p2p_memcpy_enabled :: bool
  device_count :: int
  host_buffer_allocs :: "nat \<rightharpoonup> nat list"
  device_buffer_allocs :: "nat \<rightharpoonup> DeviceMemoryBase"
  start_events :: "nat \<rightharpoonup> nat"
  end_events :: "nat \<rightharpoonup> nat"

text \<open>\<^verbatim>\<open>struct RendezvousValue\<close>; \<^verbatim>\<open>operator<\<close> compares the ranks.\<close>

record RendezvousValue =
  rank :: int
  output_buffer :: DeviceMemoryBase
  start_event :: nat
  end_event :: nat

section \<open>Calls into the runtime\<close>

text \<open>
  Every call the file makes into the stream executor, the communicator and the
  collectives library is recorded, in order, in a trace. \<open>Memcpy alloc src size\<close> is the
  device-to-host copy into the host allocation \<open>alloc\<close>; \<open>RendezvousCall label rank clique n\<close>
  is a call of the rendezvous primitive with the name built from the label, the rank
  and the clique key, for \<open>n\<close> threads.
\<close>

datatype Call =
    ConvertToDeviceBuffers
  | GetGpuCollectives
  | GetGpuCliqueKey
  | MaybeRegisterBuffers "DeviceBufferPair list"
  | NumRanks
  | GroupStart
  | GroupEnd
  | Send DeviceMemoryBase PrimitiveType int int
  | Recv DeviceMemoryBase PrimitiveType int int
  | Memcpy nat DeviceMemoryBase int
  | BlockHostUntilDone
  | RecordEvent nat
  | WaitFor nat
  | MemcpyD2D DeviceMemoryBase DeviceMemoryBase int
  | RendezvousCall string int string int
  | NcclCollectiveThunk_Initialize
  | HostMemoryAllocate int
  | Allocate int
  | CreateEvent

text \<open>
  What the runtime answers. \<open>respond\<close> is the status of a fallible call, given the
  calls issued before it (for \<open>Allocate\<close>, which returns memory and no status, an
  error stands for the null result); \<open>new_handle\<close> is the handle a successful
  host allocation or event creation returns and \<open>new_memory\<close> the memory a
  successful \<open>Allocate\<close> returns; \<open>converted_buffers\<close>, \<open>clique_key\<close> and
  \<open>clique_rank\<close> are the values of \<^verbatim>\<open>ConvertToDeviceBuffers\<close>, \<^verbatim>\<open>GetGpuCliqueKey\<close>
  and \<^verbatim>\<open>clique_key.rank(global_device_id)\<close>; \<open>comm_num_ranks\<close> is the value of
  \<^verbatim>\<open>comm->NumRanks()\<close>; \<open>device_mem\<close> gives the contents of the device buffers
  at the time the metadata loader copies them to the host; \<open>arrived_before\<close> and
  \<open>arrived_after\<close> are the values the other threads hand to the first rendezvous,
  split by whether they arrive before or after this thread.
\<close>

record Env =
  respond :: "Call list \<Rightarrow> Call \<Rightarrow> Status"
  new_handle :: "Call list \<Rightarrow> nat"
  new_memory :: "Call list \<Rightarrow> DeviceMemoryBase"
  converted_buffers :: "DeviceBufferPair list"
  clique_key :: string
  clique_rank :: "int option"
  comm_num_ranks :: int
  device_mem :: "buffer_id \<Rightarrow> int list"
  arrived_before :: "RendezvousValue list"
  arrived_after :: "RendezvousValue list"

definition issue :: "Env \<Rightarrow> Call \<Rightarrow> Call list \<Rightarrow> Status \<times> Call list" where
  "issue env c tr = (respond env tr c, tr @ [c])"

text \<open>\<^verbatim>\<open>TF_RETURN_IF_ERROR(r); k\<close>: an error of \<open>r\<close> is returned, else \<open>k\<close> runs.\<close>

definition and_then :: "Status \<times> Call list \<Rightarrow> (Call list \<Rightarrow> Status \<times> Call list) \<Rightarrow> Status \<times> Call list" where
  "and_then r k = (case r of (OkStatus, tr) \<Rightarrow> k tr | (Error code msg, tr) \<Rightarrow> (Error code msg, tr))"

text \<open>
  A \<^verbatim>\<open>for\<close> loop whose body may return an error: the indices are visited in order and
  the first error ends the loop.
\<close>

fun for_each :: "'i list \<Rightarrow> ('i \<Rightarrow> Call list \<Rightarrow> Status \<times> Call list) \<Rightarrow> Call list \<Rightarrow> Status \<times> Call list" where
  "for_each [] body tr = (OkStatus, tr)"
| "for_each (i # rest) body tr = and_then (body i tr) (for_each rest body)"

text \<open>
  The calls of a list issued one after the other until one fails; the reference
  against which the loops of the file are compared.
\<close>

fun issue_all :: "Env \<Rightarrow> Call list \<Rightarrow> Call list \<Rightarrow> Status \<times> Call list" where
  "issue_all env [] tr = (OkStatus, tr)"
| "issue_all env (c # cs) tr =
     (case respond env tr c of
        OkStatus \<Rightarrow> issue_all env cs (tr @ [c])
      | Error code msg \<Rightarrow> (Error code msg, tr @ [c]))"

section \<open>Metadata loader and offset resolution\<close>

definition kNumRaggedMetadataOperands :: nat where
  "kNumRaggedMetadataOperands = 4"

text \<open>The elements of device memory that a \<^verbatim>\<open>DeviceMemoryBase\<close> covers.\<close>

definition read_region :: "(buffer_id \<Rightarrow> int list) \<Rightarrow> DeviceMemoryBase \<Rightarrow> int list" where
  "read_region mem r = take (nat (elem_count r)) (drop (nat (elem_offset r)) (mem (opaque r)))"

text \<open>
  \<^verbatim>\<open>LoadRaggedTensorMetadata\<close>: one device-to-host copy per metadata operand
  (\<^verbatim>\<open>buffers[i + 2]\<close>, whole buffer), then \<^verbatim>\<open>BlockHostUntilDone\<close>, whose error is
  wrapped into an internal error. \<open>stream_name\<close> is the text \<^verbatim>\<open>%p\<close> prints for the
  stream.
\<close>

definition stream_name :: string where
  "stream_name = ''0x0''"

definition LoadRaggedTensorMetadata ::
  "Env \<Rightarrow> DeviceBufferPair list \<Rightarrow> nat list \<Rightarrow> Call list \<Rightarrow> Status \<times> Call list" where
  "LoadRaggedTensorMetadata env buffers ragged_metadata_allocs tr =
     and_then
       (for_each [0..<kNumRaggedMetadataOperands]
          (\<lambda>i. issue env (Memcpy (ragged_metadata_allocs ! i)
                               (source_buffer (buffers ! (i + 2)))
                               (elem_count (source_buffer (buffers ! (i + 2))))))
          tr)
       (\<lambda>tr. case issue env BlockHostUntilDone tr of
                (OkStatus, tr) \<Rightarrow> (OkStatus, tr)
              | (Error code msg, tr) \<Rightarrow>
                  (Error kInternal
                     (''Failed to complete all kernels launched on stream '' @ stream_name
                        @ '': '' @ msg), tr))"

text \<open>
  The host memory after a load that succeeded: allocation \<open>ragged_metadata_allocs ! i\<close>
  holds the contents of \<^verbatim>\<open>buffers[i + 2].source_buffer\<close>; the copies run in order, so
  a later one wins where two allocations coincide.
\<close>

definition host_after_load ::
  "Env \<Rightarrow> DeviceBufferPair list \<Rightarrow> nat list \<Rightarrow> nat \<Rightarrow> int list" where
  "host_after_load env buffers ragged_metadata_allocs =
     fold (\<lambda>i host. host(ragged_metadata_allocs ! i :=
                          read_region (device_mem env) (source_buffer (buffers ! (i + 2)))))
       [0..<kNumRaggedMetadataOperands] (\<lambda>_. [])"

text \<open>\<^verbatim>\<open>RunAllToAllOnIndexBuffer\<close>.\<close>

definition RunAllToAllOnIndexBuffer ::
  "Env \<Rightarrow> DeviceMemoryBase \<Rightarrow> int \<Rightarrow> DeviceMemoryBase \<Rightarrow> PrimitiveType \<Rightarrow> Call list
   \<Rightarrow> Status \<times> Call list" where
  "RunAllToAllOnIndexBuffer env source_buffer' num_updates_per_replica destination_buffer'
       element_type' tr =
     and_then (issue env NumRanks tr) (\<lambda>tr.
     let num_ranks = comm_num_ranks env in
     and_then (issue env GroupStart tr) (\<lambda>tr.
     and_then
       (for_each [0..num_ranks - 1]
          (\<lambda>peer tr.
             let offset = peer * num_updates_per_replica;
                 send_slice = Slice source_buffer' element_type' offset num_updates_per_replica;
                 recv_slice = Slice destination_buffer' element_type' offset
                                num_updates_per_replica
             in and_then (issue env (Send send_slice element_type' num_updates_per_replica peer) tr)
                  (\<lambda>tr. issue env (Recv recv_slice element_type' num_updates_per_replica peer) tr))
          tr) (\<lambda>tr.
     and_then (issue env GroupEnd tr) (\<lambda>tr.
     issue env BlockHostUntilDone tr))))"

section \<open>Point-to-point transport\<close>

text \<open>
  \<^verbatim>\<open>RunRaggedAllToAll\<close>. \<^verbatim>\<open>MaybeRegisterBuffers\<close> is declared outside the file and is a
  call of the trace. A communicator has at least one rank; for \<open>num_ranks = 0\<close> the C++
  division is undefined.
\<close>

definition RunRaggedAllToAll ::
  "Env \<Rightarrow> int \<Rightarrow> int \<Rightarrow> DeviceBufferPair list \<Rightarrow> nat list \<Rightarrow> DeviceMemoryBase \<Rightarrow> Call list
   \<Rightarrow> Status \<times> Call list" where
  "RunRaggedAllToAll env ragged_row_element_size' num_total_updates' original_buffers
       ragged_metadata_allocs output_offsets_device_buffer tr =
     and_then (issue env (MaybeRegisterBuffers original_buffers) tr) (\<lambda>tr.
     and_then (issue env NumRanks tr) (\<lambda>tr.
     let num_ranks = comm_num_ranks env;
         num_updates_per_replica = num_total_updates' sdiv num_ranks;
         output_offsets_buffer_pair = original_buffers ! 4
     in
     and_then
       (RunAllToAllOnIndexBuffer env (source_buffer output_offsets_buffer_pair)
          num_updates_per_replica output_offsets_device_buffer
          (element_type output_offsets_buffer_pair) tr) (\<lambda>tr.
     let buffers = original_buffers
           [4 := output_offsets_buffer_pair\<lparr>source_buffer := output_offsets_device_buffer\<rparr>]
     in
     and_then (LoadRaggedTensorMetadata env buffers ragged_metadata_allocs tr) (\<lambda>tr.
     let host = host_after_load env buffers ragged_metadata_allocs;
         input_offsets = host (ragged_metadata_allocs ! 0);
         send_sizes = host (ragged_metadata_allocs ! 1);
         output_offsets = host (ragged_metadata_allocs ! 2);
         recv_sizes = host (ragged_metadata_allocs ! 3)
     in
     and_then (issue env GroupStart tr) (\<lambda>tr.
     let element_type' = element_type (buffers ! 0);
         input_buffer = source_buffer (buffers ! 0);
         output_buffer' = destination_buffer (buffers ! 1)
     in
     and_then
       (for_each [0..num_updates_per_replica - 1]
          (\<lambda>i. for_each [0..num_ranks - 1]
             (\<lambda>peer tr.
                let idx = nat (peer * num_updates_per_replica + i);
                    send_slice = Slice input_buffer element_type'
                                   (input_offsets ! idx * ragged_row_element_size')
                                   (send_sizes ! idx * ragged_row_element_size');
                    recv_slice = Slice output_buffer' element_type'
                                   (output_offsets ! idx * ragged_row_element_size')
                                   (recv_sizes ! idx * ragged_row_element_size')
                in and_then
                     (issue env (Send send_slice element_type'
                                   (send_sizes ! idx * ragged_row_element_size') peer) tr)
                     (\<lambda>tr. issue env (Recv recv_slice element_type'
                                         (recv_sizes ! idx * ragged_row_element_size') peer) tr)))
          tr) (\<lambda>tr.
     issue env GroupEnd tr))))))"

section \<open>Rendezvous and memory-copy transport\<close>

text \<open>
  \<^verbatim>\<open>rendezvous_fn\<close>: the values are copied and sorted with \<^verbatim>\<open>operator<\<close>, that is by
  rank.
\<close>

definition rendezvous_fn :: "RendezvousValue list \<Rightarrow> RendezvousValue list" where
  "rendezvous_fn values = (let values_copy = values in sort_key rank values_copy)"

text \<open>
  \<^verbatim>\<open>Rendezvous(name, key, value, num_threads, fn)\<close> is declared outside the file.
  Modelled from the spec: "the primitive blocks until all ranks in the clique have
  submitted a value for this name, then returns the same ... vector of values to every
  participant"; the result is \<open>fn\<close> applied to the submitted values in the order of
  their arrival. That the call returns at all is the primitive's business (section 5:
  a stuck peer stalls every participant).
\<close>

definition Rendezvous :: "'v list \<Rightarrow> 'v \<Rightarrow> 'v list \<Rightarrow> ('v list \<Rightarrow> 'r) \<Rightarrow> 'r" where
  "Rendezvous earlier v later fn = fn (earlier @ [v] @ later)"

text \<open>\<^verbatim>\<open>RunMemCpyRaggedAllToAll\<close>.\<close>

definition RunMemCpyRaggedAllToAll ::
  "Env \<Rightarrow> string \<Rightarrow> int \<Rightarrow> int \<Rightarrow> int \<Rightarrow> DeviceBufferPair list \<Rightarrow> nat list \<Rightarrow> nat \<Rightarrow> nat
   \<Rightarrow> Call list \<Rightarrow> Status \<times> Call list" where
  "RunMemCpyRaggedAllToAll env clique_key' rank' ragged_row_element_size' num_total_updates'
       buffers ragged_metadata_allocs start_event' end_event' tr =
     and_then (issue env (MaybeRegisterBuffers buffers) tr) (\<lambda>tr.
     and_then (issue env NumRanks tr) (\<lambda>tr.
     let num_ranks = comm_num_ranks env;
         element_type' = element_type (buffers ! 0);
         input_buffer = source_buffer (buffers ! 0);
         output_buffer' = destination_buffer (buffers ! 1)
     in
     and_then (LoadRaggedTensorMetadata env buffers ragged_metadata_allocs tr) (\<lambda>tr.
     let num_updates_per_replica = num_total_updates' sdiv num_ranks;
         host = host_after_load env buffers ragged_metadata_allocs;
         input_offsets = host (ragged_metadata_allocs ! 0);
         send_sizes = host (ragged_metadata_allocs ! 1);
         output_offsets = host (ragged_metadata_allocs ! 2);
         rendezvous_value = \<lparr>rank = rank', output_buffer = output_buffer',
                              start_event = start_event', end_event = end_event'\<rparr>
     in
     and_then (issue env (RecordEvent start_event') tr) (\<lambda>tr.
     let rendezvous_values =
           Rendezvous (arrived_before env) rendezvous_value (arrived_after env) rendezvous_fn;
         tr = tr @ [RendezvousCall ''start memcpy ragged-all-to-all'' rank' clique_key' num_ranks]
     in
     and_then (for_each rendezvous_values (\<lambda>v. issue env (WaitFor (start_event v))) tr) (\<lambda>tr.
     and_then
       (for_each [0..num_updates_per_replica - 1]
          (\<lambda>i. for_each [0..num_ranks - 1]
             (\<lambda>peer tr.
                let idx = nat (peer * num_updates_per_replica + i);
                    send_slice = Slice input_buffer element_type'
                                   (input_offsets ! idx * ragged_row_element_size')
                                   (send_sizes ! idx * ragged_row_element_size');
                    dst_slice = Slice (output_buffer (rendezvous_values ! nat peer)) element_type'
                                  (output_offsets ! idx * ragged_row_element_size')
                                  (send_sizes ! idx * ragged_row_element_size')
                in issue env (MemcpyD2D dst_slice send_slice (elem_count send_slice)) tr))
          tr) (\<lambda>tr.
     and_then (issue env (RecordEvent end_event') tr) (\<lambda>tr.
     let tr = tr @ [RendezvousCall ''finish memcpy ragged-all-to-all'' rank' clique_key' num_ranks]
     in for_each rendezvous_values (\<lambda>v. issue env (WaitFor (end_event v))) tr)))))))"

section \<open>Locality of the replica groups\<close>

text \<open>
  \<^verbatim>\<open>is_local\<close>. The result is \<open>None\<close> where the C++ does not return: the
  \<^verbatim>\<open>CHECK_NE(device_count_, -1)\<close> fails, \<^verbatim>\<open>replica_ids().at(0)\<close> is applied to an empty
  group, or the division is by zero. The loop returns \<open>false\<close> at the first group
  that spans two nodes, without looking at the later groups.
\<close>

fun is_local_groups :: "int \<Rightarrow> int list list \<Rightarrow> bool option" where
  "is_local_groups dc [] = Some True"
| "is_local_groups dc (replica_group # rest) =
     (case replica_group of
        [] \<Rightarrow> None
      | first # _ \<Rightarrow>
          if dc = 0 then None
          else (let node_id = first sdiv dc in
                if list_all (\<lambda>r. r sdiv dc = node_id) replica_group
                then is_local_groups dc rest
                else Some False))"

definition is_local :: "NcclRaggedAllToAllStartThunk \<Rightarrow> bool option" where
  "is_local t =
     (if device_count t = - 1 then None
      else is_local_groups (device_count t) (replica_groups (config (thunk_config t))))"

text \<open>
  \<^verbatim>\<open>should_use_memcpy\<close> is declared in the header, which is not among the sources.
  Modelled from the spec: the memory-copy transport is "enabled only when the caller opts
  in" and chosen "based on configuration and device-group locality"; the locality is
  looked at only when the option is set.
\<close>

definition should_use_memcpy :: "NcclRaggedAllToAllStartThunk \<Rightarrow> bool option" where
  "should_use_memcpy t = (if p2p_memcpy_enabled t then is_local t else Some False)"

section \<open>Legality check\<close>

record Shape =
  shape_element_type :: PrimitiveType
  dimensions :: "int list"
  minor_to_major :: "nat list"

text \<open>The instruction: the shapes of its operands and the shape of its result.\<close>

record HloRaggedAllToAllInstruction =
  operands :: "Shape list"
  shape :: Shape





section \<open>Initialize\<close>

record InitializeParams =
  executor :: nat
  local_device_count :: int

text \<open>
  The loop that allocates the host buffers: an allocation that fails returns its error
  and the buffers allocated so far are dropped with the local vector.
\<close>

fun allocate_host_buffers ::
  "Env \<Rightarrow> int \<Rightarrow> nat list \<Rightarrow> nat list \<Rightarrow> Call list \<Rightarrow> Status \<times> nat list \<times> Call list" where
  "allocate_host_buffers env bytes [] allocs tr = (OkStatus, allocs, tr)"
| "allocate_host_buffers env bytes (i # rest) allocs tr =
     (case issue env (HostMemoryAllocate bytes) tr of
        (OkStatus, tr') \<Rightarrow>
          allocate_host_buffers env bytes rest (allocs @ [new_handle env tr']) tr'
      | (Error code msg, tr') \<Rightarrow> (Error code msg, allocs, tr'))"

text \<open>
  The byte count \<^verbatim>\<open>config_.num_total_updates * sizeof(int64_t)\<close> of the two kinds of
  buffer: \<^verbatim>\<open>sizeof(int64_t)\<close> is 8 and has type \<^verbatim>\<open>size_t\<close>, so the product is taken
  in 64-bit unsigned arithmetic and wraps modulo \<open>2 ^ 64\<close>.
\<close>

definition metadata_buffer_bytes :: "int \<Rightarrow> int" where
  "metadata_buffer_bytes n = (n * 8) mod 2 ^ 64"

text \<open>The three blocks of \<^verbatim>\<open>Initialize\<close>.\<close>

definition init_host_buffers ::
  "Env \<Rightarrow> InitializeParams \<Rightarrow> NcclRaggedAllToAllStartThunk \<Rightarrow> Call list
   \<Rightarrow> Status \<times> NcclRaggedAllToAllStartThunk \<times> Call list" where
  "init_host_buffers env params t tr =
     (if executor params \<in> dom (host_buffer_allocs t) then (OkStatus, t, tr)
      else (case allocate_host_buffers env (metadata_buffer_bytes (num_total_updates (thunk_config t)))
                   [0..<kNumRaggedMetadataOperands] [] tr of
              (OkStatus, allocs, tr') \<Rightarrow>
                (OkStatus,
                 t\<lparr>host_buffer_allocs := (host_buffer_allocs t)(executor params \<mapsto> allocs)\<rparr>, tr')
            | (Error code msg, allocs, tr') \<Rightarrow> (Error code msg, t, tr')))"

definition init_device_buffer ::
  "Env \<Rightarrow> InitializeParams \<Rightarrow> NcclRaggedAllToAllStartThunk \<Rightarrow> Call list
   \<Rightarrow> Status \<times> NcclRaggedAllToAllStartThunk \<times> Call list" where
  "init_device_buffer env params t tr =
     (if executor params \<in> dom (device_buffer_allocs t) then (OkStatus, t, tr)
      else (case issue env (Allocate (metadata_buffer_bytes (num_total_updates (thunk_config t)))) tr of
              (OkStatus, tr') \<Rightarrow>
                (OkStatus,
                 t\<lparr>device_buffer_allocs :=
                      (device_buffer_allocs t)(executor params \<mapsto> new_memory env tr')\<rparr>, tr')
            | (Error code msg, tr') \<Rightarrow>
                (Error kInternal ''Failed to allocate output offsets buffer.'', t, tr')))"

definition init_events ::
  "Env \<Rightarrow> InitializeParams \<Rightarrow> NcclRaggedAllToAllStartThunk \<Rightarrow> Call list
   \<Rightarrow> Status \<times> NcclRaggedAllToAllStartThunk \<times> Call list" where
  "init_events env params t tr =
     (case (if executor params \<in> dom (start_events t) then (OkStatus, t, tr)
            else (case issue env CreateEvent tr of
                    (OkStatus, tr') \<Rightarrow>
                      (OkStatus,
                       t\<lparr>start_events := (start_events t)(executor params \<mapsto> new_handle env tr')\<rparr>,
                       tr')
                  | (Error code msg, tr') \<Rightarrow> (Error code msg, t, tr'))) of
        (Error code msg, t1, tr1) \<Rightarrow> (Error code msg, t1, tr1)
      | (OkStatus, t1, tr1) \<Rightarrow>
          (if executor params \<in> dom (end_events t1) then (OkStatus, t1, tr1)
           else (case issue env CreateEvent tr1 of
                   (OkStatus, tr') \<Rightarrow>
                     (OkStatus,
                      t1\<lparr>end_events := (end_events t1)(executor params \<mapsto> new_handle env tr')\<rparr>,
                      tr')
                 | (Error code msg, tr') \<Rightarrow> (Error code msg, t1, tr'))))"

text \<open>
  \<^verbatim>\<open>Initialize\<close>. \<^verbatim>\<open>NcclCollectiveThunk::Initialize\<close> is declared outside the file and is
  a call of the trace. The result is \<open>None\<close> where \<^verbatim>\<open>should_use_memcpy\<close> does not
  return. An error leaves the members as they are at that point.
\<close>

definition Initialize ::
  "Env \<Rightarrow> InitializeParams \<Rightarrow> NcclRaggedAllToAllStartThunk \<Rightarrow> Call list
   \<Rightarrow> (Status \<times> NcclRaggedAllToAllStartThunk \<times> Call list) option" where
  "Initialize env params t tr =
     (case issue env NcclCollectiveThunk_Initialize tr of
        (Error code msg, tr0) \<Rightarrow> Some (Error code msg, t, tr0)
      | (OkStatus, tr0) \<Rightarrow>
          (case init_host_buffers env params (t\<lparr>device_count := local_device_count params\<rparr>) tr0 of
             (Error code msg, t1, tr1) \<Rightarrow> Some (Error code msg, t1, tr1)
           | (OkStatus, t1, tr1) \<Rightarrow>
               (case init_device_buffer env params t1 tr1 of
                  (Error code msg, t2, tr2) \<Rightarrow> Some (Error code msg, t2, tr2)
                | (OkStatus, t2, tr2) \<Rightarrow>
                    (case should_use_memcpy t2 of
                       None \<Rightarrow> None
                     | Some False \<Rightarrow> Some (OkStatus, t2, tr2)
                     | Some True \<Rightarrow> Some (init_events env params t2 tr2)))))"

section \<open>Execution\<close>

text \<open>
  \<^verbatim>\<open>RunNcclCollective\<close>, for the executor \<open>stream_parent\<close> of the stream.
  \<^verbatim>\<open>ConvertToDeviceBuffers\<close>, \<^verbatim>\<open>GetGpuCollectives\<close> and \<^verbatim>\<open>GetGpuCliqueKey\<close> are
  declared outside the file and are calls of the trace. The result is \<open>None\<close> where the
  C++ does not return: a \<^verbatim>\<open>CHECK\<close> on the caches fails, \<^verbatim>\<open>should_use_memcpy\<close> does not
  return, the rank is absent from the clique, or an event is missing (the lookup then
  yields a null pointer, which the transport hands to \<^verbatim>\<open>RecordEvent\<close>).
\<close>

definition RunNcclCollective ::
  "Env \<Rightarrow> NcclRaggedAllToAllStartThunk \<Rightarrow> nat \<Rightarrow> Call list \<Rightarrow> (Status \<times> Call list) option" where
  "RunNcclCollective env t stream_parent tr =
     (case issue env ConvertToDeviceBuffers tr of
        (Error code msg, tr) \<Rightarrow> Some (Error code msg, tr)
      | (OkStatus, tr) \<Rightarrow>
     let device_buffers = converted_buffers env in
     (case issue env GetGpuCollectives tr of
        (Error code msg, tr) \<Rightarrow> Some (Error code msg, tr)
      | (OkStatus, tr) \<Rightarrow>
     (case host_buffer_allocs t stream_parent of
        None \<Rightarrow> None
      | Some it \<Rightarrow>
     let ragged_metadata_allocs = map (\<lambda>i. it ! i) [0..<kNumRaggedMetadataOperands] in
     (case device_buffer_allocs t stream_parent of
        None \<Rightarrow> None
      | Some output_offsets_device_buffer \<Rightarrow>
     (case should_use_memcpy t of
        None \<Rightarrow> None
      | Some True \<Rightarrow>
          (case (start_events t stream_parent, end_events t stream_parent) of
             (Some start_event', Some end_event') \<Rightarrow>
               (case issue env GetGpuCliqueKey tr of
                  (Error code msg, tr) \<Rightarrow> Some (Error code msg, tr)
                | (OkStatus, tr) \<Rightarrow>
                    (case clique_rank env of
                       None \<Rightarrow> None
                     | Some rank' \<Rightarrow>
                         Some (RunMemCpyRaggedAllToAll env (clique_key env) rank'
                                 (ragged_row_element_size (thunk_config t))
                                 (num_total_updates (thunk_config t)) device_buffers
                                 ragged_metadata_allocs start_event' end_event' tr)))
           | _ \<Rightarrow> None)
      | Some False \<Rightarrow>
          Some (RunRaggedAllToAll env (ragged_row_element_size (thunk_config t))
                  (num_total_updates (thunk_config t)) device_buffers ragged_metadata_allocs
                  output_offsets_device_buffer tr))))))"

text \<open>\<open>n\<close> calls of \<^verbatim>\<open>Initialize\<close> in a row for the same device, with their statuses.\<close>

fun Initialize_times ::
  "nat \<Rightarrow> Env \<Rightarrow> InitializeParams \<Rightarrow> NcclRaggedAllToAllStartThunk \<Rightarrow> Call list
   \<Rightarrow> (Status list \<times> NcclRaggedAllToAllStartThunk \<times> Call list) option" where
  "Initialize_times 0 env params t tr = Some ([], t, tr)"
| "Initialize_times (Suc n) env params t tr =
     (case Initialize env params t tr of
        None \<Rightarrow> None
      | Some (st, t', tr') \<Rightarrow>
          (case Initialize_times n env params t' tr' of
             None \<Rightarrow> None
           | Some (sts, t'', tr'') \<Rightarrow> Some (st # sts, t'', tr'')))"

section \<open>The collective library and the streams, across ranks\<close>

text \<open>
  The brackets of a trace: for each \<open>GroupStart\<close> \<dots> \<open>GroupEnd\<close> pair, the calls
  queued between them.
\<close>

fun split_groups :: "Call list option \<Rightarrow> Call list \<Rightarrow> Call list list" where
  "split_groups cur [] = []"
| "split_groups cur (c # cs) =
     (if c = GroupStart then split_groups (Some []) cs
      else if c = GroupEnd
           then (case cur of Some g \<Rightarrow> g # split_groups None cs | None \<Rightarrow> split_groups None cs)
           else split_groups (map_option (\<lambda>g. g @ [c]) cur) cs)"

definition group_calls :: "Call list \<Rightarrow> Call list list" where
  "group_calls cs = split_groups None cs"

text \<open>
  A write into device memory: the allocation, the element offset and the elements.
  Elements that would fall outside the allocation are dropped (the C++ behaviour is
  undefined there).
\<close>

definition write_at :: "int list \<Rightarrow> nat \<Rightarrow> int list \<Rightarrow> int list" where
  "write_at xs off payload = fold (\<lambda>k ys. ys[off + k := payload ! k]) [0..<length payload] xs"

definition apply_write ::
  "buffer_id \<times> nat \<times> int list \<Rightarrow> (buffer_id \<Rightarrow> int list) \<Rightarrow> (buffer_id \<Rightarrow> int list)" where
  "apply_write w mem = (case w of (b, off, payload) \<Rightarrow> mem(b := write_at (mem b) off payload))"

text \<open>The write that moves \<open>n\<close> elements from the start of \<open>src\<close> to the start of \<open>dst\<close>.\<close>

definition to_write ::
  "(buffer_id \<Rightarrow> int list) \<Rightarrow> DeviceMemoryBase \<Rightarrow> DeviceMemoryBase \<Rightarrow> int
   \<Rightarrow> buffer_id \<times> nat \<times> int list" where
  "to_write mem dst src n =
     (opaque dst, nat (elem_offset dst),
      take (nat n) (drop (nat (elem_offset src)) (mem (opaque src))))"

text \<open>
  The sends and receives are the communicator's, a library outside the file. Modelled
  from the spec: closing the bracket "flushes all queued sends/receives as one
  collective step", each send having "one matching receive": the \<open>k\<close>-th send of rank
  \<open>s\<close> addressed to rank \<open>d\<close> is matched with the \<open>k\<close>-th receive that rank \<open>d\<close>
  posted for source \<open>s\<close>, and moves the sender's elements, as they are when the bracket
  closes, into the receiver's slice. The exchange fails (\<open>None\<close>) when a send has no
  receive, a receive no send, or their counts differ. The order in which the writes
  land is the library's choice: "no ordering is guaranteed between individual
  send/receive pairs" (section 5).
\<close>

definition sends_to :: "Call list \<Rightarrow> int \<Rightarrow> (DeviceMemoryBase \<times> int) list" where
  "sends_to cs d =
     concat (map (\<lambda>c. case c of Send s ty n p \<Rightarrow> if p = d then [(s, n)] else [] | _ \<Rightarrow> []) cs)"

definition recvs_from :: "Call list \<Rightarrow> int \<Rightarrow> (DeviceMemoryBase \<times> int) list" where
  "recvs_from cs s =
     concat (map (\<lambda>c. case c of Recv r ty n p \<Rightarrow> if p = s then [(r, n)] else [] | _ \<Rightarrow> []) cs)"

definition matched ::
  "(buffer_id \<Rightarrow> int list) \<Rightarrow> (DeviceMemoryBase \<times> int) list \<Rightarrow> (DeviceMemoryBase \<times> int) list
   \<Rightarrow> (buffer_id \<times> nat \<times> int list) list option" where
  "matched mem sends recvs =
     (if length sends = length recvs \<and> map snd sends = map snd recvs
      then Some (map (\<lambda>(snd', rcv). to_write mem (fst rcv) (fst snd') (snd snd')) (zip sends recvs))
      else None)"

definition exchange_writes ::
  "int \<Rightarrow> (int \<Rightarrow> Call list) \<Rightarrow> (buffer_id \<Rightarrow> int list)
   \<Rightarrow> (buffer_id \<times> nat \<times> int list) list option" where
  "exchange_writes n calls mem =
     (let per_pair = concat (map (\<lambda>d. map (\<lambda>s. matched mem (sends_to (calls s) d)
                                                  (recvs_from (calls d) s)) [0..n - 1]) [0..n - 1])
      in if None \<in> set per_pair then None else Some (concat (map the per_pair)))"

text \<open>
  A device-to-device copy of a stream reads the source when it runs. Modelled from the
  spec: "copy ... elements directly device-to-device from the local input buffer ...
  into the peer's published output buffer".
\<close>

definition apply_copy :: "Call \<Rightarrow> (buffer_id \<Rightarrow> int list) \<Rightarrow> (buffer_id \<Rightarrow> int list)" where
  "apply_copy c mem =
     (case c of MemcpyD2D dst src n \<Rightarrow> apply_write (to_write mem dst src n) mem | _ \<Rightarrow> mem)"

definition is_copy :: "Call \<Rightarrow> bool" where
  "is_copy c = (case c of MemcpyD2D dst src n \<Rightarrow> True | _ \<Rightarrow> False)"

text \<open>
  A system of \<open>sys_ranks\<close> devices that run one ragged all-to-all: rank \<open>r\<close> holds
  its input in \<open>Operand r 0\<close>, the four metadata arrays \<open>input_offsets\<close>,
  \<open>send_sizes\<close>, \<open>output_offsets\<close>, \<open>recv_sizes\<close> in \<open>Operand r 2\<close> to
  \<open>Operand r 5\<close>, and its output in \<open>Result r\<close>. \<open>sys_arrival\<close> is the order in
  which the threads reach the first rendezvous.
\<close>

record System =
  sys_ranks :: int
  sys_total_updates :: int
  sys_row_elems :: int
  sys_input_len :: int
  sys_output_len :: int
  sys_arrival :: "int list"
  sys_mem :: "buffer_id \<Rightarrow> int list"

definition whole :: "buffer_id \<Rightarrow> int \<Rightarrow> DeviceMemoryBase" where
  "whole b n = \<lparr>opaque = b, elem_offset = 0, elem_count = n\<rparr>"

definition rank_buffers :: "System \<Rightarrow> int \<Rightarrow> DeviceBufferPair list" where
  "rank_buffers sys r =
     [\<lparr>element_type = F32, source_buffer = whole (Operand r 0) (sys_input_len sys),
       destination_buffer = whole (Result r) (sys_output_len sys)\<rparr>,
      \<lparr>element_type = F32, source_buffer = whole (Operand r 1) (sys_output_len sys),
       destination_buffer = whole (Result r) (sys_output_len sys)\<rparr>]
     @ map (\<lambda>k. \<lparr>element_type = S64,
                  source_buffer = whole (Operand r k) (sys_total_updates sys),
                  destination_buffer = whole (Operand r k) (sys_total_updates sys)\<rparr>)
         [2, 3, 4, 5]"

definition rank_value :: "System \<Rightarrow> int \<Rightarrow> RendezvousValue" where
  "rank_value sys r =
     \<lparr>rank = r, output_buffer = whole (Result r) (sys_output_len sys),
      start_event = nat (2 * r), end_event = nat (2 * r + 1)\<rparr>"

text \<open>
  The runtime as rank \<open>r\<close> sees it when every call succeeds and the device memory is
  \<open>mem\<close> at the time of the metadata load.
\<close>

definition rank_env :: "System \<Rightarrow> (buffer_id \<Rightarrow> int list) \<Rightarrow> int \<Rightarrow> Env" where
  "rank_env sys mem r =
     \<lparr>respond = (\<lambda>_ _. OkStatus), new_handle = length,
      new_memory = (\<lambda>_. whole (OffsetsScratch r) (sys_total_updates sys)),
      converted_buffers = rank_buffers sys r, clique_key = ''clique'', clique_rank = Some r,
      comm_num_ranks = sys_ranks sys, device_mem = mem,
      arrived_before = map (rank_value sys) (takeWhile (\<lambda>q. q \<noteq> r) (sys_arrival sys)),
      arrived_after = map (rank_value sys) (tl (dropWhile (\<lambda>q. q \<noteq> r) (sys_arrival sys)))\<rparr>"


definition memcpy_trace :: "System \<Rightarrow> (buffer_id \<Rightarrow> int list) \<Rightarrow> int \<Rightarrow> Status \<times> Call list" where
  "memcpy_trace sys mem r =
     RunMemCpyRaggedAllToAll (rank_env sys mem r) ''clique'' r (sys_row_elems sys)
       (sys_total_updates sys) (rank_buffers sys r) [0, 1, 2, 3]
       (start_event (rank_value sys r)) (end_event (rank_value sys r)) []"


text \<open>
  The memory-copy transport on all ranks: the copies of all streams, run in the order
  \<open>order\<close> puts them in.
\<close>

definition memcpy_run :: "System \<Rightarrow> (Call list \<Rightarrow> Call list) \<Rightarrow> buffer_id \<Rightarrow> int list" where
  "memcpy_run sys order =
     fold apply_copy
       (order (concat (map (\<lambda>r. filter is_copy (snd (memcpy_trace sys (sys_mem sys) r)))
                         [0..sys_ranks sys - 1])))
       (sys_mem sys)"





text \<open>The system with the \<open>recv_sizes\<close> array of every rank \<open>r\<close> replaced by \<open>f r\<close>.\<close>

definition with_recv_sizes :: "System \<Rightarrow> (int \<Rightarrow> int list) \<Rightarrow> System" where
  "with_recv_sizes sys f =
     sys\<lparr>sys_mem := (\<lambda>b. case b of Operand r k \<Rightarrow> if k = 5 then f r else sys_mem sys b
                              | _ \<Rightarrow> sys_mem sys b)\<rparr>"

text \<open>
  A schedule of the threads: the calls of all threads in the order in which they are
  issued, each with the rank of its thread. \<open>thread_calls r g\<close> are the calls of
  thread \<open>r\<close>, \<open>rendezvous_entered r g\<close> the number of rendezvous it has entered.
\<close>

definition thread_calls :: "int \<Rightarrow> (int \<times> Call) list \<Rightarrow> Call list" where
  "thread_calls r g = map snd (filter (\<lambda>x. fst x = r) g)"

definition is_rendezvous :: "Call \<Rightarrow> bool" where
  "is_rendezvous c = (case c of RendezvousCall label r clique n \<Rightarrow> True | _ \<Rightarrow> False)"

definition rendezvous_entered :: "int \<Rightarrow> (int \<times> Call) list \<Rightarrow> nat" where
  "rendezvous_entered r g = length (filter is_rendezvous (thread_calls r g))"

text \<open>
  The rendezvous primitive is declared outside the file. Modelled from the spec: it
  "blocks each calling thread until all expected participants arrive". So a thread
  issues a call only when every thread of the clique has entered at least as many
  rendezvous as the thread itself has entered before that call.
\<close>

definition barrier_respected :: "int list \<Rightarrow> (int \<times> Call) list \<Rightarrow> bool" where
  "barrier_respected ranks g =
     (\<forall>j \<in> set [0..<length g]. \<forall>q \<in> set ranks.
        rendezvous_entered (fst (g ! j)) (take j g) \<le> rendezvous_entered q (take j g))"

text \<open>
  The memory-copy transport run by rank \<open>r\<close> from an empty trace when the calls of
  every rank \<open>q\<close> are answered by \<open>resp q\<close>, which may fail any of them.
\<close>

definition memcpy_trace_in ::
  "System \<Rightarrow> (int \<Rightarrow> Call list \<Rightarrow> Call \<Rightarrow> Status) \<Rightarrow> int \<Rightarrow> Status \<times> Call list" where
  "memcpy_trace_in sys resp r =
     RunMemCpyRaggedAllToAll ((rank_env sys (sys_mem sys) r)\<lparr>respond := resp r\<rparr>) ''clique'' r
       (sys_row_elems sys) (sys_total_updates sys) (rank_buffers sys r) [0, 1, 2, 3]
       (start_event (rank_value sys r)) (end_event (rank_value sys r)) []"

text \<open>
  A schedule of the memory-copy transport on all ranks, at any moment of the execution:
  every call belongs to a rank of the clique, each thread has issued the first calls of
  its own run in their order (all of them once it has returned; fewer while it runs or
  is held in a rendezvous), and the rendezvous are respected.
\<close>

definition memcpy_schedule ::
  "System \<Rightarrow> (int \<Rightarrow> Call list \<Rightarrow> Call \<Rightarrow> Status) \<Rightarrow> (int \<times> Call) list \<Rightarrow> bool" where
  "memcpy_schedule sys resp g =
     ((\<forall>x \<in> set g. fst x \<in> set [0..sys_ranks sys - 1])
      \<and> (\<forall>r \<in> set [0..sys_ranks sys - 1].
            prefix (thread_calls r g) (snd (memcpy_trace_in sys resp r)))
      \<and> barrier_respected [0..sys_ranks sys - 1] g)"








section \<open>Reference call sequences\<close>

text \<open>
  The calls the claims name, written out as lists: one send and one receive of a block
  per peer for the offset resolution; the copies of the metadata loader; one send and
  one receive per update row and peer for the point-to-point transport; one copy per
  update row and peer for the memory-copy transport.
\<close>

definition index_exchange_calls ::
  "int \<Rightarrow> DeviceMemoryBase \<Rightarrow> int \<Rightarrow> DeviceMemoryBase \<Rightarrow> PrimitiveType \<Rightarrow> Call list" where
  "index_exchange_calls n src u dst ty =
     concat (map (\<lambda>peer. [Send (Slice src ty (peer * u) u) ty u peer,
                           Recv (Slice dst ty (peer * u) u) ty u peer]) [0..n - 1])"

definition load_calls :: "DeviceBufferPair list \<Rightarrow> nat list \<Rightarrow> Call list" where
  "load_calls buffers allocs =
     map (\<lambda>i. Memcpy (allocs ! i) (source_buffer (buffers ! (i + 2)))
                 (elem_count (source_buffer (buffers ! (i + 2))))) [0..<4]
     @ [BlockHostUntilDone]"

definition send_recv_calls ::
  "int \<Rightarrow> int \<Rightarrow> int \<Rightarrow> PrimitiveType \<Rightarrow> DeviceMemoryBase \<Rightarrow> DeviceMemoryBase
   \<Rightarrow> int list \<Rightarrow> int list \<Rightarrow> int list \<Rightarrow> int list \<Rightarrow> Call list" where
  "send_recv_calls n u e ty input output in_offs sends out_offs recvs =
     concat (map (\<lambda>i. concat (map (\<lambda>p.
        [Send (Slice input ty (in_offs ! nat (p * u + i) * e) (sends ! nat (p * u + i) * e))
           ty (sends ! nat (p * u + i) * e) p,
         Recv (Slice output ty (out_offs ! nat (p * u + i) * e) (recvs ! nat (p * u + i) * e))
           ty (recvs ! nat (p * u + i) * e) p]) [0..n - 1])) [0..u - 1])"

definition copy_calls ::
  "int \<Rightarrow> int \<Rightarrow> int \<Rightarrow> PrimitiveType \<Rightarrow> DeviceMemoryBase \<Rightarrow> RendezvousValue list
   \<Rightarrow> int list \<Rightarrow> int list \<Rightarrow> int list \<Rightarrow> Call list" where
  "copy_calls n u e ty input vals in_offs sends out_offs =
     concat (map (\<lambda>i. map (\<lambda>p.
        MemcpyD2D
          (Slice (output_buffer (vals ! nat p)) ty (out_offs ! nat (p * u + i) * e)
             (sends ! nat (p * u + i) * e))
          (Slice input ty (in_offs ! nat (p * u + i) * e) (sends ! nat (p * u + i) * e))
          (sends ! nat (p * u + i) * e)) [0..n - 1]) [0..u - 1])"

text \<open>The calls of \<^verbatim>\<open>RunRaggedAllToAll\<close> that come before its second bracket.\<close>

definition p2p_preamble_calls ::
  "Env \<Rightarrow> int \<Rightarrow> DeviceBufferPair list \<Rightarrow> nat list \<Rightarrow> DeviceMemoryBase \<Rightarrow> Call list" where
  "p2p_preamble_calls env t buffers allocs scratch =
     [MaybeRegisterBuffers buffers, NumRanks, NumRanks, GroupStart]
     @ index_exchange_calls (comm_num_ranks env) (source_buffer (buffers ! 4))
         (t sdiv comm_num_ranks env) scratch (element_type (buffers ! 4))
     @ [GroupEnd, BlockHostUntilDone]
     @ load_calls (buffers[4 := (buffers ! 4)\<lparr>source_buffer := scratch\<rparr>]) allocs"


text \<open>
  \<^verbatim>\<open>Rendezvous\<close> returns no status: in \<open>rendezvous_returns env\<close> a rendezvous never
  fails, and every other call is answered as in \<open>env\<close>.
\<close>

definition rendezvous_returns :: "Env \<Rightarrow> Env" where
  "rendezvous_returns env =
     env\<lparr>respond := (\<lambda>tr c. if is_rendezvous c then OkStatus else respond env tr c)\<rparr>"

text \<open>The calls of \<^verbatim>\<open>RunMemCpyRaggedAllToAll\<close>, in order.\<close>

definition memcpy_calls ::
  "Env \<Rightarrow> string \<Rightarrow> int \<Rightarrow> int \<Rightarrow> int \<Rightarrow> DeviceBufferPair list \<Rightarrow> nat list \<Rightarrow> nat \<Rightarrow> nat
   \<Rightarrow> Call list" where
  "memcpy_calls env clique r e t buffers allocs start_ev end_ev =
     (let n = comm_num_ranks env;
          vals = Rendezvous (arrived_before env)
                   \<lparr>rank = r, output_buffer = destination_buffer (buffers ! 1),
                    start_event = start_ev, end_event = end_ev\<rparr>
                   (arrived_after env) rendezvous_fn;
          host = host_after_load env buffers allocs
      in [MaybeRegisterBuffers buffers, NumRanks]
         @ load_calls buffers allocs
         @ [RecordEvent start_ev, RendezvousCall ''start memcpy ragged-all-to-all'' r clique n]
         @ map (\<lambda>v. WaitFor (start_event v)) vals
         @ copy_calls n (t sdiv n) e (element_type (buffers ! 0)) (source_buffer (buffers ! 0))
             vals (host (allocs ! 0)) (host (allocs ! 1)) (host (allocs ! 2))
         @ [RecordEvent end_ev, RendezvousCall ''finish memcpy ragged-all-to-all'' r clique n]
         @ map (\<lambda>v. WaitFor (end_event v)) vals)"

text \<open>
  The order the spec's control flow gives, read off a trace: the metadata loader's first
  copy comes before the first bracket is opened (the offset resolution), and a bracket is
  opened at all.
\<close>

definition first_index :: "('a \<Rightarrow> bool) \<Rightarrow> 'a list \<Rightarrow> nat" where
  "first_index P xs = length (takeWhile (\<lambda>x. \<not> P x) xs)"

definition is_load :: "Call \<Rightarrow> bool" where
  "is_load c = (case c of Memcpy alloc src n \<Rightarrow> True | _ \<Rightarrow> False)"

definition loader_before_resolution :: "Call list \<Rightarrow> bool" where
  "loader_before_resolution tr =
     (first_index is_load tr < first_index (\<lambda>c. c = GroupStart) tr
      \<and> first_index (\<lambda>c. c = GroupStart) tr < length tr)"

text \<open>
  The status a run returns when its last call has the status \<open>ref\<close>. It is
  \<open>ref\<close>, except that the metadata loader wraps a failure of its
  \<^verbatim>\<open>BlockHostUntilDone\<close> into an internal error. \<open>loader_blocked tr\<close>: the trace
  ends with that call, the \<^verbatim>\<open>BlockHostUntilDone\<close> that follows a copy to the host.
\<close>

definition loader_blocked :: "Call list \<Rightarrow> bool" where
  "loader_blocked tr =
     (2 \<le> length tr \<and> last tr = BlockHostUntilDone \<and> is_load (last (butlast tr)))"

definition internal_wrap :: "Status \<Rightarrow> Status" where
  "internal_wrap ref =
     (case ref of
        OkStatus \<Rightarrow> OkStatus
      | Error code msg \<Rightarrow>
          Error kInternal
            (''Failed to complete all kernels launched on stream '' @ stream_name
               @ '': '' @ msg))"

definition reported :: "Status \<Rightarrow> Call list \<Rightarrow> Status" where
  "reported ref tr = (if loader_blocked tr then internal_wrap ref else ref)"

text \<open>
  \<open>stops_at_first_failure env r tr xs\<close>: the run with result \<open>r\<close>, started with the
  trace \<open>tr\<close>, has issued exactly the calls of \<open>xs\<close> in order up to and including
  the first one that fails in the runtime \<open>env\<close>, all of \<open>xs\<close> when none fails, and
  it returns the status of its last call as reported: success exactly when no call has
  failed.
\<close>

definition stops_at_first_failure :: "Env \<Rightarrow> Status \<times> Call list \<Rightarrow> Call list \<Rightarrow> Call list \<Rightarrow> bool" where
  "stops_at_first_failure env r tr xs =
     (snd r = snd (issue_all env xs tr)
      \<and> fst r = reported (fst (issue_all env xs tr)) (snd (issue_all env xs tr)))"

section \<open>Concrete inputs\<close>

definition example_config :: "int list list \<Rightarrow> NcclRaggedAllToAllConfig" where
  "example_config groups =
     \<lparr>config = \<lparr>operand_count = 6, operand_element_type = [F32, F32, S64, S64, S64, S64],
                 replica_groups = groups\<rparr>,
      num_total_updates = 4, ragged_row_element_size = 2\<rparr>"

definition example_thunk :: "int list list \<Rightarrow> bool \<Rightarrow> int \<Rightarrow> NcclRaggedAllToAllStartThunk" where
  "example_thunk groups enabled dc =
     \<lparr>thunk_config = example_config groups, p2p_memcpy_enabled = enabled, device_count = dc,
      host_buffer_allocs = Map.empty, device_buffer_allocs = Map.empty,
      start_events = Map.empty, end_events = Map.empty\<rparr>"

definition example_value :: "int \<Rightarrow> RendezvousValue" where
  "example_value r =
     \<lparr>rank = r, output_buffer = whole (Result r) 32,
      start_event = nat (2 * r), end_event = nat (2 * r + 1)\<rparr>"





text \<open>
  A runtime in which every call succeeds, and one in which the first \<open>Allocate\<close> returns
  null and the later ones succeed.
\<close>

definition example_env :: Env where
  "example_env =
     \<lparr>respond = (\<lambda>_ _. OkStatus), new_handle = length,
      new_memory = (\<lambda>_. whole (OffsetsScratch 0) 4), converted_buffers = [],
      clique_key = ''clique'', clique_rank = Some 0, comm_num_ranks = 2,
      device_mem = (\<lambda>_. []), arrived_before = [], arrived_after = []\<rparr>"

definition flaky_env :: Env where
  "flaky_env =
     example_env\<lparr>respond := (\<lambda>tr c. if c = Allocate 32 \<and> Allocate 32 \<notin> set tr
                                    then Error (kOther 0) ''out of memory'' else OkStatus)\<rparr>"

definition example_params :: InitializeParams where
  "example_params = \<lparr>executor = 0, local_device_count = 2\<rparr>"

text \<open>The first and the second call of \<^verbatim>\<open>Initialize\<close> on a fresh thunk, in each runtime.\<close>

definition first_call :: "Env \<Rightarrow> Status \<times> NcclRaggedAllToAllStartThunk \<times> Call list" where
  "first_call env = the (Initialize env example_params (example_thunk [[0, 1]] True (- 1)) [])"

definition second_call :: "Env \<Rightarrow> Status \<times> NcclRaggedAllToAllStartThunk \<times> Call list" where
  "second_call env =
     the (Initialize env example_params (fst (snd (first_call env))) (snd (snd (first_call env))))"

text \<open>
  A first call of \<^verbatim>\<open>Initialize\<close> that passes one local device, so that the replica
  group \<open>[0, 1]\<close> spans two nodes, and a second call for the same executor that passes
  two local devices.
\<close>

definition one_device_params :: InitializeParams where
  "one_device_params = \<lparr>executor = 0, local_device_count = 1\<rparr>"

definition one_device_call :: "Env \<Rightarrow> Status \<times> NcclRaggedAllToAllStartThunk \<times> Call list" where
  "one_device_call env =
     the (Initialize env one_device_params (example_thunk [[0, 1]] True (- 1)) [])"

definition two_devices_call :: "Env \<Rightarrow> Status \<times> NcclRaggedAllToAllStartThunk \<times> Call list" where
  "two_devices_call env =
     the (Initialize env example_params (fst (snd (one_device_call env)))
            (snd (snd (one_device_call env))))"

text \<open>
  Two ranks, four updates (two per peer), rows of two elements, buffers of four rows.
  Rank 0 sends one row to itself and one to rank 1 (its second update for each peer is
  empty); rank 1 sends two rows to each rank. The second thread reaches the rendezvous
  first.
\<close>

definition example_mem :: "buffer_id \<Rightarrow> int list" where
  "example_mem b =
     (case b of
        Operand r k \<Rightarrow>
          (if k = 0 then (if r = 0 then [10, 11, 12, 13, 14, 15, 16, 17]
                          else [20, 21, 22, 23, 24, 25, 26, 27])
           else if k = 2 then (if r = 0 then [0, 1, 1, 2] else [0, 1, 2, 3])
           else if k = 3 then (if r = 0 then [1, 0, 1, 0] else [1, 1, 1, 1])
           else if k = 4 then (if r = 0 then [0, 1, 0, 1] else [1, 2, 2, 3])
           else if k = 5 then [1, 0, 1, 1]
           else [0, 0, 0, 0, 0, 0, 0, 0])
      | Result r \<Rightarrow> [0, 0, 0, 0, 0, 0, 0, 0]
      | OffsetsScratch r \<Rightarrow> [0, 0, 0, 0])"

definition example_system :: System where
  "example_system =
     \<lparr>sys_ranks = 2, sys_total_updates = 4, sys_row_elems = 2, sys_input_len = 8,
      sys_output_len = 8, sys_arrival = [1, 0], sys_mem = example_mem\<rparr>"

text \<open>The memory once the offset resolution has filled the scratch buffers.\<close>

definition example_mem_resolved :: "buffer_id \<Rightarrow> int list" where
  "example_mem_resolved =
     example_mem(OffsetsScratch 0 := [0, 1, 1, 2], OffsetsScratch 1 := [0, 1, 2, 3])"

text \<open>Rank 0's runtime when the call with 18 calls before it fails.\<close>

definition failing_env :: Env where
  "failing_env =
     (rank_env example_system example_mem_resolved 0)
       \<lparr>respond := (\<lambda>tr c. if length tr = 18 then Error (kOther 1) ''enqueue failed''
                             else OkStatus)\<rparr>"

text \<open>The thunk of rank 0 after \<open>Initialize\<close>, with and without the memory-copy option.\<close>

definition initialized_thunk :: "bool \<Rightarrow> NcclRaggedAllToAllStartThunk" where
  "initialized_thunk enabled =
     (example_thunk [[0, 1]] enabled 2)
       \<lparr>host_buffer_allocs := [0 \<mapsto> [0, 1, 2, 3]],
        device_buffer_allocs := [0 \<mapsto> whole (OffsetsScratch 0) 4],
        start_events := [0 \<mapsto> 0], end_events := [0 \<mapsto> 1]\<rparr>"

text \<open>
  A schedule of the two threads of the example: thread 1 runs up to its first
  rendezvous, then thread 0 up to its second one, then thread 1 to its end, then
  thread 0 to its end.
\<close>

definition example_schedule :: "(int \<times> Call) list" where
  "example_schedule =
     (let t0 = snd (memcpy_trace example_system example_mem 0);
          t1 = snd (memcpy_trace example_system example_mem 1)
      in map (Pair 1) (take 9 t1) @ map (Pair 0) (take 17 t0)
         @ map (Pair 1) (drop 9 t1) @ map (Pair 0) (drop 17 t0))"

text \<open>
  Two runtimes of the example: one in which every call of every rank succeeds, and one
  in which the copies of rank 1 fail. In the second, rank 1 returns at its first copy
  and never enters the second rendezvous, where rank 0 is then held: the schedule stops
  after 29 calls.
\<close>

definition all_succeed :: "int \<Rightarrow> Call list \<Rightarrow> Call \<Rightarrow> Status" where
  "all_succeed r tr c = OkStatus"

definition copies_of_rank_1_fail :: "int \<Rightarrow> Call list \<Rightarrow> Call \<Rightarrow> Status" where
  "copies_of_rank_1_fail r tr c =
     (if r = 1 \<and> is_copy c then Error (kOther 2) ''copy failed'' else OkStatus)"

definition stalled_schedule :: "(int \<times> Call) list" where
  "stalled_schedule = take 29 example_schedule"

section \<open>Properties of the locality check\<close>

lemma is_local_groups_iff:
  assumes "dc \<noteq> 0" and "\<forall>g \<in> set groups. g \<noteq> []"
  shows "is_local_groups dc groups =
         Some (\<forall>g \<in> set groups. \<forall>r \<in> set g. r sdiv dc = hd g sdiv dc)"
  using assms
proof (induction groups)
  case Nil
  then show ?case by simp
next
  case (Cons g groups)
  then obtain first tl where g: "g = first # tl" by (cases g) auto
  from Cons have IH: "is_local_groups dc groups =
      Some (\<forall>g \<in> set groups. \<forall>r \<in> set g. r sdiv dc = hd g sdiv dc)" by simp
  show ?case
    using Cons.prems(1) IH by (auto simp: g list_all_iff)
qed

text \<open>
  Claim C8. Once the device count is set (and is not zero) and every replica group has
  a member, \<open>is_local\<close> returns \<open>true\<close> exactly when in every replica group each
  rank, divided by the device count, gives the node id of the group's first member; so
  a single rank of a single group on another node makes it \<open>false\<close>.
\<close>

theorem is_local_iff_same_node:
  assumes "device_count t \<noteq> - 1" and "device_count t \<noteq> 0"
    and "\<forall>g \<in> set (replica_groups (config (thunk_config t))). g \<noteq> []"
  shows "is_local t =
         Some (\<forall>g \<in> set (replica_groups (config (thunk_config t))).
                 \<forall>r \<in> set g. r sdiv device_count t = hd g sdiv device_count t)"
  using assms by (simp add: is_local_def is_local_groups_iff)

theorem is_local_iff_same_node_witness:
  "is_local (example_thunk [[0, 1], [2, 3]] True 2) = Some True
   \<and> is_local (example_thunk [[0, 1], [2, 3, 4]] True 2) = Some False"
  using is_local_iff_same_node [of "example_thunk [[0, 1], [2, 3]] True 2"]
        is_local_iff_same_node [of "example_thunk [[0, 1], [2, 3, 4]] True 2"]
  by (simp add: example_thunk_def example_config_def signed_divide_int_def)

section \<open>Properties of the rendezvous aggregate\<close>

lemma filter_key_distinct:
  "distinct (map f xs) \<Longrightarrow> k \<in> set xs \<Longrightarrow> filter (\<lambda>x. f k = f x) xs = [k]"
  by (induction xs) (auto simp: filter_empty_conv image_iff)

lemma sort_key_perm_distinct:
  assumes "distinct (map f xs)" and "mset ys = mset xs"
  shows "sort_key f ys = sort_key f xs"
proof (rule properties_for_sort_key)
  show "mset (sort_key f xs) = mset ys" using assms by simp
  show "sorted (map f (sort_key f xs))" by simp
  fix k assume "k \<in> set (sort_key f xs)"
  then have kx: "k \<in> set xs" by simp
  have ky: "k \<in> set ys" using kx assms(2) by (metis mset_eq_setD)
  have "mset (map f ys) = mset (map f xs)" using assms(2) by simp
  then have dy: "distinct (map f ys)" using assms(1) mset_eq_imp_distinct_iff by blast
  have ds: "distinct (map f (sort_key f xs))"
    using assms(1) mset_eq_imp_distinct_iff [of "map f (sort_key f xs)" "map f xs"] by simp
  have ks: "k \<in> set (sort_key f xs)" using kx by simp
  show "filter (\<lambda>x. f k = f x) (sort_key f xs) = filter (\<lambda>x. f k = f x) ys"
    using filter_key_distinct [OF ds ks] filter_key_distinct [OF dy ky] by simp
qed

lemma sorted_distinct_strict:
  "sorted xs \<Longrightarrow> distinct xs \<Longrightarrow> sorted_wrt (<) (xs :: int list)"
  by (simp add: strict_sorted_iff)

text \<open>
  Claim C5. The participants of one rendezvous have pairwise different ranks. Whatever
  the order in which their values arrive, and wherever in that order a participant
  arrives itself, the aggregate it gets is the one list of all submitted values in
  strictly ascending order of rank.
\<close>

theorem rendezvous_sorted_order_independent:
  assumes "distinct (map rank values)" and "mset (before @ [v] @ after) = mset values"
  shows "Rendezvous before v after rendezvous_fn = rendezvous_fn values
         \<and> sorted_wrt (<) (map rank (rendezvous_fn values))
         \<and> mset (rendezvous_fn values) = mset values"
proof -
  have 1: "Rendezvous before v after rendezvous_fn = rendezvous_fn values"
    unfolding Rendezvous_def rendezvous_fn_def Let_def
    by (rule sort_key_perm_distinct [OF assms])
  have "distinct (map rank (sort_key rank values))"
    using assms(1) mset_eq_imp_distinct_iff [of "map rank (sort_key rank values)" "map rank values"]
    by simp
  then have 2: "sorted_wrt (<) (map rank (rendezvous_fn values))"
    unfolding rendezvous_fn_def Let_def by (intro sorted_distinct_strict) simp_all
  have 3: "mset (rendezvous_fn values) = mset values"
    by (simp add: rendezvous_fn_def)
  from 1 2 3 show ?thesis by simp
qed

theorem rendezvous_sorted_order_independent_witness:
  "Rendezvous [example_value 2, example_value 0] (example_value 1) [] rendezvous_fn =
     [example_value 0, example_value 1, example_value 2]
   \<and> Rendezvous [] (example_value 0) [example_value 1, example_value 2] rendezvous_fn =
     [example_value 0, example_value 1, example_value 2]"
  using rendezvous_sorted_order_independent
          [of "[example_value 0, example_value 1, example_value 2]"
              "[example_value 2, example_value 0]" "example_value 1" "[]"]
        rendezvous_sorted_order_independent
          [of "[example_value 0, example_value 1, example_value 2]"
              "[]" "example_value 0" "[example_value 1, example_value 2]"]
  by (simp add: example_value_def rendezvous_fn_def)

section \<open>Properties of the legality check\<close>







section \<open>Properties of Initialize\<close>

lemma metadata_buffer_bytes_wraps:
  "metadata_buffer_bytes 4 = 32 \<and> metadata_buffer_bytes (2 ^ 61) = 0
   \<and> metadata_buffer_bytes (- 1) = 2 ^ 64 - 8"
  by (simp add: metadata_buffer_bytes_def)

lemma should_use_memcpy_cong:
  "p2p_memcpy_enabled t' = p2p_memcpy_enabled t \<Longrightarrow> device_count t' = device_count t \<Longrightarrow>
   thunk_config t' = thunk_config t \<Longrightarrow> should_use_memcpy t' = should_use_memcpy t"
  by (simp add: should_use_memcpy_def is_local_def)

lemma init_host_buffers_frame:
  assumes "init_host_buffers env params t tr = (st, t1, tr1)"
  shows "p2p_memcpy_enabled t1 = p2p_memcpy_enabled t \<and> device_count t1 = device_count t
       \<and> thunk_config t1 = thunk_config t \<and> device_buffer_allocs t1 = device_buffer_allocs t
       \<and> start_events t1 = start_events t \<and> end_events t1 = end_events t
       \<and> (st = OkStatus \<longrightarrow> executor params \<in> dom (host_buffer_allocs t1))"
  using assms unfolding init_host_buffers_def
  by (simp split: if_splits prod.splits Status.splits) (auto)

lemma init_host_buffers_cached:
  "executor params \<in> dom (host_buffer_allocs t) \<Longrightarrow>
   init_host_buffers env params t tr = (OkStatus, t, tr)"
  by (simp add: init_host_buffers_def)

lemma init_device_buffer_frame:
  assumes "init_device_buffer env params t tr = (st, t1, tr1)"
  shows "p2p_memcpy_enabled t1 = p2p_memcpy_enabled t \<and> device_count t1 = device_count t
       \<and> thunk_config t1 = thunk_config t \<and> host_buffer_allocs t1 = host_buffer_allocs t
       \<and> start_events t1 = start_events t \<and> end_events t1 = end_events t
       \<and> (st = OkStatus \<longrightarrow> executor params \<in> dom (device_buffer_allocs t1))"
  using assms unfolding init_device_buffer_def issue_def
  by (simp split: if_splits prod.splits Status.splits) (auto)

lemma init_device_buffer_cached:
  "executor params \<in> dom (device_buffer_allocs t) \<Longrightarrow>
   init_device_buffer env params t tr = (OkStatus, t, tr)"
  by (simp add: init_device_buffer_def)

lemma init_events_frame:
  assumes "init_events env params t tr = (st, t1, tr1)"
  shows "p2p_memcpy_enabled t1 = p2p_memcpy_enabled t \<and> device_count t1 = device_count t
       \<and> thunk_config t1 = thunk_config t \<and> host_buffer_allocs t1 = host_buffer_allocs t
       \<and> device_buffer_allocs t1 = device_buffer_allocs t
       \<and> (st = OkStatus \<longrightarrow> executor params \<in> dom (start_events t1) \<and> executor params \<in> dom (end_events t1))"
  using assms unfolding init_events_def issue_def
  by (simp split: if_splits prod.splits Status.splits) (auto)

lemma init_events_cached:
  "executor params \<in> dom (start_events t) \<Longrightarrow> executor params \<in> dom (end_events t) \<Longrightarrow>
   init_events env params t tr = (OkStatus, t, tr)"
  by (simp add: init_events_def)

lemma Initialize_again:
  assumes first: "Initialize env params t tr = Some (OkStatus, t1, tr1)"
    and base: "respond env' tr' NcclCollectiveThunk_Initialize = OkStatus"
  shows "Initialize env' params t1 tr' = Some (OkStatus, t1, tr' @ [NcclCollectiveThunk_Initialize])"
proof -
  obtain tr0 where b: "issue env NcclCollectiveThunk_Initialize tr = (OkStatus, tr0)"
    using first by (auto simp: Initialize_def split: prod.splits Status.splits)
  define t0 where "t0 = t\<lparr>device_count := local_device_count params\<rparr>"
  obtain ta tra where h: "init_host_buffers env params t0 tr0 = (OkStatus, ta, tra)"
    using first b unfolding Initialize_def t0_def
    by (auto split: prod.splits Status.splits)
  obtain tb trb where d: "init_device_buffer env params ta tra = (OkStatus, tb, trb)"
    using first b h unfolding Initialize_def t0_def
    by (auto split: prod.splits Status.splits)
  obtain use where u: "should_use_memcpy tb = Some use"
    using first b h d unfolding Initialize_def t0_def
    by (auto split: prod.splits Status.splits option.splits)
  have e: "if use then init_events env params tb trb = (OkStatus, t1, tr1) else t1 = tb"
    using first b h d u unfolding Initialize_def t0_def
    by (auto split: prod.splits Status.splits option.splits bool.splits)
  note fh = init_host_buffers_frame [OF h]
  note fd = init_device_buffer_frame [OF d]
  have tb_facts: "device_count tb = local_device_count params
      \<and> executor params \<in> dom (host_buffer_allocs tb)
      \<and> executor params \<in> dom (device_buffer_allocs tb)"
    using fh fd by (simp add: t0_def)
  have t1_facts: "device_count t1 = local_device_count params
      \<and> executor params \<in> dom (host_buffer_allocs t1)
      \<and> executor params \<in> dom (device_buffer_allocs t1)
      \<and> should_use_memcpy t1 = Some use
      \<and> (use \<longrightarrow> executor params \<in> dom (start_events t1) \<and> executor params \<in> dom (end_events t1))"
  proof (cases use)
    case True
    with e have ev: "init_events env params tb trb = (OkStatus, t1, tr1)" by simp
    note fe = init_events_frame [OF ev]
    have "should_use_memcpy t1 = should_use_memcpy tb"
      using fe by (intro should_use_memcpy_cong) simp_all
    with fe tb_facts u True show ?thesis by simp
  next
    case False
    with e tb_facts u show ?thesis by simp
  qed
  have same: "t1\<lparr>device_count := local_device_count params\<rparr> = t1"
    using t1_facts by simp
  show ?thesis
    using t1_facts base
    by (cases use)
       (simp_all add: Initialize_def issue_def same init_host_buffers_cached
          init_device_buffer_cached init_events_cached)
qed


lemma allocate_host_buffers_Ok_trace:
  "allocate_host_buffers env bytes is allocs tr = (OkStatus, allocs', tr') \<Longrightarrow>
   tr' = tr @ replicate (length is) (HostMemoryAllocate bytes)"
proof (induction "is" arbitrary: allocs tr)
  case Nil
  then show ?case by simp
next
  case (Cons i rest)
  show ?case
  proof (cases "respond env tr (HostMemoryAllocate bytes)")
    case OkStatus
    with Cons.prems have "allocate_host_buffers env bytes rest
        (allocs @ [new_handle env (tr @ [HostMemoryAllocate bytes])]) (tr @ [HostMemoryAllocate bytes])
          = (OkStatus, allocs', tr')"
      by (simp add: issue_def)
    from Cons.IH [OF this] show ?thesis by (simp add: replicate_app_Cons_same)
  next
    case (Error code msg)
    with Cons.prems show ?thesis by (simp add: issue_def)
  qed
qed

lemma init_host_buffers_Ok_trace:
  assumes "init_host_buffers env params t tr = (OkStatus, t1, tr1)"
  shows "tr1 = tr @ replicate (if executor params \<in> dom (host_buffer_allocs t) then 0 else 4)
                     (HostMemoryAllocate (metadata_buffer_bytes (num_total_updates (thunk_config t))))"
proof (cases "executor params \<in> dom (host_buffer_allocs t)")
  case True
  with assms show ?thesis by (simp add: init_host_buffers_def)
next
  case False
  obtain st' allocs' tr' where a: "allocate_host_buffers env
       (metadata_buffer_bytes (num_total_updates (thunk_config t)))
       [0..<kNumRaggedMetadataOperands] [] tr = (st', allocs', tr')"
    by (metis prod_cases3)
  have st: "st' = OkStatus" and tr: "tr1 = tr'"
    using assms False a by (cases st'; simp add: init_host_buffers_def)+
  from allocate_host_buffers_Ok_trace [OF a [unfolded st]] False tr
  show ?thesis by (simp add: kNumRaggedMetadataOperands_def)
qed

lemma init_device_buffer_Ok_trace:
  assumes "init_device_buffer env params t tr = (OkStatus, t1, tr1)"
  shows "tr1 = tr @ replicate (if executor params \<in> dom (device_buffer_allocs t) then 0 else 1)
                     (Allocate (metadata_buffer_bytes (num_total_updates (thunk_config t))))"
  using assms unfolding init_device_buffer_def issue_def
  by (auto split: if_splits prod.splits Status.splits)

lemma init_events_Ok_trace:
  assumes "init_events env params t tr = (OkStatus, t1, tr1)"
  shows "tr1 = tr @ replicate (if executor params \<in> dom (start_events t) then 0 else 1) CreateEvent
                 @ replicate (if executor params \<in> dom (end_events t) then 0 else 1) CreateEvent"
  using assms unfolding init_events_def issue_def
  by (auto split: if_splits prod.splits Status.splits)

lemma Initialize_Ok_trace:
  assumes first: "Initialize env params t tr = Some (OkStatus, t1, tr1)"
  shows "tr1 = tr @ [NcclCollectiveThunk_Initialize]
           @ replicate (if executor params \<in> dom (host_buffer_allocs t) then 0 else 4)
               (HostMemoryAllocate (metadata_buffer_bytes (num_total_updates (thunk_config t))))
           @ replicate (if executor params \<in> dom (device_buffer_allocs t) then 0 else 1)
               (Allocate (metadata_buffer_bytes (num_total_updates (thunk_config t))))
           @ (if should_use_memcpy t1 = Some True
              then replicate (if executor params \<in> dom (start_events t) then 0 else 1) CreateEvent
                   @ replicate (if executor params \<in> dom (end_events t) then 0 else 1) CreateEvent
              else [])"
proof -
  obtain tr0 where b: "issue env NcclCollectiveThunk_Initialize tr = (OkStatus, tr0)"
    using first by (auto simp: Initialize_def split: prod.splits Status.splits)
  then have tr0: "tr0 = tr @ [NcclCollectiveThunk_Initialize]" by (simp add: issue_def)
  define t0 where "t0 = t\<lparr>device_count := local_device_count params\<rparr>"
  obtain ta tra where h: "init_host_buffers env params t0 tr0 = (OkStatus, ta, tra)"
    using first b unfolding Initialize_def t0_def
    by (auto split: prod.splits Status.splits)
  obtain tb trb where d: "init_device_buffer env params ta tra = (OkStatus, tb, trb)"
    using first b h unfolding Initialize_def t0_def
    by (auto split: prod.splits Status.splits)
  obtain use where u: "should_use_memcpy tb = Some use"
    using first b h d unfolding Initialize_def t0_def
    by (auto split: prod.splits Status.splits option.splits)
  have e: "if use then init_events env params tb trb = (OkStatus, t1, tr1) else t1 = tb \<and> tr1 = trb"
    using first b h d u unfolding Initialize_def t0_def
    by (auto split: prod.splits Status.splits option.splits bool.splits)
  note fh = init_host_buffers_frame [OF h]
  note fd = init_device_buffer_frame [OF d]
  have tra: "tra = tr0 @ replicate (if executor params \<in> dom (host_buffer_allocs t) then 0 else 4)
               (HostMemoryAllocate (metadata_buffer_bytes (num_total_updates (thunk_config t))))"
    using init_host_buffers_Ok_trace [OF h] by (simp add: t0_def)
  have trb: "trb = tra @ replicate (if executor params \<in> dom (device_buffer_allocs t) then 0 else 1)
               (Allocate (metadata_buffer_bytes (num_total_updates (thunk_config t))))"
    using init_device_buffer_Ok_trace [OF d] fh by (simp add: t0_def)
  show ?thesis
  proof (cases use)
    case True
    with e have ev: "init_events env params tb trb = (OkStatus, t1, tr1)" by simp
    note fe = init_events_frame [OF ev]
    have "should_use_memcpy t1 = should_use_memcpy tb"
      using fe by (intro should_use_memcpy_cong) simp_all
    with u True have use1: "should_use_memcpy t1 = Some True" by simp
    have "tr1 = trb @ replicate (if executor params \<in> dom (start_events t) then 0 else 1) CreateEvent
                 @ replicate (if executor params \<in> dom (end_events t) then 0 else 1) CreateEvent"
      using init_events_Ok_trace [OF ev] fh fd by (simp add: t0_def)
    then show ?thesis unfolding use1 trb tra tr0 by simp
  next
    case False
    with e u have "should_use_memcpy t1 = Some False" "tr1 = trb" by simp_all
    then show ?thesis unfolding trb tra tr0 by simp
  qed
qed

lemma Initialize_again_same_count:
  assumes first: "Initialize env params t tr = Some (OkStatus, t1, tr1)"
    and ex: "executor params' = executor params"
    and dc: "local_device_count params' = local_device_count params"
    and base: "respond env' tr' NcclCollectiveThunk_Initialize = OkStatus"
  shows "Initialize env' params' t1 tr' = Some (OkStatus, t1, tr' @ [NcclCollectiveThunk_Initialize])"
proof -
  have "params' = params" using ex dc by simp
  with Initialize_again [OF first base] show ?thesis by simp
qed


lemma Initialize_Ok_caches:
  assumes first: "Initialize env params t tr = Some (OkStatus, t1, tr1)"
  shows "executor params \<in> dom (host_buffer_allocs t1)
       \<and> executor params \<in> dom (device_buffer_allocs t1)
       \<and> (if should_use_memcpy t1 = Some True
           then executor params \<in> dom (start_events t1) \<and> executor params \<in> dom (end_events t1)
           else start_events t1 = start_events t \<and> end_events t1 = end_events t)"
proof -
  obtain tr0 where b: "issue env NcclCollectiveThunk_Initialize tr = (OkStatus, tr0)"
    using first by (auto simp: Initialize_def split: prod.splits Status.splits)
  define t0 where "t0 = t\<lparr>device_count := local_device_count params\<rparr>"
  obtain ta tra where h: "init_host_buffers env params t0 tr0 = (OkStatus, ta, tra)"
    using first b unfolding Initialize_def t0_def
    by (auto split: prod.splits Status.splits)
  obtain tb trb where d: "init_device_buffer env params ta tra = (OkStatus, tb, trb)"
    using first b h unfolding Initialize_def t0_def
    by (auto split: prod.splits Status.splits)
  obtain use where u: "should_use_memcpy tb = Some use"
    using first b h d unfolding Initialize_def t0_def
    by (auto split: prod.splits Status.splits option.splits)
  have e: "if use then init_events env params tb trb = (OkStatus, t1, tr1) else t1 = tb \<and> tr1 = trb"
    using first b h d u unfolding Initialize_def t0_def
    by (auto split: prod.splits Status.splits option.splits bool.splits)
  note fh = init_host_buffers_frame [OF h]
  note fd = init_device_buffer_frame [OF d]
  show ?thesis
  proof (cases use)
    case True
    with e have ev: "init_events env params tb trb = (OkStatus, t1, tr1)" by simp
    note fe = init_events_frame [OF ev]
    have "should_use_memcpy t1 = should_use_memcpy tb"
      using fe by (intro should_use_memcpy_cong) simp_all
    with u True have use1: "should_use_memcpy t1 = Some True" by simp
    show ?thesis unfolding use1 using fh fd fe by simp
  next
    case False
    with e u have "should_use_memcpy t1 = Some False" "t1 = tb" by simp_all
    then show ?thesis using fh fd by (simp add: t0_def)
  qed
qed

text \<open>
  Claim C9, amended. A call of \<open>Initialize\<close> that succeeds issues, after the base-class
  initialization, exactly the allocations the caches lack for the device: four
  \<open>HostMemoryAllocate\<close> when the device has no host buffers yet, one \<open>Allocate\<close> when
  it has no device buffer yet, and, only when the memory-copy transport is used, one
  \<open>CreateEvent\<close> for each of the start and the end event that the device does not have
  yet; if that transport is not used the event caches stay as they are. After it the
  device is in the host and the device cache (and in the event caches when the
  memory-copy transport is used), and any number of further calls for the same device
  with the same local device count, whose base-class initialization succeeds, return
  success, make no allocation call and leave the thunk, all its caches included, as it
  is. A call after one that failed, or one that passes another local device count, is
  not covered: the first allocates again what the failed call did not cache, the second
  can switch the memory-copy transport on and create the events.
\<close>

theorem Initialize_idempotent_after_success:
  assumes first: "Initialize env params t tr = Some (OkStatus, t1, tr1)"
    and same_executor: "executor params' = executor params"
    and same_count: "local_device_count params' = local_device_count params"
    and base: "\<And>tr'. respond env' tr' NcclCollectiveThunk_Initialize = OkStatus"
  shows "Initialize_times n env' params' t1 tr2 =
           Some (replicate n OkStatus, t1, tr2 @ replicate n NcclCollectiveThunk_Initialize)
         \<and> tr1 = tr @ [NcclCollectiveThunk_Initialize]
             @ replicate (if executor params \<in> dom (host_buffer_allocs t) then 0 else 4)
                 (HostMemoryAllocate (metadata_buffer_bytes (num_total_updates (thunk_config t))))
             @ replicate (if executor params \<in> dom (device_buffer_allocs t) then 0 else 1)
                 (Allocate (metadata_buffer_bytes (num_total_updates (thunk_config t))))
             @ (if should_use_memcpy t1 = Some True
                then replicate (if executor params \<in> dom (start_events t) then 0 else 1) CreateEvent
                     @ replicate (if executor params \<in> dom (end_events t) then 0 else 1) CreateEvent
                else [])
         \<and> executor params \<in> dom (host_buffer_allocs t1)
         \<and> executor params \<in> dom (device_buffer_allocs t1)
         \<and> (if should_use_memcpy t1 = Some True
             then executor params \<in> dom (start_events t1) \<and> executor params \<in> dom (end_events t1)
             else start_events t1 = start_events t \<and> end_events t1 = end_events t)"
proof -
  have "Initialize_times n env' params' t1 tr2 =
           Some (replicate n OkStatus, t1, tr2 @ replicate n NcclCollectiveThunk_Initialize)"
  proof (induction n arbitrary: tr2)
    case 0
    show ?case by simp
  next
    case (Suc n)
    show ?case
      by (simp add: Initialize_again_same_count [OF first same_executor same_count base] Suc.IH
            replicate_app_Cons_same)
  qed
  with Initialize_Ok_trace [OF first] Initialize_Ok_caches [OF first] show ?thesis by blast
qed

lemma first_call_ok:
  "Initialize example_env example_params (example_thunk [[0, 1]] True (- 1)) [] =
     Some (OkStatus, fst (snd (first_call example_env)), snd (snd (first_call example_env)))"
  by (simp add: first_call_def Initialize_def issue_def example_env_def example_params_def
        example_thunk_def example_config_def init_host_buffers_def init_device_buffer_def
        init_events_def should_use_memcpy_def is_local_def kNumRaggedMetadataOperands_def
        metadata_buffer_bytes_def signed_divide_int_def upt_rec)

lemma one_device_call_ok:
  "Initialize example_env one_device_params (example_thunk [[0, 1]] True (- 1)) [] =
     Some (OkStatus, fst (snd (one_device_call example_env)),
           snd (snd (one_device_call example_env)))"
  by (simp add: one_device_call_def Initialize_def issue_def example_env_def
        one_device_params_def example_thunk_def example_config_def init_host_buffers_def
        init_device_buffer_def init_events_def should_use_memcpy_def is_local_def
        kNumRaggedMetadataOperands_def metadata_buffer_bytes_def signed_divide_int_def upt_rec)

theorem Initialize_idempotent_after_success_witness:
  "Initialize_times 3 example_env example_params (fst (snd (first_call example_env)))
       (snd (snd (first_call example_env))) =
     Some ([OkStatus, OkStatus, OkStatus], fst (snd (first_call example_env)),
           snd (snd (first_call example_env))
             @ [NcclCollectiveThunk_Initialize, NcclCollectiveThunk_Initialize,
                NcclCollectiveThunk_Initialize])
   \<and> snd (snd (first_call example_env)) =
       [NcclCollectiveThunk_Initialize, HostMemoryAllocate 32, HostMemoryAllocate 32,
        HostMemoryAllocate 32, HostMemoryAllocate 32, Allocate 32, CreateEvent, CreateEvent]
   \<and> snd (snd (one_device_call example_env)) =
       [NcclCollectiveThunk_Initialize, HostMemoryAllocate 32, HostMemoryAllocate 32,
        HostMemoryAllocate 32, HostMemoryAllocate 32, Allocate 32]
   \<and> start_events (fst (snd (one_device_call example_env))) = Map.empty
   \<and> end_events (fst (snd (one_device_call example_env))) = Map.empty"
proof -
  have base: "\<And>tr'. respond example_env tr' NcclCollectiveThunk_Initialize = OkStatus"
    by (simp add: example_env_def)
  have use: "should_use_memcpy (fst (snd (first_call example_env))) = Some True"
    by (simp add: first_call_def Initialize_def issue_def example_env_def example_params_def
        example_thunk_def example_config_def init_host_buffers_def init_device_buffer_def
        init_events_def should_use_memcpy_def is_local_def kNumRaggedMetadataOperands_def
        metadata_buffer_bytes_def signed_divide_int_def upt_rec)
  have no_use: "should_use_memcpy (fst (snd (one_device_call example_env))) = Some False"
    by (simp add: one_device_call_def Initialize_def issue_def example_env_def
        one_device_params_def example_thunk_def example_config_def init_host_buffers_def
        init_device_buffer_def init_events_def should_use_memcpy_def is_local_def
        kNumRaggedMetadataOperands_def metadata_buffer_bytes_def signed_divide_int_def upt_rec)
  note w1 = Initialize_idempotent_after_success
         [OF first_call_ok refl refl base, of 3 "snd (snd (first_call example_env))"]
  note w2 = Initialize_idempotent_after_success [OF one_device_call_ok refl refl base, of 0 "[]"]
  have a: "Initialize_times 3 example_env example_params (fst (snd (first_call example_env)))
       (snd (snd (first_call example_env))) =
     Some (replicate 3 OkStatus, fst (snd (first_call example_env)),
           snd (snd (first_call example_env)) @ replicate 3 NcclCollectiveThunk_Initialize)"
    using w1 by (rule conjunct1)
  have r3: "replicate 3 x = [x, x, x]" for x :: 'a by (simp add: numeral_3_eq_3)
  have b: "snd (snd (first_call example_env)) =
       [NcclCollectiveThunk_Initialize, HostMemoryAllocate 32, HostMemoryAllocate 32,
        HostMemoryAllocate 32, HostMemoryAllocate 32, Allocate 32, CreateEvent, CreateEvent]"
    using w1 [THEN conjunct2, THEN conjunct1] unfolding use
    by (simp add: example_thunk_def example_config_def example_params_def
          metadata_buffer_bytes_def numeral_eq_Suc)
  have c: "snd (snd (one_device_call example_env)) =
       [NcclCollectiveThunk_Initialize, HostMemoryAllocate 32, HostMemoryAllocate 32,
        HostMemoryAllocate 32, HostMemoryAllocate 32, Allocate 32]"
    using w2 [THEN conjunct2, THEN conjunct1] unfolding no_use
    by (simp add: example_thunk_def example_config_def one_device_params_def
          metadata_buffer_bytes_def numeral_eq_Suc)
  have d: "start_events (fst (snd (one_device_call example_env))) = Map.empty
         \<and> end_events (fst (snd (one_device_call example_env))) = Map.empty"
    using w2 [THEN conjunct2, THEN conjunct2, THEN conjunct2, THEN conjunct2] unfolding no_use
    by (simp add: example_thunk_def)
  from a b c d show ?thesis unfolding r3 by blast
qed

theorem Initialize_after_failed_call_counterexample:
  "fst (first_call flaky_env) = Error kInternal ''Failed to allocate output offsets buffer.''
   \<and> device_buffer_allocs (fst (snd (first_call flaky_env))) 0 = None
   \<and> fst (second_call flaky_env) = OkStatus
   \<and> device_buffer_allocs (fst (snd (second_call flaky_env))) 0 = Some (whole (OffsetsScratch 0) 4)
   \<and> snd (snd (second_call flaky_env)) =
       snd (snd (first_call flaky_env))
         @ [NcclCollectiveThunk_Initialize, Allocate 32, CreateEvent, CreateEvent]
   \<and> fst (one_device_call example_env) = OkStatus
   \<and> start_events (fst (snd (one_device_call example_env))) 0 = None
   \<and> fst (two_devices_call example_env) = OkStatus
   \<and> start_events (fst (snd (two_devices_call example_env))) 0 = Some 8
   \<and> snd (snd (two_devices_call example_env)) =
       snd (snd (one_device_call example_env))
         @ [NcclCollectiveThunk_Initialize, CreateEvent, CreateEvent]"
  by (simp add: second_call_def first_call_def two_devices_call_def one_device_call_def
        Initialize_def issue_def flaky_env_def example_env_def
        example_params_def one_device_params_def example_thunk_def example_config_def
        init_host_buffers_def
        init_device_buffer_def init_events_def should_use_memcpy_def is_local_def
        kNumRaggedMetadataOperands_def metadata_buffer_bytes_def signed_divide_int_def upt_rec)

section \<open>Properties of traces\<close>

lemma and_then_Ok: "and_then (OkStatus, tr) k = k tr"
  by (simp add: and_then_def)

lemma and_then_Error: "and_then (Error code msg, tr) k = (Error code msg, tr)"
  by (simp add: and_then_def)

lemma issue_eq_issue_all: "issue env c tr = issue_all env [c] tr"
  by (cases "respond env tr c") (simp_all add: issue_def)

lemma issue_all_append:
  "issue_all env (xs @ ys) tr = and_then (issue_all env xs tr) (issue_all env ys)"
proof (induction xs arbitrary: tr)
  case Nil
  show ?case by (simp add: and_then_Ok)
next
  case (Cons x xs)
  show ?case by (cases "respond env tr x") (simp_all add: Cons and_then_Error)
qed

lemma for_each_issue_all:
  assumes "\<And>i tr. i \<in> set ixs \<Longrightarrow> body i tr = issue_all env (plan i) tr"
  shows "for_each ixs body tr = issue_all env (concat (map plan ixs)) tr"
  using assms
proof (induction ixs arbitrary: tr)
  case Nil
  show ?case by simp
next
  case (Cons i ixs)
  have "for_each ixs body = issue_all env (concat (map plan ixs))"
    using Cons by (intro ext) simp
  then show ?case using Cons.prems [of i tr] by (simp add: issue_all_append)
qed

lemma issue_all_trace:
  "issue_all env cs tr = (st, tr') \<Longrightarrow>
   \<exists>k. k \<le> length cs \<and> tr' = tr @ take k cs
     \<and> (\<forall>j < k - 1. respond env (tr @ take j cs) (cs ! j) = OkStatus)
     \<and> (st = OkStatus \<longrightarrow> k = length cs \<and> (\<forall>j < k. respond env (tr @ take j cs) (cs ! j) = OkStatus))
     \<and> (st \<noteq> OkStatus \<longrightarrow> 0 < k \<and> st = respond env (tr @ take (k - 1) cs) (cs ! (k - 1)))"
proof (induction cs arbitrary: tr)
  case Nil
  then show ?case by simp
next
  case (Cons c cs)
  show ?case
  proof (cases "respond env tr c")
    case (Error code msg)
    with Cons.prems have "st = Error code msg" "tr' = tr @ [c]" by simp_all
    then show ?thesis using Error by (intro exI [of _ 1]) simp
  next
    case OkStatus
    with Cons.prems have "issue_all env cs (tr @ [c]) = (st, tr')" by simp
    from Cons.IH [OF this] obtain k where k: "k \<le> length cs" "tr' = (tr @ [c]) @ take k cs"
      "\<forall>j < k - 1. respond env ((tr @ [c]) @ take j cs) (cs ! j) = OkStatus"
      "st = OkStatus \<longrightarrow> k = length cs \<and> (\<forall>j < k. respond env ((tr @ [c]) @ take j cs) (cs ! j) = OkStatus)"
      "st \<noteq> OkStatus \<longrightarrow> 0 < k \<and> st = respond env ((tr @ [c]) @ take (k - 1) cs) (cs ! (k - 1))"
      by blast
    have a: "\<forall>j < Suc k - 1. respond env (tr @ take j (c # cs)) ((c # cs) ! j) = OkStatus"
    proof (intro allI impI)
      fix j assume "j < Suc k - 1"
      then show "respond env (tr @ take j (c # cs)) ((c # cs) ! j) = OkStatus"
        using k(3) OkStatus by (cases j) auto
    qed
    have b: "st = OkStatus \<longrightarrow> Suc k = length (c # cs)
               \<and> (\<forall>j < Suc k. respond env (tr @ take j (c # cs)) ((c # cs) ! j) = OkStatus)"
    proof (intro impI conjI allI)
      assume s: "st = OkStatus"
      then show "Suc k = length (c # cs)" using k(4) by simp
      fix j assume "j < Suc k"
      then show "respond env (tr @ take j (c # cs)) ((c # cs) ! j) = OkStatus"
        using k(4) s OkStatus by (cases j) auto
    qed
    have c: "st \<noteq> OkStatus \<longrightarrow> 0 < Suc k
               \<and> st = respond env (tr @ take (Suc k - 1) (c # cs)) ((c # cs) ! (Suc k - 1))"
    proof (intro impI conjI)
      assume s: "st \<noteq> OkStatus"
      show "0 < Suc k" by simp
      from k(5) s obtain k' where k': "k = Suc k'" by (cases k) auto
      show "st = respond env (tr @ take (Suc k - 1) (c # cs)) ((c # cs) ! (Suc k - 1))"
        using k(5) s k' by simp
    qed
    show ?thesis
      using k(1,2) a b c by (intro exI [of _ "Suc k"]) simp
  qed
qed

lemma issue_all_Ok_trace: "issue_all env cs tr = (OkStatus, tr') \<Longrightarrow> tr' = tr @ cs"
  using issue_all_trace [of env cs tr OkStatus tr'] by auto

lemma issue_all_ok_env:
  "(\<And>tr c. respond env tr c = OkStatus) \<Longrightarrow> issue_all env cs tr = (OkStatus, tr @ cs)"
  by (induction cs arbitrary: tr) simp_all

lemma issue_all_append_Ok:
  "issue_all env (xs @ ys) tr = (OkStatus, tr') \<Longrightarrow>
   issue_all env xs tr = (OkStatus, tr @ xs) \<and> issue_all env ys (tr @ xs) = (OkStatus, tr')"
proof -
  assume a: "issue_all env (xs @ ys) tr = (OkStatus, tr')"
  obtain st tr0 where x: "issue_all env xs tr = (st, tr0)" by (cases "issue_all env xs tr")
  have "st = OkStatus" using a x by (cases st) (simp_all add: issue_all_append and_then_def)
  with x have x': "issue_all env xs tr = (OkStatus, tr @ xs)"
    using issue_all_Ok_trace by blast
  with a show ?thesis by (simp add: issue_all_append and_then_Ok)
qed

section \<open>Traces of the transports\<close>

lemma issue_fun: "issue env c = issue_all env [c]"
  by (intro ext) (rule issue_eq_issue_all)

lemma and_then_issue_all:
  "and_then (issue_all env xs tr) (issue_all env ys) = issue_all env (xs @ ys) tr"
  by (simp only: issue_all_append)

lemma for_each_issue_all_fun:
  "for_each ixs (\<lambda>i. issue_all env (plan i)) = issue_all env (concat (map plan ixs))"
  by (intro ext for_each_issue_all) simp

lemma concat_singletons: "concat (map (\<lambda>i. [f i]) xs) = map f xs"
  by (induction xs) simp_all

lemmas trace_simps = Let_def issue_fun and_then_issue_all for_each_issue_all_fun
  append.simps append_assoc concat_singletons

lemma RunAllToAllOnIndexBuffer_eq:
  "RunAllToAllOnIndexBuffer env src u dst ty tr =
     issue_all env (NumRanks # GroupStart
                    # index_exchange_calls (comm_num_ranks env) src u dst ty
                    @ [GroupEnd, BlockHostUntilDone]) tr"
  unfolding RunAllToAllOnIndexBuffer_def index_exchange_calls_def
  by (simp only: trace_simps)

lemma load_loop_eq:
  "for_each [0..<kNumRaggedMetadataOperands]
          (\<lambda>i. issue env (Memcpy (allocs ! i) (source_buffer (buffers ! (i + 2)))
                               (elem_count (source_buffer (buffers ! (i + 2))))))
   = issue_all env (butlast (load_calls buffers allocs))"
  unfolding kNumRaggedMetadataOperands_def load_calls_def butlast_snoc
  by (simp only: trace_simps)

lemma LoadRaggedTensorMetadata_Ok:
  assumes "issue_all env (load_calls buffers allocs) tr = (OkStatus, tr')"
  shows "LoadRaggedTensorMetadata env buffers allocs tr = (OkStatus, tr')"
proof -
  have lc: "load_calls buffers allocs = butlast (load_calls buffers allocs) @ [BlockHostUntilDone]"
    by (simp add: load_calls_def)
  from assms lc have
    "issue_all env (butlast (load_calls buffers allocs) @ [BlockHostUntilDone]) tr = (OkStatus, tr')"
    by simp
  from issue_all_append_Ok [OF this]
  have a: "issue_all env (butlast (load_calls buffers allocs)) tr
             = (OkStatus, tr @ butlast (load_calls buffers allocs))"
    and b: "issue_all env [BlockHostUntilDone] (tr @ butlast (load_calls buffers allocs)) = (OkStatus, tr')"
    by simp_all
  from b have "issue env BlockHostUntilDone (tr @ butlast (load_calls buffers allocs)) = (OkStatus, tr')"
    by (simp only: issue_eq_issue_all)
  then show ?thesis
    unfolding LoadRaggedTensorMetadata_def load_loop_eq a and_then_Ok by simp
qed

lemma RunRaggedAllToAll_after_preamble:
  assumes pre: "issue_all env (p2p_preamble_calls env t buffers allocs scratch) tr = (OkStatus, tr1)"
  shows "RunRaggedAllToAll env e t buffers allocs scratch tr =
     issue_all env
       (GroupStart
        # send_recv_calls (comm_num_ranks env) (t sdiv comm_num_ranks env) e
            (element_type (buffers ! 0)) (source_buffer (buffers ! 0))
            (destination_buffer (buffers ! 1))
            (host_after_load env (buffers[4 := (buffers ! 4)\<lparr>source_buffer := scratch\<rparr>]) allocs (allocs ! 0))
            (host_after_load env (buffers[4 := (buffers ! 4)\<lparr>source_buffer := scratch\<rparr>]) allocs (allocs ! 1))
            (host_after_load env (buffers[4 := (buffers ! 4)\<lparr>source_buffer := scratch\<rparr>]) allocs (allocs ! 2))
            (host_after_load env (buffers[4 := (buffers ! 4)\<lparr>source_buffer := scratch\<rparr>]) allocs (allocs ! 3))
        @ [GroupEnd]) tr1"
proof -
  define n where "n = comm_num_ranks env"
  define u where "u = t sdiv n"
  define buffers' where "buffers' = buffers[4 := (buffers ! 4)\<lparr>source_buffer := scratch\<rparr>]"
  define A where "A = [MaybeRegisterBuffers buffers, NumRanks]"
  define B where "B = NumRanks # GroupStart
       # index_exchange_calls n (source_buffer (buffers ! 4)) u scratch (element_type (buffers ! 4))
       @ [GroupEnd, BlockHostUntilDone]"
  define C where "C = load_calls buffers' allocs"
  have "p2p_preamble_calls env t buffers allocs scratch = A @ B @ C"
    by (simp add: p2p_preamble_calls_def A_def B_def C_def n_def u_def buffers'_def)
  with pre have abc: "issue_all env (A @ B @ C) tr = (OkStatus, tr1)" by simp
  from issue_all_append_Ok [OF abc]
  have a: "issue_all env A tr = (OkStatus, tr @ A)"
    and bc: "issue_all env (B @ C) (tr @ A) = (OkStatus, tr1)" by simp_all
  from issue_all_append_Ok [OF bc]
  have b: "issue_all env B (tr @ A) = (OkStatus, tr @ A @ B)"
    and c: "issue_all env C (tr @ A @ B) = (OkStatus, tr1)" by simp_all
  have a1: "issue env (MaybeRegisterBuffers buffers) tr = (OkStatus, tr @ [MaybeRegisterBuffers buffers])"
    and a2: "issue env NumRanks (tr @ [MaybeRegisterBuffers buffers]) = (OkStatus, tr @ A)"
    using a unfolding A_def
    by (auto simp: issue_def split: Status.splits)
  have b': "RunAllToAllOnIndexBuffer env (source_buffer (buffers ! 4)) u scratch
              (element_type (buffers ! 4)) (tr @ A) = (OkStatus, tr @ A @ B)"
    using b by (simp only: RunAllToAllOnIndexBuffer_eq B_def n_def)
  have c': "LoadRaggedTensorMetadata env buffers' allocs (tr @ A @ B) = (OkStatus, tr1)"
    using c unfolding C_def by (rule LoadRaggedTensorMetadata_Ok)
  have nth0: "buffers' ! 0 = buffers ! 0" and nth1: "buffers' ! 1 = buffers ! 1"
    by (simp_all add: buffers'_def)
  show ?thesis
    unfolding RunRaggedAllToAll_def Let_def a1 and_then_Ok a2
    unfolding n_def [symmetric] u_def [symmetric] buffers'_def [symmetric] b' c' and_then_Ok
    unfolding nth0 nth1 send_recv_calls_def
    by (simp only: trace_simps)
qed

lemma issue_pair_fun:
  "(\<lambda>tr. and_then (issue_all env [a] tr) (issue_all env [b])) = issue_all env [a, b]"
  by (intro ext) (simp only: and_then_issue_all append.simps)

section \<open>The bracket of the point-to-point transport\<close>

text \<open>
  Claim C3. Let the calls of \<open>RunRaggedAllToAll\<close> before its second bracket succeed
  (buffer registration, rank count, offset resolution, metadata load). Then the rest of
  the run issues, until one fails, the calls of one bracket: \<open>GroupStart\<close>; for every
  update row \<open>i\<close> from 0 below \<open>num_updates_per_replica\<close> and, inside, every peer
  \<open>p\<close> from 0 below \<open>num_ranks\<close>, with \<open>idx = p * num_updates_per_replica + i\<close>,
  one send to \<open>p\<close> of \<open>send_sizes[idx] * ragged_row_element_size\<close> elements of the
  input buffer from offset \<open>input_offsets[idx] * ragged_row_element_size\<close> and one
  receive from \<open>p\<close> of \<open>recv_sizes[idx] * ragged_row_element_size\<close> elements into the
  output buffer at offset \<open>output_offsets[idx] * ragged_row_element_size\<close>; then
  \<open>GroupEnd\<close>. The trace ends with the first call that fails, every call before it
  has succeeded, and the status returned is the status of that call.
\<close>

theorem RunRaggedAllToAll_bracket:
  assumes pre: "issue_all env (p2p_preamble_calls env t buffers allocs scratch) tr = (OkStatus, tr1)"
  shows
    "let n = comm_num_ranks env;
         u = t sdiv n;
         host = host_after_load env (buffers[4 := (buffers ! 4)\<lparr>source_buffer := scratch\<rparr>]) allocs;
         input_offsets = host (allocs ! 0);
         send_sizes = host (allocs ! 1);
         output_offsets = host (allocs ! 2);
         recv_sizes = host (allocs ! 3);
         ty = element_type (buffers ! 0);
         input = source_buffer (buffers ! 0);
         output = destination_buffer (buffers ! 1);
         calls =
           GroupStart
           # concat (map (\<lambda>i. concat (map (\<lambda>p.
                [Send (Slice input ty (input_offsets ! nat (p * u + i) * e)
                                      (send_sizes ! nat (p * u + i) * e))
                   ty (send_sizes ! nat (p * u + i) * e) p,
                 Recv (Slice output ty (output_offsets ! nat (p * u + i) * e)
                                       (recv_sizes ! nat (p * u + i) * e))
                   ty (recv_sizes ! nat (p * u + i) * e) p]) [0..n - 1])) [0..u - 1])
           @ [GroupEnd];
         result = RunRaggedAllToAll env e t buffers allocs scratch tr
     in result = issue_all env calls tr1
        \<and> (\<exists>k. k \<le> length calls \<and> snd result = tr1 @ take k calls
              \<and> (\<forall>j < k - 1. respond env (tr1 @ take j calls) (calls ! j) = OkStatus)
              \<and> (fst result = OkStatus \<longrightarrow> k = length calls)
              \<and> (fst result \<noteq> OkStatus \<longrightarrow>
                    0 < k \<and> fst result = respond env (tr1 @ take (k - 1) calls) (calls ! (k - 1))))"
proof -
  define calls where "calls = GroupStart
        # send_recv_calls (comm_num_ranks env) (t sdiv comm_num_ranks env) e
            (element_type (buffers ! 0)) (source_buffer (buffers ! 0))
            (destination_buffer (buffers ! 1))
            (host_after_load env (buffers[4 := (buffers ! 4)\<lparr>source_buffer := scratch\<rparr>]) allocs (allocs ! 0))
            (host_after_load env (buffers[4 := (buffers ! 4)\<lparr>source_buffer := scratch\<rparr>]) allocs (allocs ! 1))
            (host_after_load env (buffers[4 := (buffers ! 4)\<lparr>source_buffer := scratch\<rparr>]) allocs (allocs ! 2))
            (host_after_load env (buffers[4 := (buffers ! 4)\<lparr>source_buffer := scratch\<rparr>]) allocs (allocs ! 3))
        @ [GroupEnd]"
  define result where "result = RunRaggedAllToAll env e t buffers allocs scratch tr"
  have eq: "result = issue_all env calls tr1"
    unfolding result_def calls_def by (rule RunRaggedAllToAll_after_preamble [OF pre])
  then have "issue_all env calls tr1 = (fst result, snd result)" by simp
  from issue_all_trace [OF this] obtain k where
    "k \<le> length calls" "snd result = tr1 @ take k calls"
    "\<forall>j < k - 1. respond env (tr1 @ take j calls) (calls ! j) = OkStatus"
    "fst result = OkStatus \<longrightarrow> k = length calls"
    "fst result \<noteq> OkStatus \<longrightarrow>
       0 < k \<and> fst result = respond env (tr1 @ take (k - 1) calls) (calls ! (k - 1))"
    by blast
  then have "\<exists>k. k \<le> length calls \<and> snd result = tr1 @ take k calls
              \<and> (\<forall>j < k - 1. respond env (tr1 @ take j calls) (calls ! j) = OkStatus)
              \<and> (fst result = OkStatus \<longrightarrow> k = length calls)
              \<and> (fst result \<noteq> OkStatus \<longrightarrow>
                    0 < k \<and> fst result = respond env (tr1 @ take (k - 1) calls) (calls ! (k - 1)))"
    by blast
  with eq show ?thesis
    unfolding Let_def result_def calls_def send_recv_calls_def by simp
qed

lemma upto_0_1: "[0..(1::int)] = [0, 1]"
  by (simp add: upto.simps)

lemmas example_simps = failing_env_def rank_env_def example_system_def rank_buffers_def
  whole_def example_mem_resolved_def example_mem_def p2p_preamble_calls_def
  index_exchange_calls_def load_calls_def Slice_def host_after_load_def read_region_def
  kNumRaggedMetadataOperands_def signed_divide_int_def upto_0_1 upt_rec

lemma failing_env_preamble:
  "issue_all failing_env
     (p2p_preamble_calls failing_env 4 (rank_buffers example_system 0) [0, 1, 2, 3]
        (whole (OffsetsScratch 0) 4)) []
   = (OkStatus, p2p_preamble_calls failing_env 4 (rank_buffers example_system 0) [0, 1, 2, 3]
        (whole (OffsetsScratch 0) 4))"
  by (simp add: example_simps)

theorem RunRaggedAllToAll_bracket_witness:
  "RunRaggedAllToAll failing_env 2 4 (rank_buffers example_system 0) [0, 1, 2, 3]
       (whole (OffsetsScratch 0) 4) []
   = (Error (kOther 1) ''enqueue failed'',
      p2p_preamble_calls failing_env 4 (rank_buffers example_system 0) [0, 1, 2, 3]
        (whole (OffsetsScratch 0) 4)
      @ [GroupStart,
         Send \<lparr>opaque = Operand 0 0, elem_offset = 0, elem_count = 2\<rparr> F32 2 0,
         Recv \<lparr>opaque = Result 0, elem_offset = 0, elem_count = 2\<rparr> F32 2 0,
         Send \<lparr>opaque = Operand 0 0, elem_offset = 2, elem_count = 2\<rparr> F32 2 1])"
  using RunRaggedAllToAll_bracket [OF failing_env_preamble, of 2]
  by (simp add: example_simps Let_def)

subsection \<open>Brackets of a trace\<close>







subsection \<open>The transports when every call succeeds\<close>



section \<open>The memory-copy transport call by call\<close>

lemma elem_count_Slice: "elem_count (Slice b ty off cnt) = cnt"
  by (simp add: Slice_def)


section \<open>Runs that stop at the first failure\<close>

lemma internal_wrap_Ok_iff: "internal_wrap ref = OkStatus \<longleftrightarrow> ref = OkStatus"
  by (cases ref) (simp_all add: internal_wrap_def)

lemma reported_Ok_iff: "reported ref tr = OkStatus \<longleftrightarrow> ref = OkStatus"
  by (simp add: reported_def internal_wrap_Ok_iff)

lemma reported_not_blocked: "tr \<noteq> [] \<Longrightarrow> last tr \<noteq> BlockHostUntilDone \<Longrightarrow> reported ref tr = ref"
  by (simp add: reported_def loader_blocked_def)

lemma respond_rendezvous_returns:
  "\<not> is_rendezvous c \<Longrightarrow> respond (rendezvous_returns env) tr c = respond env tr c"
  "is_rendezvous c \<Longrightarrow> respond (rendezvous_returns env) tr c = OkStatus"
  by (simp_all add: rendezvous_returns_def)

lemma issue_all_rendezvous_returns:
  "\<forall>c \<in> set xs. \<not> is_rendezvous c \<Longrightarrow>
   issue_all (rendezvous_returns env) xs tr = issue_all env xs tr"
proof (induction xs arbitrary: tr)
  case Nil
  show ?case by simp
next
  case (Cons x xs)
  then have x: "respond (rendezvous_returns env) tr x = respond env tr x"
    by (simp add: respond_rendezvous_returns)
  show ?case using Cons by (cases "respond env tr x") (simp_all add: x)
qed

lemma issue_all_failed_last:
  assumes "issue_all env xs tr = (Error code msg, tr')"
  shows "tr' \<noteq> [] \<and> last tr' \<in> set xs"
proof -
  from issue_all_trace [OF assms] obtain k where
    k: "k \<le> length xs" "tr' = tr @ take k xs" "0 < k" by auto
  then have ne: "take k xs \<noteq> []" by auto
  then have "last tr' = last (take k xs)" using k(2) by simp
  also have "\<dots> \<in> set (take k xs)" using ne by (rule last_in_set)
  finally have "last tr' \<in> set xs" by (auto dest: in_set_takeD)
  with k(2) ne show ?thesis by simp
qed

lemma stops_exact:
  "stops_at_first_failure env r tr xs \<longleftrightarrow>
   r = (reported (fst (issue_all env xs tr)) (snd (issue_all env xs tr)), snd (issue_all env xs tr))"
  unfolding stops_at_first_failure_def by (cases r) auto

lemma stops_issue_all:
  assumes "\<forall>c \<in> set xs. \<not> is_rendezvous c \<and> c \<noteq> BlockHostUntilDone"
  shows "stops_at_first_failure (rendezvous_returns env) (issue_all env xs tr) tr xs"
proof -
  have eq: "issue_all (rendezvous_returns env) xs tr = issue_all env xs tr"
    using assms by (intro issue_all_rendezvous_returns) blast
  obtain st tr' where ia: "issue_all env xs tr = (st, tr')" by (cases "issue_all env xs tr")
  have "reported st tr' = st"
  proof (cases st)
    case OkStatus
    then show ?thesis by (simp add: reported_Ok_iff)
  next
    case (Error code msg)
    from issue_all_failed_last [OF ia [unfolded Error]] assms
    have "tr' \<noteq> []" "last tr' \<noteq> BlockHostUntilDone" by auto
    then show ?thesis by (rule reported_not_blocked)
  qed
  then show ?thesis unfolding stops_at_first_failure_def eq ia by simp
qed

lemma stops_and_then:
  assumes "stops_at_first_failure env r tr xs"
    and "stops_at_first_failure env (k (tr @ xs)) (tr @ xs) ys"
  shows "stops_at_first_failure env (and_then r k) tr (xs @ ys)"
proof (cases "fst r")
  case OkStatus
  with assms(1) have "fst (issue_all env xs tr) = OkStatus"
    unfolding stops_at_first_failure_def using reported_Ok_iff by metis
  then have ia: "issue_all env xs tr = (OkStatus, tr @ xs)"
    using issue_all_Ok_trace [of env xs tr] by (cases "issue_all env xs tr") auto
  with assms(1) OkStatus have r: "r = (OkStatus, tr @ xs)"
    unfolding stops_at_first_failure_def by (cases r) auto
  show ?thesis
    using assms(2)
    unfolding stops_at_first_failure_def r and_then_Ok issue_all_append ia .
next
  case (Error code msg)
  then obtain tr' where r: "r = (Error code msg, tr')" by (cases r) auto
  from assms(1) have tr': "snd (issue_all env xs tr) = tr'"
    and rep: "Error code msg = reported (fst (issue_all env xs tr)) tr'"
    unfolding stops_at_first_failure_def r by auto
  have "fst (issue_all env xs tr) \<noteq> OkStatus"
    using rep reported_Ok_iff [of "fst (issue_all env xs tr)" tr'] by auto
  then obtain code' msg' where f: "fst (issue_all env xs tr) = Error code' msg'"
    by (cases "fst (issue_all env xs tr)") auto
  from f tr' have ia: "issue_all env xs tr = (Error code' msg', tr')"
    by (cases "issue_all env xs tr") auto
  show ?thesis
    unfolding stops_at_first_failure_def r and_then_Error issue_all_append ia
    using rep f by simp
qed

lemma stops_step:
  assumes "respond env tr c = OkStatus" and "stops_at_first_failure env r (tr @ [c]) ys"
  shows "stops_at_first_failure env r tr (c # ys)"
  using assms by (auto simp: stops_at_first_failure_def)

lemma stops_rendezvous:
  assumes "stops_at_first_failure (rendezvous_returns env) r
             (tr @ [RendezvousCall label rk clique n]) ys"
  shows "stops_at_first_failure (rendezvous_returns env) r tr (RendezvousCall label rk clique n # ys)"
  using assms by (intro stops_step) (simp_all add: rendezvous_returns_def is_rendezvous_def)

lemma stops_failed_first:
  "respond env tr c = Error code msg \<Longrightarrow> c \<noteq> BlockHostUntilDone \<Longrightarrow>
   r = (Error code msg, tr @ [c]) \<Longrightarrow> stops_at_first_failure env r tr (c # ys)"
  by (simp add: stops_at_first_failure_def reported_not_blocked)

lemma stops_bracket_end:
  "stops_at_first_failure (rendezvous_returns env)
     (issue_all env [GroupEnd, BlockHostUntilDone] tr) tr [GroupEnd, BlockHostUntilDone]"
proof -
  have eq: "issue_all (rendezvous_returns env) [GroupEnd, BlockHostUntilDone] tr
              = issue_all env [GroupEnd, BlockHostUntilDone] tr"
    by (intro issue_all_rendezvous_returns) (simp add: is_rendezvous_def)
  have nb: "\<not> loader_blocked (tr @ [GroupEnd, BlockHostUntilDone])"
    "\<not> loader_blocked (tr @ [GroupEnd])"
    by (simp_all add: loader_blocked_def is_load_def butlast_append)
  show ?thesis
    unfolding stops_at_first_failure_def eq
    using nb
    by (cases "respond env tr GroupEnd"; cases "respond env (tr @ [GroupEnd]) BlockHostUntilDone")
       (simp_all add: reported_def)
qed

lemma stops_index_pass:
  assumes "\<forall>c \<in> set ys. \<not> is_rendezvous c \<and> c \<noteq> BlockHostUntilDone"
  shows "stops_at_first_failure (rendezvous_returns env)
           (issue_all env (ys @ [GroupEnd, BlockHostUntilDone]) tr) tr
           (ys @ [GroupEnd, BlockHostUntilDone])"
  unfolding issue_all_append
  using stops_issue_all [OF assms, of env tr] stops_bracket_end [of env "tr @ ys"]
  by (rule stops_and_then)

lemma stops_Load:
  "stops_at_first_failure (rendezvous_returns env)
     (LoadRaggedTensorMetadata env buffers allocs tr) tr (load_calls buffers allocs)"
proof -
  define pre where "pre = butlast (load_calls buffers allocs)"
  define k where "k = (\<lambda>tr0. case issue env BlockHostUntilDone tr0 of
                (OkStatus, tr) \<Rightarrow> (OkStatus, tr)
              | (Error code msg, tr) \<Rightarrow>
                  (Error kInternal
                     (''Failed to complete all kernels launched on stream '' @ stream_name
                        @ '': '' @ msg), tr))"
  have lc: "load_calls buffers allocs = pre @ [BlockHostUntilDone]"
    by (simp add: load_calls_def pre_def)
  have np: "\<forall>c \<in> set pre. \<not> is_rendezvous c \<and> c \<noteq> BlockHostUntilDone"
    by (auto simp: pre_def load_calls_def is_rendezvous_def)
  have blocked: "loader_blocked ((tr @ pre) @ [BlockHostUntilDone])"
    by (simp add: loader_blocked_def pre_def load_calls_def is_load_def butlast_append upt_rec)
  have w: "stops_at_first_failure (rendezvous_returns env) (k (tr @ pre)) (tr @ pre)
             [BlockHostUntilDone]"
    using blocked
    by (cases "respond env (tr @ pre) BlockHostUntilDone")
       (simp_all add: stops_at_first_failure_def issue_def k_def reported_def internal_wrap_def
          rendezvous_returns_def is_rendezvous_def)
  have eq: "LoadRaggedTensorMetadata env buffers allocs tr = and_then (issue_all env pre tr) k"
    unfolding LoadRaggedTensorMetadata_def load_loop_eq k_def pre_def ..
  show ?thesis
    unfolding eq lc
    using stops_issue_all [OF np, of env tr] w by (rule stops_and_then)
qed

lemma stops_OkD:
  assumes "stops_at_first_failure env r tr xs" and "fst r = OkStatus"
  shows "r = (OkStatus, tr @ xs) \<and> issue_all env xs tr = (OkStatus, tr @ xs)"
proof -
  from assms have "fst (issue_all env xs tr) = OkStatus"
    unfolding stops_at_first_failure_def using reported_Ok_iff by metis
  then have ia: "issue_all env xs tr = (OkStatus, tr @ xs)"
    using issue_all_Ok_trace [of env xs tr] by (cases "issue_all env xs tr") auto
  with assms show ?thesis unfolding stops_at_first_failure_def by (cases r) auto
qed

lemma stops_prefix:
  assumes "stops_at_first_failure env r tr xs"
  shows "\<exists>k \<le> length xs. snd r = tr @ take k xs"
proof -
  obtain st tr' where ia: "issue_all env xs tr = (st, tr')" by (cases "issue_all env xs tr")
  from issue_all_trace [OF ia] assms show ?thesis
    unfolding stops_at_first_failure_def ia by auto
qed

lemma stops_no_call:
  assumes "stops_at_first_failure env r tr xs" and "c \<notin> set xs"
  shows "c \<notin> set (drop (length tr) (snd r))"
proof -
  from stops_prefix [OF assms(1)] obtain k where "snd r = tr @ take k xs" by blast
  then have "drop (length tr) (snd r) = take k xs" by simp
  with assms(2) show ?thesis by (auto dest: in_set_takeD)
qed

lemma stops_without_rendezvous:
  "stops_at_first_failure (rendezvous_returns env) r tr xs \<Longrightarrow>
   \<forall>c \<in> set xs. \<not> is_rendezvous c \<Longrightarrow> stops_at_first_failure env r tr xs"
  by (auto simp: stops_at_first_failure_def issue_all_rendezvous_returns)

lemma RunMemCpyRaggedAllToAll_stops:
  "stops_at_first_failure (rendezvous_returns env)
     (RunMemCpyRaggedAllToAll env clique r e t buffers allocs start_ev end_ev tr) tr
     (memcpy_calls env clique r e t buffers allocs start_ev end_ev)"
proof -
  have shape: "[MaybeRegisterBuffers buffers, NumRanks] @ L @ [RecordEvent start_ev, R1] @ W1 @ C
         @ [RecordEvent end_ev, R2] @ W2
       = [MaybeRegisterBuffers buffers] @ [NumRanks] @ L @ [RecordEvent start_ev]
         @ (R1 # (W1 @ C @ [RecordEvent end_ev] @ (R2 # W2)))" for L R1 W1 C R2 W2
    by simp
  show ?thesis
    unfolding RunMemCpyRaggedAllToAll_def memcpy_calls_def copy_calls_def Let_def shape
      elem_count_Slice
    apply (simp only: issue_fun for_each_issue_all_fun concat_singletons)
    apply (intro stops_and_then stops_issue_all stops_Load stops_rendezvous)
    apply (auto simp: is_rendezvous_def)
    done
qed

lemma RunAllToAllOnIndexBuffer_eq_append:
  "RunAllToAllOnIndexBuffer env src u dst ty tr =
     issue_all env ((NumRanks # GroupStart
                    # index_exchange_calls (comm_num_ranks env) src u dst ty)
                    @ [GroupEnd, BlockHostUntilDone]) tr"
  unfolding RunAllToAllOnIndexBuffer_eq by simp

lemma RunRaggedAllToAll_stops:
  "stops_at_first_failure env (RunRaggedAllToAll env e t buffers allocs scratch tr) tr
     (p2p_preamble_calls env t buffers allocs scratch
      @ GroupStart
        # send_recv_calls (comm_num_ranks env) (t sdiv comm_num_ranks env) e
            (element_type (buffers ! 0)) (source_buffer (buffers ! 0))
            (destination_buffer (buffers ! 1))
            (host_after_load env (buffers[4 := (buffers ! 4)\<lparr>source_buffer := scratch\<rparr>]) allocs (allocs ! 0))
            (host_after_load env (buffers[4 := (buffers ! 4)\<lparr>source_buffer := scratch\<rparr>]) allocs (allocs ! 1))
            (host_after_load env (buffers[4 := (buffers ! 4)\<lparr>source_buffer := scratch\<rparr>]) allocs (allocs ! 2))
            (host_after_load env (buffers[4 := (buffers ! 4)\<lparr>source_buffer := scratch\<rparr>]) allocs (allocs ! 3))
        @ [GroupEnd])"
proof (rule stops_without_rendezvous)
  have shape: "([MaybeRegisterBuffers buffers, NumRanks, NumRanks, GroupStart] @ X @ [GroupEnd, BlockHostUntilDone] @ L)
        @ GroupStart # Y @ [GroupEnd]
       = [MaybeRegisterBuffers buffers] @ [NumRanks]
         @ ((NumRanks # GroupStart # X) @ [GroupEnd, BlockHostUntilDone])
         @ L @ [GroupStart] @ Y @ [GroupEnd]" for X L Y
    by simp
  have nth0: "buffers[4 := b] ! 0 = buffers ! 0" and nth1: "buffers[4 := b] ! 1 = buffers ! 1" for b
    by simp_all
  show "stops_at_first_failure (rendezvous_returns env)
     (RunRaggedAllToAll env e t buffers allocs scratch tr) tr
     (p2p_preamble_calls env t buffers allocs scratch
      @ GroupStart
        # send_recv_calls (comm_num_ranks env) (t sdiv comm_num_ranks env) e
            (element_type (buffers ! 0)) (source_buffer (buffers ! 0))
            (destination_buffer (buffers ! 1))
            (host_after_load env (buffers[4 := (buffers ! 4)\<lparr>source_buffer := scratch\<rparr>]) allocs (allocs ! 0))
            (host_after_load env (buffers[4 := (buffers ! 4)\<lparr>source_buffer := scratch\<rparr>]) allocs (allocs ! 1))
            (host_after_load env (buffers[4 := (buffers ! 4)\<lparr>source_buffer := scratch\<rparr>]) allocs (allocs ! 2))
            (host_after_load env (buffers[4 := (buffers ! 4)\<lparr>source_buffer := scratch\<rparr>]) allocs (allocs ! 3))
        @ [GroupEnd])"
    unfolding RunRaggedAllToAll_def p2p_preamble_calls_def send_recv_calls_def Let_def shape
      nth0 nth1 RunAllToAllOnIndexBuffer_eq_append
    apply (simp only: issue_fun issue_pair_fun for_each_issue_all_fun)
    apply (intro stops_and_then stops_index_pass stops_issue_all stops_Load)
    apply (auto simp: is_rendezvous_def index_exchange_calls_def)
    done
  show "\<forall>c \<in> set (p2p_preamble_calls env t buffers allocs scratch
      @ GroupStart
        # send_recv_calls (comm_num_ranks env) (t sdiv comm_num_ranks env) e
            (element_type (buffers ! 0)) (source_buffer (buffers ! 0))
            (destination_buffer (buffers ! 1))
            (host_after_load env (buffers[4 := (buffers ! 4)\<lparr>source_buffer := scratch\<rparr>]) allocs (allocs ! 0))
            (host_after_load env (buffers[4 := (buffers ! 4)\<lparr>source_buffer := scratch\<rparr>]) allocs (allocs ! 1))
            (host_after_load env (buffers[4 := (buffers ! 4)\<lparr>source_buffer := scratch\<rparr>]) allocs (allocs ! 2))
            (host_after_load env (buffers[4 := (buffers ! 4)\<lparr>source_buffer := scratch\<rparr>]) allocs (allocs ! 3))
        @ [GroupEnd]). \<not> is_rendezvous c"
    by (auto simp: p2p_preamble_calls_def send_recv_calls_def index_exchange_calls_def
          load_calls_def is_rendezvous_def)
qed

section \<open>Writes into device memory\<close>

lemma fold_update_length:
  "length (fold (\<lambda>k ys. ys[off + k := payload ! k]) ks xs) = length xs"
  by (induction ks arbitrary: xs) simp_all

lemma length_write_at: "length (write_at xs off payload) = length xs"
  by (simp add: write_at_def fold_update_length)

lemma fold_update_nth:
  "i < length xs \<Longrightarrow>
   fold (\<lambda>k ys. ys[off + k := payload ! k]) [0..<m] xs ! i =
     (if off \<le> i \<and> i < off + m then payload ! (i - off) else xs ! i)"
proof (induction m)
  case 0
  then show ?case by auto
next
  case (Suc m)
  have len: "i < length (fold (\<lambda>k ys. ys[off + k := payload ! k]) [0..<m] xs)"
    using Suc.prems by (simp add: fold_update_length)
  show ?case
  proof (cases "i = off + m")
    case True
    with len show ?thesis by simp
  next
    case False
    with Suc show ?thesis by (auto simp: nth_list_update)
  qed
qed

lemma nth_write_at:
  "i < length xs \<Longrightarrow>
   write_at xs off payload ! i =
     (if off \<le> i \<and> i < off + length payload then payload ! (i - off) else xs ! i)"
  by (simp add: write_at_def fold_update_nth)

lemma write_at_whole: "length payload = length xs \<Longrightarrow> write_at xs 0 payload = payload"
  by (rule nth_equalityI) (simp_all add: length_write_at nth_write_at)

lemma write_at_commute:
  assumes "length p = 0 \<or> length q = 0 \<or> a + length p \<le> b \<or> b + length q \<le> a"
  shows "write_at (write_at xs a p) b q = write_at (write_at xs b q) a p"
  by (rule nth_equalityI) (use assms in \<open>auto simp: length_write_at nth_write_at\<close>)

section \<open>The offset resolution pass\<close>

lemma upto_0_0: "[0..(0::int)] = [0]"
  by (simp add: upto.simps)

lemma index_exchange_single:
  assumes ok: "\<And>tr c. respond env tr c = OkStatus" and one: "comm_num_ranks env = 1"
  shows "group_calls (snd (RunAllToAllOnIndexBuffer env src u dst ty [])) ! 0 =
           [Send (Slice src ty 0 u) ty u 0, Recv (Slice dst ty 0 u) ty u 0]"
  unfolding RunAllToAllOnIndexBuffer_eq issue_all_ok_env [OF ok]
  by (simp add: one index_exchange_calls_def upto_0_0 group_calls_def)

text \<open>
  Claim C7. \<open>RunAllToAllOnIndexBuffer\<close> asks for the rank count, opens one bracket,
  queues for each peer from 0 below the rank count one send of the block of
  \<open>num_updates_per_replica\<close> elements at element offset
  \<open>peer * num_updates_per_replica\<close> of the source and one receive of the block at the
  same offset of the destination, closes the bracket and blocks the host until the stream
  is done; a call that fails ends the run with its error. With a single rank and whole
  buffers of \<open>num_updates_per_replica\<close> elements, the exchange of that bracket is one
  write of the whole source over the destination: the destination ends equal to the
  source.
\<close>

theorem RunAllToAllOnIndexBuffer_blocks:
  "RunAllToAllOnIndexBuffer env src u dst ty tr =
     issue_all env
       (NumRanks # GroupStart
        # concat (map (\<lambda>peer. [Send (Slice src ty (peer * u) u) ty u peer,
                              Recv (Slice dst ty (peer * u) u) ty u peer])
                    [0..comm_num_ranks env - 1])
        @ [GroupEnd, BlockHostUntilDone]) tr
   \<and> ((\<forall>tr c. respond env tr c = OkStatus) \<and> comm_num_ranks env = 1 \<and> 0 \<le> u
        \<and> length (mem bs) = nat u \<and> length (mem bd) = nat u \<longrightarrow>
      exchange_writes 1
        (\<lambda>r. group_calls (snd (RunAllToAllOnIndexBuffer env (whole bs u) u (whole bd u) ty [])) ! 0)
        mem = Some [(bd, 0, mem bs)]
      \<and> fold apply_write [(bd, 0, mem bs)] mem bd = mem bs)"
proof (intro conjI impI)
  show "RunAllToAllOnIndexBuffer env src u dst ty tr =
     issue_all env
       (NumRanks # GroupStart
        # concat (map (\<lambda>peer. [Send (Slice src ty (peer * u) u) ty u peer,
                              Recv (Slice dst ty (peer * u) u) ty u peer])
                    [0..comm_num_ranks env - 1])
        @ [GroupEnd, BlockHostUntilDone]) tr"
    using RunAllToAllOnIndexBuffer_eq [of env src u dst ty tr]
    by (simp only: index_exchange_calls_def)
next
  assume a: "(\<forall>tr c. respond env tr c = OkStatus) \<and> comm_num_ranks env = 1 \<and> 0 \<le> u
        \<and> length (mem bs) = nat u \<and> length (mem bd) = nat u"
  then have ok: "\<And>tr c. respond env tr c = OkStatus" and one: "comm_num_ranks env = 1" by simp_all
  show "exchange_writes 1
        (\<lambda>r. group_calls (snd (RunAllToAllOnIndexBuffer env (whole bs u) u (whole bd u) ty [])) ! 0)
        mem = Some [(bd, 0, mem bs)]"
    unfolding index_exchange_single [OF ok one]
    using a by (simp add: exchange_writes_def upto_0_0 matched_def sends_to_def recvs_from_def
                  to_write_def Slice_def whole_def)
  show "fold apply_write [(bd, 0, mem bs)] mem bd = mem bs"
    using a by (simp add: apply_write_def write_at_whole)
qed

theorem RunAllToAllOnIndexBuffer_blocks_witness:
  "exchange_writes 1
     (\<lambda>r. group_calls (snd (RunAllToAllOnIndexBuffer (example_env\<lparr>comm_num_ranks := 1\<rparr>)
              (whole (Operand 0 4) 4) 4 (whole (OffsetsScratch 0) 4) S64 [])) ! 0)
     example_mem = Some [(OffsetsScratch 0, 0, [0, 1, 0, 1])]
   \<and> fold apply_write [(OffsetsScratch 0, 0, [0, 1, 0, 1])] example_mem (OffsetsScratch 0)
       = example_mem (Operand 0 4)"
  using RunAllToAllOnIndexBuffer_blocks
          [of "example_env\<lparr>comm_num_ranks := 1\<rparr>" "whole (Operand 0 4) 4" 4
              "whole (OffsetsScratch 0) 4" S64 "[]" example_mem "Operand 0 4" "OffsetsScratch 0"]
  by (simp add: example_env_def example_mem_def group_calls_def exchange_writes_def upto_0_0
        matched_def sends_to_def recvs_from_def to_write_def Slice_def whole_def)

section \<open>Order of the steps of an execution\<close>

lemma GroupStart_notin_memcpy_calls:
  "GroupStart \<notin> set (memcpy_calls env clique r e t buffers allocs start_ev end_ev)"
  by (auto simp: memcpy_calls_def load_calls_def copy_calls_def Let_def)


text \<open>
  Claim C2, amended. An execution first resolves the device buffers and the collectives
  and then selects the transport. With the point-to-point transport it issues exactly
  these calls, in this order: buffer registration and rank count, the offset resolution
  pass (one bracket, then blocking the host), the metadata loader (which reads the
  resolved output offsets from the scratch buffer), and the bracket of sends and
  receives. With the memory-copy transport it issues exactly: the clique key, buffer
  registration and rank count, the metadata loader, and the two-phase exchange with its
  rendezvous; no offset resolution pass runs and no bracket is opened. In both cases the
  execution stops at the first call that fails and at no other point, and it returns
  success exactly when every call has been issued and none has failed; otherwise it
  returns the status of the failing call, wrapped into an internal error when that call
  is the \<^verbatim>\<open>BlockHostUntilDone\<close> of the metadata loader.
\<close>

theorem RunNcclCollective_order:
  assumes run: "RunNcclCollective env t ex tr = Some r"
  shows
    "let bufs = converted_buffers env;
         allocs = map (\<lambda>i. the (host_buffer_allocs t ex) ! i) [0..<4];
         scratch = the (device_buffer_allocs t ex);
         e = ragged_row_element_size (thunk_config t);
         total = num_total_updates (thunk_config t);
         n = comm_num_ranks env;
         u = total sdiv n;
         resolved = bufs[4 := (bufs ! 4)\<lparr>source_buffer := scratch\<rparr>];
         host = host_after_load env resolved allocs
     in if should_use_memcpy t = Some True
        then stops_at_first_failure (rendezvous_returns env) r tr
               ([ConvertToDeviceBuffers, GetGpuCollectives, GetGpuCliqueKey]
                @ memcpy_calls env (clique_key env) (the (clique_rank env)) e total bufs allocs
                    (the (start_events t ex)) (the (end_events t ex)))
             \<and> GroupStart \<notin> set (drop (length tr) (snd r))
        else stops_at_first_failure env r tr
               ([ConvertToDeviceBuffers, GetGpuCollectives, MaybeRegisterBuffers bufs, NumRanks]
                @ (NumRanks # GroupStart
                   # index_exchange_calls n (source_buffer (bufs ! 4)) u scratch
                       (element_type (bufs ! 4))
                   @ [GroupEnd, BlockHostUntilDone])
                @ load_calls resolved allocs
                @ GroupStart
                  # send_recv_calls n u e (element_type (bufs ! 0)) (source_buffer (bufs ! 0))
                      (destination_buffer (bufs ! 1)) (host (allocs ! 0)) (host (allocs ! 1))
                      (host (allocs ! 2)) (host (allocs ! 3))
                  @ [GroupEnd])"
proof -
  define bufs where "bufs = converted_buffers env"
  define allocs where "allocs = map (\<lambda>i. the (host_buffer_allocs t ex) ! i) [0..<4]"
  define scratch where "scratch = the (device_buffer_allocs t ex)"
  define e where "e = ragged_row_element_size (thunk_config t)"
  define total where "total = num_total_updates (thunk_config t)"
  define env' where "env' = rendezvous_returns env"
  define M where "M = memcpy_calls env (clique_key env) (the (clique_rank env)) e total bufs allocs
                    (the (start_events t ex)) (the (end_events t ex))"
  define P where "P = p2p_preamble_calls env total bufs allocs scratch
      @ GroupStart
        # send_recv_calls (comm_num_ranks env) (total sdiv comm_num_ranks env) e
            (element_type (bufs ! 0)) (source_buffer (bufs ! 0))
            (destination_buffer (bufs ! 1))
            (host_after_load env (bufs[4 := (bufs ! 4)\<lparr>source_buffer := scratch\<rparr>]) allocs (allocs ! 0))
            (host_after_load env (bufs[4 := (bufs ! 4)\<lparr>source_buffer := scratch\<rparr>]) allocs (allocs ! 1))
            (host_after_load env (bufs[4 := (bufs ! 4)\<lparr>source_buffer := scratch\<rparr>]) allocs (allocs ! 2))
            (host_after_load env (bufs[4 := (bufs ! 4)\<lparr>source_buffer := scratch\<rparr>]) allocs (allocs ! 3))
        @ [GroupEnd]"
  have same: "respond env' tr0 ConvertToDeviceBuffers = respond env tr0 ConvertToDeviceBuffers"
    "respond env' tr0 GetGpuCollectives = respond env tr0 GetGpuCollectives"
    "respond env' tr0 GetGpuCliqueKey = respond env tr0 GetGpuCliqueKey" for tr0
    by (simp_all add: env'_def rendezvous_returns_def is_rendezvous_def)
  have goal: "if should_use_memcpy t = Some True
        then stops_at_first_failure env' r tr
               ([ConvertToDeviceBuffers, GetGpuCollectives, GetGpuCliqueKey] @ M)
             \<and> GroupStart \<notin> set (drop (length tr) (snd r))
        else stops_at_first_failure env r tr ([ConvertToDeviceBuffers, GetGpuCollectives] @ P)"
  proof (cases "respond env tr ConvertToDeviceBuffers")
    case (Error code msg)
    with run have r: "r = (Error code msg, tr @ [ConvertToDeviceBuffers])"
      by (simp add: RunNcclCollective_def issue_def)
    have "stops_at_first_failure env r tr (ConvertToDeviceBuffers # ys)" for ys
      by (rule stops_failed_first [OF Error _ r]) simp
    moreover have "stops_at_first_failure env' r tr (ConvertToDeviceBuffers # ys)" for ys
      by (rule stops_failed_first [OF Error [folded same(1)] _ r]) simp
    moreover have "GroupStart \<notin> set (drop (length tr) (snd r))" using r by simp
    ultimately show ?thesis by simp
  next
    case c1: OkStatus
    define tr1 where "tr1 = tr @ [ConvertToDeviceBuffers]"
    show ?thesis
    proof (cases "respond env tr1 GetGpuCollectives")
      case (Error code msg)
      with run c1 have r: "r = (Error code msg, tr1 @ [GetGpuCollectives])"
        by (simp add: RunNcclCollective_def issue_def tr1_def)
      have a0: "stops_at_first_failure env r tr1 (GetGpuCollectives # ys)" for ys
        by (rule stops_failed_first [OF Error _ r]) simp
      have a: "stops_at_first_failure env r tr (ConvertToDeviceBuffers # GetGpuCollectives # ys)" for ys
        by (rule stops_step [OF c1 a0 [unfolded tr1_def]])
      have b0: "stops_at_first_failure env' r tr1 (GetGpuCollectives # ys)" for ys
        by (rule stops_failed_first [OF Error [folded same(2)] _ r]) simp
      have b: "stops_at_first_failure env' r tr (ConvertToDeviceBuffers # GetGpuCollectives # ys)" for ys
        by (rule stops_step [OF c1 [folded same(1)] b0 [unfolded tr1_def]])
      have "GroupStart \<notin> set (drop (length tr) (snd r))"
        using r by (simp add: tr1_def)
      with a b show ?thesis by simp
    next
      case c2: OkStatus
      define tr2 where "tr2 = tr1 @ [GetGpuCollectives]"
      note unf = RunNcclCollective_def issue_def tr1_def tr2_def Let_def
      from run c1 c2 obtain it where it: "host_buffer_allocs t ex = Some it"
        by (cases "host_buffer_allocs t ex") (simp_all add: unf)
      from run c1 c2 it obtain jt where jt: "device_buffer_allocs t ex = Some jt"
        by (cases "device_buffer_allocs t ex") (simp_all add: unf)
      from run c1 c2 it jt obtain use where use: "should_use_memcpy t = Some use"
        by (cases "should_use_memcpy t") (simp_all add: unf)
      have al: "allocs = map (\<lambda>i. it ! i) [0..<kNumRaggedMetadataOperands]"
        by (simp add: allocs_def it kNumRaggedMetadataOperands_def)
      have sc: "scratch = jt" by (simp add: scratch_def jt)
      have lift: "stops_at_first_failure env r tr (ConvertToDeviceBuffers # GetGpuCollectives # ys)"
        if "stops_at_first_failure env r tr2 ys" for ys
        by (rule stops_step [OF c1 stops_step [OF c2 [unfolded tr1_def]
              that [unfolded tr2_def tr1_def]]])
      have lift': "stops_at_first_failure env' r tr (ConvertToDeviceBuffers # GetGpuCollectives # ys)"
        if "stops_at_first_failure env' r tr2 ys" for ys
        by (rule stops_step [OF c1 [folded same(1)] stops_step [OF c2 [unfolded tr1_def, folded same(2)]
              that [unfolded tr2_def tr1_def]]])
      show ?thesis
      proof (cases use)
        case False
        with run c1 c2 it jt use
        have "r = RunRaggedAllToAll env e total bufs allocs scratch tr2"
          by (simp add: unf al sc e_def total_def bufs_def)
        then have "stops_at_first_failure env r tr2 P"
          unfolding P_def by (simp only: RunRaggedAllToAll_stops)
        with lift use False show ?thesis by simp
      next
        case True
        from run c1 c2 it jt use True obtain s where s: "start_events t ex = Some s"
          by (cases "start_events t ex") (simp_all add: unf)
        from run c1 c2 it jt use True s obtain f where f: "end_events t ex = Some f"
          by (cases "end_events t ex") (simp_all add: unf)
        have "stops_at_first_failure env' r tr2 (GetGpuCliqueKey # M)"
        proof (cases "respond env tr2 GetGpuCliqueKey")
          case (Error code msg)
          with run c1 c2 it jt use True s f
          have req: "r = (Error code msg, tr2 @ [GetGpuCliqueKey])"
            by (simp add: unf)
          show ?thesis by (rule stops_failed_first [OF Error [folded same(3)] _ req]) simp
        next
          case c3: OkStatus
          from run c1 c2 c3 it jt use True s f obtain rk where rk: "clique_rank env = Some rk"
            by (cases "clique_rank env") (simp_all add: unf)
          from run c1 c2 c3 it jt use True s f rk
          have "r = RunMemCpyRaggedAllToAll env (clique_key env) rk e total bufs allocs s f
                      (tr2 @ [GetGpuCliqueKey])"
            by (simp add: unf al e_def total_def bufs_def)
          then have "stops_at_first_failure env' r (tr2 @ [GetGpuCliqueKey]) M"
            unfolding M_def env'_def
            by (simp only: rk s f option.sel RunMemCpyRaggedAllToAll_stops)
          with c3 [folded same(3)] show ?thesis by (rule stops_step)
        qed
        then have full: "stops_at_first_failure env' r tr
                           (ConvertToDeviceBuffers # GetGpuCollectives # GetGpuCliqueKey # M)"
          by (rule lift')
        have "GroupStart \<notin> set (ConvertToDeviceBuffers # GetGpuCollectives # GetGpuCliqueKey # M)"
          using GroupStart_notin_memcpy_calls unfolding M_def by simp
        with full have "GroupStart \<notin> set (drop (length tr) (snd r))"
          by (rule stops_no_call)
        with full use True show ?thesis by simp
      qed
    qed
  qed
  show ?thesis
    using goal
    unfolding Let_def M_def P_def p2p_preamble_calls_def bufs_def allocs_def scratch_def e_def
      total_def env'_def
    by (simp only: append.simps append_assoc)
qed

lemmas run_simps = RunNcclCollective_def RunRaggedAllToAll_def RunMemCpyRaggedAllToAll_def
  RunAllToAllOnIndexBuffer_def LoadRaggedTensorMetadata_def issue_def and_then_def
  initialized_thunk_def example_thunk_def example_config_def should_use_memcpy_def is_local_def
  rank_env_def rank_value_def example_system_def rank_buffers_def whole_def
  example_mem_resolved_def example_mem_def Slice_def host_after_load_def read_region_def
  Rendezvous_def rendezvous_fn_def kNumRaggedMetadataOperands_def signed_divide_int_def
  upto_0_1 upt_rec Let_def

lemma example_p2p_execution:
  "RunNcclCollective (rank_env example_system example_mem_resolved 0) (initialized_thunk False) 0 [] =
   Some (OkStatus,
     [ConvertToDeviceBuffers, GetGpuCollectives,
      MaybeRegisterBuffers (rank_buffers example_system 0), NumRanks,
      NumRanks, GroupStart,
      Send \<lparr>opaque = Operand 0 4, elem_offset = 0, elem_count = 2\<rparr> S64 2 0,
      Recv \<lparr>opaque = OffsetsScratch 0, elem_offset = 0, elem_count = 2\<rparr> S64 2 0,
      Send \<lparr>opaque = Operand 0 4, elem_offset = 2, elem_count = 2\<rparr> S64 2 1,
      Recv \<lparr>opaque = OffsetsScratch 0, elem_offset = 2, elem_count = 2\<rparr> S64 2 1,
      GroupEnd, BlockHostUntilDone,
      Memcpy 0 \<lparr>opaque = Operand 0 2, elem_offset = 0, elem_count = 4\<rparr> 4,
      Memcpy 1 \<lparr>opaque = Operand 0 3, elem_offset = 0, elem_count = 4\<rparr> 4,
      Memcpy 2 \<lparr>opaque = OffsetsScratch 0, elem_offset = 0, elem_count = 4\<rparr> 4,
      Memcpy 3 \<lparr>opaque = Operand 0 5, elem_offset = 0, elem_count = 4\<rparr> 4,
      BlockHostUntilDone, GroupStart,
      Send \<lparr>opaque = Operand 0 0, elem_offset = 0, elem_count = 2\<rparr> F32 2 0,
      Recv \<lparr>opaque = Result 0, elem_offset = 0, elem_count = 2\<rparr> F32 2 0,
      Send \<lparr>opaque = Operand 0 0, elem_offset = 2, elem_count = 2\<rparr> F32 2 1,
      Recv \<lparr>opaque = Result 0, elem_offset = 2, elem_count = 2\<rparr> F32 2 1,
      Send \<lparr>opaque = Operand 0 0, elem_offset = 2, elem_count = 0\<rparr> F32 0 0,
      Recv \<lparr>opaque = Result 0, elem_offset = 2, elem_count = 0\<rparr> F32 0 0,
      Send \<lparr>opaque = Operand 0 0, elem_offset = 4, elem_count = 0\<rparr> F32 0 1,
      Recv \<lparr>opaque = Result 0, elem_offset = 4, elem_count = 2\<rparr> F32 2 1,
      GroupEnd])"
  by (simp add: run_simps)

lemma example_memcpy_execution:
  "RunNcclCollective (rank_env example_system example_mem 0) (initialized_thunk True) 0 [] =
   Some (OkStatus,
     [ConvertToDeviceBuffers, GetGpuCollectives, GetGpuCliqueKey,
      MaybeRegisterBuffers (rank_buffers example_system 0), NumRanks,
      Memcpy 0 \<lparr>opaque = Operand 0 2, elem_offset = 0, elem_count = 4\<rparr> 4,
      Memcpy 1 \<lparr>opaque = Operand 0 3, elem_offset = 0, elem_count = 4\<rparr> 4,
      Memcpy 2 \<lparr>opaque = Operand 0 4, elem_offset = 0, elem_count = 4\<rparr> 4,
      Memcpy 3 \<lparr>opaque = Operand 0 5, elem_offset = 0, elem_count = 4\<rparr> 4,
      BlockHostUntilDone, RecordEvent 0,
      RendezvousCall ''start memcpy ragged-all-to-all'' 0 ''clique'' 2,
      WaitFor 0, WaitFor 2,
      MemcpyD2D \<lparr>opaque = Result 0, elem_offset = 0, elem_count = 2\<rparr>
        \<lparr>opaque = Operand 0 0, elem_offset = 0, elem_count = 2\<rparr> 2,
      MemcpyD2D \<lparr>opaque = Result 1, elem_offset = 0, elem_count = 2\<rparr>
        \<lparr>opaque = Operand 0 0, elem_offset = 2, elem_count = 2\<rparr> 2,
      MemcpyD2D \<lparr>opaque = Result 0, elem_offset = 2, elem_count = 0\<rparr>
        \<lparr>opaque = Operand 0 0, elem_offset = 2, elem_count = 0\<rparr> 0,
      MemcpyD2D \<lparr>opaque = Result 1, elem_offset = 2, elem_count = 0\<rparr>
        \<lparr>opaque = Operand 0 0, elem_offset = 4, elem_count = 0\<rparr> 0,
      RecordEvent 1,
      RendezvousCall ''finish memcpy ragged-all-to-all'' 0 ''clique'' 2,
      WaitFor 1, WaitFor 3])"
  by (simp add: run_simps)


lemma example_failing_execution:
  "RunNcclCollective failing_env (initialized_thunk False) 0 [] =
   Some (Error (kOther 1) ''enqueue failed'',
     [ConvertToDeviceBuffers, GetGpuCollectives,
      MaybeRegisterBuffers (rank_buffers example_system 0), NumRanks,
      NumRanks, GroupStart,
      Send \<lparr>opaque = Operand 0 4, elem_offset = 0, elem_count = 2\<rparr> S64 2 0,
      Recv \<lparr>opaque = OffsetsScratch 0, elem_offset = 0, elem_count = 2\<rparr> S64 2 0,
      Send \<lparr>opaque = Operand 0 4, elem_offset = 2, elem_count = 2\<rparr> S64 2 1,
      Recv \<lparr>opaque = OffsetsScratch 0, elem_offset = 2, elem_count = 2\<rparr> S64 2 1,
      GroupEnd, BlockHostUntilDone,
      Memcpy 0 \<lparr>opaque = Operand 0 2, elem_offset = 0, elem_count = 4\<rparr> 4,
      Memcpy 1 \<lparr>opaque = Operand 0 3, elem_offset = 0, elem_count = 4\<rparr> 4,
      Memcpy 2 \<lparr>opaque = OffsetsScratch 0, elem_offset = 0, elem_count = 4\<rparr> 4,
      Memcpy 3 \<lparr>opaque = Operand 0 5, elem_offset = 0, elem_count = 4\<rparr> 4,
      BlockHostUntilDone, GroupStart,
      Send \<lparr>opaque = Operand 0 0, elem_offset = 0, elem_count = 2\<rparr> F32 2 0])"
  by (simp add: run_simps failing_env_def)


theorem RunNcclCollective_order_witness:
  "stops_at_first_failure (rank_env example_system example_mem_resolved 0)
     (the (RunNcclCollective (rank_env example_system example_mem_resolved 0)
               (initialized_thunk False) 0 [])) []
     ([ConvertToDeviceBuffers, GetGpuCollectives,
       MaybeRegisterBuffers (rank_buffers example_system 0), NumRanks]
      @ [NumRanks, GroupStart,
         Send \<lparr>opaque = Operand 0 4, elem_offset = 0, elem_count = 2\<rparr> S64 2 0,
         Recv \<lparr>opaque = OffsetsScratch 0, elem_offset = 0, elem_count = 2\<rparr> S64 2 0,
         Send \<lparr>opaque = Operand 0 4, elem_offset = 2, elem_count = 2\<rparr> S64 2 1,
         Recv \<lparr>opaque = OffsetsScratch 0, elem_offset = 2, elem_count = 2\<rparr> S64 2 1,
         GroupEnd, BlockHostUntilDone]
      @ [Memcpy 0 \<lparr>opaque = Operand 0 2, elem_offset = 0, elem_count = 4\<rparr> 4,
         Memcpy 1 \<lparr>opaque = Operand 0 3, elem_offset = 0, elem_count = 4\<rparr> 4,
         Memcpy 2 \<lparr>opaque = OffsetsScratch 0, elem_offset = 0, elem_count = 4\<rparr> 4,
         Memcpy 3 \<lparr>opaque = Operand 0 5, elem_offset = 0, elem_count = 4\<rparr> 4,
         BlockHostUntilDone]
      @ [GroupStart,
         Send \<lparr>opaque = Operand 0 0, elem_offset = 0, elem_count = 2\<rparr> F32 2 0,
         Recv \<lparr>opaque = Result 0, elem_offset = 0, elem_count = 2\<rparr> F32 2 0,
         Send \<lparr>opaque = Operand 0 0, elem_offset = 2, elem_count = 2\<rparr> F32 2 1,
         Recv \<lparr>opaque = Result 0, elem_offset = 2, elem_count = 2\<rparr> F32 2 1,
         Send \<lparr>opaque = Operand 0 0, elem_offset = 2, elem_count = 0\<rparr> F32 0 0,
         Recv \<lparr>opaque = Result 0, elem_offset = 2, elem_count = 0\<rparr> F32 0 0,
         Send \<lparr>opaque = Operand 0 0, elem_offset = 4, elem_count = 0\<rparr> F32 0 1,
         Recv \<lparr>opaque = Result 0, elem_offset = 4, elem_count = 2\<rparr> F32 2 1,
         GroupEnd])
   \<and> fst (the (RunNcclCollective (rank_env example_system example_mem_resolved 0)
                 (initialized_thunk False) 0 [])) = OkStatus
   \<and> length (snd (the (RunNcclCollective (rank_env example_system example_mem_resolved 0)
                         (initialized_thunk False) 0 []))) = 27
   \<and> fst (the (RunNcclCollective failing_env (initialized_thunk False) 0 []))
       = Error (kOther 1) ''enqueue failed''
   \<and> length (snd (the (RunNcclCollective failing_env (initialized_thunk False) 0 []))) = 19
   \<and> fst (the (RunNcclCollective (rank_env example_system example_mem 0)
                 (initialized_thunk True) 0 [])) = OkStatus
   \<and> length (snd (the (RunNcclCollective (rank_env example_system example_mem 0)
                         (initialized_thunk True) 0 []))) = 22
   \<and> GroupStart \<notin> set (snd (the (RunNcclCollective (rank_env example_system example_mem 0)
                                      (initialized_thunk True) 0 [])))"
proof -
  have a: "stops_at_first_failure (rank_env example_system example_mem_resolved 0)
     (the (RunNcclCollective (rank_env example_system example_mem_resolved 0)
               (initialized_thunk False) 0 [])) []
     ([ConvertToDeviceBuffers, GetGpuCollectives,
       MaybeRegisterBuffers (rank_buffers example_system 0), NumRanks]
      @ [NumRanks, GroupStart,
         Send \<lparr>opaque = Operand 0 4, elem_offset = 0, elem_count = 2\<rparr> S64 2 0,
         Recv \<lparr>opaque = OffsetsScratch 0, elem_offset = 0, elem_count = 2\<rparr> S64 2 0,
         Send \<lparr>opaque = Operand 0 4, elem_offset = 2, elem_count = 2\<rparr> S64 2 1,
         Recv \<lparr>opaque = OffsetsScratch 0, elem_offset = 2, elem_count = 2\<rparr> S64 2 1,
         GroupEnd, BlockHostUntilDone]
      @ [Memcpy 0 \<lparr>opaque = Operand 0 2, elem_offset = 0, elem_count = 4\<rparr> 4,
         Memcpy 1 \<lparr>opaque = Operand 0 3, elem_offset = 0, elem_count = 4\<rparr> 4,
         Memcpy 2 \<lparr>opaque = OffsetsScratch 0, elem_offset = 0, elem_count = 4\<rparr> 4,
         Memcpy 3 \<lparr>opaque = Operand 0 5, elem_offset = 0, elem_count = 4\<rparr> 4,
         BlockHostUntilDone]
      @ [GroupStart,
         Send \<lparr>opaque = Operand 0 0, elem_offset = 0, elem_count = 2\<rparr> F32 2 0,
         Recv \<lparr>opaque = Result 0, elem_offset = 0, elem_count = 2\<rparr> F32 2 0,
         Send \<lparr>opaque = Operand 0 0, elem_offset = 2, elem_count = 2\<rparr> F32 2 1,
         Recv \<lparr>opaque = Result 0, elem_offset = 2, elem_count = 2\<rparr> F32 2 1,
         Send \<lparr>opaque = Operand 0 0, elem_offset = 2, elem_count = 0\<rparr> F32 0 0,
         Recv \<lparr>opaque = Result 0, elem_offset = 2, elem_count = 0\<rparr> F32 0 0,
         Send \<lparr>opaque = Operand 0 0, elem_offset = 4, elem_count = 0\<rparr> F32 0 1,
         Recv \<lparr>opaque = Result 0, elem_offset = 4, elem_count = 2\<rparr> F32 2 1,
         GroupEnd])"
    using RunNcclCollective_order [OF example_p2p_execution]
    unfolding example_p2p_execution option.sel
    by (simp add: initialized_thunk_def example_thunk_def example_config_def
          should_use_memcpy_def rank_env_def rank_buffers_def example_system_def whole_def
          index_exchange_calls_def load_calls_def send_recv_calls_def Slice_def
          host_after_load_def read_region_def example_mem_resolved_def example_mem_def
          kNumRaggedMetadataOperands_def signed_divide_int_def upto_0_1 upt_rec Let_def)
  have b: "GroupStart \<notin> set (snd (the (RunNcclCollective (rank_env example_system example_mem 0)
                                      (initialized_thunk True) 0 [])))"
    using RunNcclCollective_order [OF example_memcpy_execution]
    by (simp add: example_memcpy_execution)
  have c: "fst (the (RunNcclCollective failing_env (initialized_thunk False) 0 []))
             = Error (kOther 1) ''enqueue failed''
           \<and> length (snd (the (RunNcclCollective failing_env (initialized_thunk False) 0 []))) = 19"
    using RunNcclCollective_order [OF example_failing_execution]
    by (simp add: example_failing_execution)
  from a b c show ?thesis
    by (simp add: example_p2p_execution example_memcpy_execution)
qed

theorem RunNcclCollective_order_counterexample:
  "fst (the (RunNcclCollective (rank_env example_system example_mem_resolved 0)
               (initialized_thunk False) 0 [])) = OkStatus
   \<and> \<not> loader_before_resolution
         (snd (the (RunNcclCollective (rank_env example_system example_mem_resolved 0)
                      (initialized_thunk False) 0 [])))
   \<and> fst (the (RunNcclCollective (rank_env example_system example_mem 0)
                 (initialized_thunk True) 0 [])) = OkStatus
   \<and> \<not> loader_before_resolution
         (snd (the (RunNcclCollective (rank_env example_system example_mem 0)
                      (initialized_thunk True) 0 [])))"
  by (simp add: example_p2p_execution example_memcpy_execution loader_before_resolution_def
        first_index_def is_load_def)

section \<open>The memory-copy transport when every call succeeds\<close>

lemma LoadRaggedTensorMetadata_ok_env:
  assumes ok: "\<And>tr c. respond env tr c = OkStatus"
  shows "LoadRaggedTensorMetadata env buffers allocs tr = (OkStatus, tr @ load_calls buffers allocs)"
  by (rule LoadRaggedTensorMetadata_Ok) (rule issue_all_ok_env [OF ok])

lemma issue_all_ok_fun:
  assumes ok: "\<And>tr c. respond env tr c = OkStatus"
  shows "issue_all env xs = (\<lambda>tr. (OkStatus, tr @ xs))"
  by (intro ext issue_all_ok_env [OF ok])

lemma RunMemCpyRaggedAllToAll_ok:
  assumes ok: "\<And>tr c. respond env tr c = OkStatus"
  shows "RunMemCpyRaggedAllToAll env clique r e t buffers allocs start_ev end_ev tr =
           (OkStatus, tr @ memcpy_calls env clique r e t buffers allocs start_ev end_ev)"
  unfolding RunMemCpyRaggedAllToAll_def memcpy_calls_def copy_calls_def Let_def elem_count_Slice
  apply (simp only: issue_fun for_each_issue_all_fun concat_singletons)
  apply (simp only: issue_all_ok_fun [OF ok] and_then_Ok LoadRaggedTensorMetadata_ok_env [OF ok]
           append.simps append_assoc)
  done

section \<open>The rendezvous values of the system\<close>

lemma arrival_split:
  "r \<in> set arrival \<Longrightarrow>
   takeWhile (\<lambda>q. q \<noteq> r) arrival @ [r] @ tl (dropWhile (\<lambda>q. q \<noteq> r) arrival) = arrival"
proof -
  assume "r \<in> set arrival"
  then have ne: "dropWhile (\<lambda>q. q \<noteq> r) arrival \<noteq> []" by (simp add: dropWhile_eq_Nil_conv)
  then have "hd (dropWhile (\<lambda>q. q \<noteq> r) arrival) = r"
    using hd_dropWhile [of "\<lambda>q. q \<noteq> r" arrival] by simp
  with ne have "dropWhile (\<lambda>q. q \<noteq> r) arrival = r # tl (dropWhile (\<lambda>q. q \<noteq> r) arrival)"
    by (cases "dropWhile (\<lambda>q. q \<noteq> r) arrival") simp_all
  then have "takeWhile (\<lambda>q. q \<noteq> r) arrival @ [r] @ tl (dropWhile (\<lambda>q. q \<noteq> r) arrival)
      = takeWhile (\<lambda>q. q \<noteq> r) arrival @ dropWhile (\<lambda>q. q \<noteq> r) arrival" by simp
  then show ?thesis by simp
qed

lemma rank_rank_value: "rank (rank_value sys q) = q"
  by (simp add: rank_value_def)

lemma rendezvous_values:
  assumes arr: "mset arrival = mset [0..n - 1]" and r: "r \<in> set [0..n - 1]"
  shows "Rendezvous (map (rank_value sys) (takeWhile (\<lambda>q. q \<noteq> r) arrival)) (rank_value sys r)
           (map (rank_value sys) (tl (dropWhile (\<lambda>q. q \<noteq> r) arrival))) rendezvous_fn
         = map (rank_value sys) [0..n - 1]"
proof -
  have "r \<in> set arrival" using arr r by (metis mset_eq_setD)
  from arrival_split [OF this]
  have "map (rank_value sys) (takeWhile (\<lambda>q. q \<noteq> r) arrival) @ [rank_value sys r]
          @ map (rank_value sys) (tl (dropWhile (\<lambda>q. q \<noteq> r) arrival))
        = map (rank_value sys) arrival"
    by (metis list.simps(8,9) map_append)
  then have 1: "Rendezvous (map (rank_value sys) (takeWhile (\<lambda>q. q \<noteq> r) arrival)) (rank_value sys r)
           (map (rank_value sys) (tl (dropWhile (\<lambda>q. q \<noteq> r) arrival))) rendezvous_fn
         = sort_key rank (map (rank_value sys) arrival)"
    by (simp add: Rendezvous_def rendezvous_fn_def)
  have ranks: "map rank (map (rank_value sys) [0..n - 1]) = [0..n - 1]"
    by (simp add: rank_rank_value comp_def)
  have d: "distinct (map rank (map (rank_value sys) [0..n - 1]))"
    unfolding ranks by simp
  have m: "mset (map (rank_value sys) arrival) = mset (map (rank_value sys) [0..n - 1])"
    using arr by (metis mset_map)
  have 2: "sort_key rank (map (rank_value sys) arrival) = sort_key rank (map (rank_value sys) [0..n - 1])"
    by (rule sort_key_perm_distinct [OF d m])
  have 3: "sort_key rank (map (rank_value sys) [0..n - 1]) = map (rank_value sys) [0..n - 1]"
    by (rule sort_key_id_if_sorted) (simp only: ranks sorted_upto)
  from 1 2 3 show ?thesis by simp
qed


lemma rank_env_sel:
  "comm_num_ranks (rank_env sys mem q) = sys_ranks sys"
  "device_mem (rank_env sys mem q) = mem"
  "arrived_before (rank_env sys mem q)
     = map (rank_value sys) (takeWhile (\<lambda>p. p \<noteq> q) (sys_arrival sys))"
  "arrived_after (rank_env sys mem q)
     = map (rank_value sys) (tl (dropWhile (\<lambda>p. p \<noteq> q) (sys_arrival sys)))"
  by (simp_all add: rank_env_def)

lemma rank_rendezvous_value:
  "\<lparr>rank = r, output_buffer = destination_buffer (rank_buffers sys r ! 1),
    start_event = start_event (rank_value sys r), end_event = end_event (rank_value sys r)\<rparr>
   = rank_value sys r"
  by (simp add: rank_value_def rank_buffers_def)

lemma memcpy_calls_rank:
  assumes arr: "mset (sys_arrival sys) = mset [0..sys_ranks sys - 1]"
    and q: "q \<in> set [0..sys_ranks sys - 1]"
  shows "memcpy_calls (rank_env sys mem q) clique q e t (rank_buffers sys q) allocs
           (start_event (rank_value sys q)) (end_event (rank_value sys q))
     = [MaybeRegisterBuffers (rank_buffers sys q), NumRanks]
       @ load_calls (rank_buffers sys q) allocs
       @ [RecordEvent (start_event (rank_value sys q)),
          RendezvousCall ''start memcpy ragged-all-to-all'' q clique (sys_ranks sys)]
       @ map (\<lambda>v. WaitFor (start_event v)) (map (rank_value sys) [0..sys_ranks sys - 1])
       @ copy_calls (sys_ranks sys) (t sdiv sys_ranks sys) e
           (element_type (rank_buffers sys q ! 0)) (source_buffer (rank_buffers sys q ! 0))
           (map (rank_value sys) [0..sys_ranks sys - 1])
           (host_after_load (rank_env sys mem q) (rank_buffers sys q) allocs (allocs ! 0))
           (host_after_load (rank_env sys mem q) (rank_buffers sys q) allocs (allocs ! 1))
           (host_after_load (rank_env sys mem q) (rank_buffers sys q) allocs (allocs ! 2))
       @ [RecordEvent (end_event (rank_value sys q)),
          RendezvousCall ''finish memcpy ragged-all-to-all'' q clique (sys_ranks sys)]
       @ map (\<lambda>v. WaitFor (end_event v)) (map (rank_value sys) [0..sys_ranks sys - 1])"
  unfolding memcpy_calls_def Let_def rank_rendezvous_value rank_env_sel
    rendezvous_values [OF arr q] ..

section \<open>The memory-copy transport and the receive sizes\<close>

lemma rank_env_ok: "respond (rank_env sys mem r) tr c = OkStatus"
  by (simp add: rank_env_def)

lemma host_after_load_rank:
  "host_after_load (rank_env sys mem r) (rank_buffers sys r) [0, 1, 2, 3] =
     (\<lambda>_. [])(0 := read_region mem (whole (Operand r 2) (sys_total_updates sys)),
              1 := read_region mem (whole (Operand r 3) (sys_total_updates sys)),
              2 := read_region mem (whole (Operand r 4) (sys_total_updates sys)),
              3 := read_region mem (whole (Operand r 5) (sys_total_updates sys)))"
  by (simp add: host_after_load_def rank_env_def rank_buffers_def kNumRaggedMetadataOperands_def
        upt_rec)

lemma memcpy_trace_eq:
  "memcpy_trace sys mem r =
     (OkStatus,
      memcpy_calls (rank_env sys mem r) ''clique'' r (sys_row_elems sys) (sys_total_updates sys)
        (rank_buffers sys r) [0, 1, 2, 3] (start_event (rank_value sys r))
        (end_event (rank_value sys r)))"
  unfolding memcpy_trace_def
  by (simp add: RunMemCpyRaggedAllToAll_ok [OF rank_env_ok])

lemma read_region_cong:
  "mem (opaque d) = mem' (opaque d) \<Longrightarrow> read_region mem d = read_region mem' d"
  by (simp add: read_region_def)

lemma memcpy_calls_recv_sizes:
  "memcpy_calls (rank_env (with_recv_sizes sys f) (sys_mem (with_recv_sizes sys f)) r) clique r
      (sys_row_elems (with_recv_sizes sys f)) (sys_total_updates (with_recv_sizes sys f))
      (rank_buffers (with_recv_sizes sys f) r) [0, 1, 2, 3]
      (start_event (rank_value (with_recv_sizes sys f) r))
      (end_event (rank_value (with_recv_sizes sys f) r))
   = memcpy_calls (rank_env sys (sys_mem sys) r) clique r (sys_row_elems sys)
       (sys_total_updates sys) (rank_buffers sys r) [0, 1, 2, 3]
       (start_event (rank_value sys r)) (end_event (rank_value sys r))"
proof -
  have b: "rank_buffers (with_recv_sizes sys f) r = rank_buffers sys r"
    by (simp add: rank_buffers_def with_recv_sizes_def)
  have v: "rank_value (with_recv_sizes sys f) = rank_value sys"
    by (intro ext) (simp add: rank_value_def with_recv_sizes_def)
  have s: "sys_row_elems (with_recv_sizes sys f) = sys_row_elems sys"
    "sys_total_updates (with_recv_sizes sys f) = sys_total_updates sys"
    by (simp_all add: with_recv_sizes_def)
  have e: "comm_num_ranks (rank_env (with_recv_sizes sys f) m r) = comm_num_ranks (rank_env sys m' r)"
    "arrived_before (rank_env (with_recv_sizes sys f) m r) = arrived_before (rank_env sys m' r)"
    "arrived_after (rank_env (with_recv_sizes sys f) m r) = arrived_after (rank_env sys m' r)"
    for m m'
    by (simp_all add: rank_env_def v) (simp_all add: with_recv_sizes_def)
  have h: "host_after_load (rank_env (with_recv_sizes sys f) (sys_mem (with_recv_sizes sys f)) r)
             (rank_buffers sys r) [0, 1, 2, 3] k
         = host_after_load (rank_env sys (sys_mem sys) r) (rank_buffers sys r) [0, 1, 2, 3] k"
    if "k \<noteq> 3" for k
    using that host_after_load_rank [of "with_recv_sizes sys f" "sys_mem (with_recv_sizes sys f)" r]
      host_after_load_rank [of sys "sys_mem sys" r]
    by (simp add: b s) (simp add: read_region_def whole_def with_recv_sizes_def)
  have h0: "host_after_load (rank_env (with_recv_sizes sys f) (sys_mem (with_recv_sizes sys f)) r)
             (rank_buffers sys r) [0, 1, 2, 3] ([0, 1, 2, 3] ! 0)
         = host_after_load (rank_env sys (sys_mem sys) r) (rank_buffers sys r) [0, 1, 2, 3]
             ([0, 1, 2, 3] ! 0)"
    and h1: "host_after_load (rank_env (with_recv_sizes sys f) (sys_mem (with_recv_sizes sys f)) r)
             (rank_buffers sys r) [0, 1, 2, 3] ([0, 1, 2, 3] ! 1)
         = host_after_load (rank_env sys (sys_mem sys) r) (rank_buffers sys r) [0, 1, 2, 3]
             ([0, 1, 2, 3] ! 1)"
    and h2: "host_after_load (rank_env (with_recv_sizes sys f) (sys_mem (with_recv_sizes sys f)) r)
             (rank_buffers sys r) [0, 1, 2, 3] ([0, 1, 2, 3] ! 2)
         = host_after_load (rank_env sys (sys_mem sys) r) (rank_buffers sys r) [0, 1, 2, 3]
             ([0, 1, 2, 3] ! 2)"
    using h [of 0] h [of 1] h [of 2] by simp_all
  show ?thesis
    unfolding memcpy_calls_def Let_def b v s e [of _ "sys_mem sys"]
    by (simp only: h0 h1 h2)
qed

lemma fold_apply_copy_agree:
  assumes "\<forall>c \<in> set cs. \<forall>dst src n. c = MemcpyD2D dst src n \<longrightarrow> (\<forall>q. opaque src \<noteq> Operand q 5)"
    and "\<forall>b. (\<forall>q. b \<noteq> Operand q 5) \<longrightarrow> m b = m' b"
  shows "\<forall>b. (\<forall>q. b \<noteq> Operand q 5) \<longrightarrow> fold apply_copy cs m b = fold apply_copy cs m' b"
  using assms
proof (induction cs arbitrary: m m')
  case Nil
  then show ?case by simp
next
  case (Cons c cs)
  have step: "\<forall>b. (\<forall>q. b \<noteq> Operand q 5) \<longrightarrow> apply_copy c m b = apply_copy c m' b"
  proof (cases c)
    case (MemcpyD2D dst src n)
    with Cons.prems(1) have "\<forall>q. opaque src \<noteq> Operand q 5" by simp
    with Cons.prems(2) have "m (opaque src) = m' (opaque src)" by simp
    then have "to_write m dst src n = to_write m' dst src n" by (simp add: to_write_def)
    with Cons.prems(2) show ?thesis
      by (auto simp: MemcpyD2D apply_copy_def apply_write_def to_write_def)
  qed (use Cons.prems(2) in \<open>simp_all add: apply_copy_def\<close>)
  have "\<forall>b. (\<forall>q. b \<noteq> Operand q 5) \<longrightarrow>
          fold apply_copy cs (apply_copy c m) b = fold apply_copy cs (apply_copy c m') b"
    using Cons.prems(1) step by (intro Cons.IH) simp_all
  then show ?case by simp
qed

lemma copy_sources:
  "c \<in> set (memcpy_calls (rank_env sys mem r) clique r e t (rank_buffers sys r) allocs s f)
   \<Longrightarrow> c = MemcpyD2D dst src n \<Longrightarrow> opaque src = Operand r 0"
  by (auto simp: memcpy_calls_def Let_def load_calls_def copy_calls_def Slice_def
        rank_buffers_def whole_def)


text \<open>
  Claim C10. The memory-copy transport loads all four metadata arrays, the receive
  sizes included, but the trace of a rank, and with it every copy (source, destination,
  length), is the same whatever the receive sizes hold. So two executions that differ
  only in the \<open>recv_sizes\<close> arrays, with the copies scheduled the same way, end with
  the same contents in every buffer other than those arrays, in particular in every
  output buffer.
\<close>

theorem memcpy_ignores_recv_sizes:
  assumes perm: "\<And>cs. mset (order cs) = mset cs"
  shows "memcpy_trace (with_recv_sizes sys f) (sys_mem (with_recv_sizes sys f)) r
           = memcpy_trace sys (sys_mem sys) r
       \<and> Memcpy 3 (whole (Operand r 5) (sys_total_updates sys)) (sys_total_updates sys)
           \<in> set (snd (memcpy_trace sys (sys_mem sys) r))
       \<and> (\<forall>b. (\<forall>q. b \<noteq> Operand q 5) \<longrightarrow>
              memcpy_run (with_recv_sizes sys f) order b = memcpy_run sys order b)"
proof (intro conjI)
  show eq: "memcpy_trace (with_recv_sizes sys f) (sys_mem (with_recv_sizes sys f)) r
           = memcpy_trace sys (sys_mem sys) r" for r
    unfolding memcpy_trace_eq by (simp only: memcpy_calls_recv_sizes)
  show "Memcpy 3 (whole (Operand r 5) (sys_total_updates sys)) (sys_total_updates sys)
           \<in> set (snd (memcpy_trace sys (sys_mem sys) r))"
    unfolding memcpy_trace_eq
    by (simp add: memcpy_calls_def Let_def load_calls_def rank_buffers_def whole_def upt_rec)
  define cs where "cs = concat (map (\<lambda>r. filter is_copy (snd (memcpy_trace sys (sys_mem sys) r)))
                         [0..sys_ranks sys - 1])"
  have n: "sys_ranks (with_recv_sizes sys f) = sys_ranks sys"
    by (simp add: with_recv_sizes_def)
  have run': "memcpy_run (with_recv_sizes sys f) order
                = fold apply_copy (order cs) (sys_mem (with_recv_sizes sys f))"
    unfolding memcpy_run_def cs_def n by (simp only: eq)
  have run: "memcpy_run sys order = fold apply_copy (order cs) (sys_mem sys)"
    unfolding memcpy_run_def cs_def ..
  have src: "\<forall>c \<in> set (order cs). \<forall>dst src n. c = MemcpyD2D dst src n
               \<longrightarrow> (\<forall>q. opaque src \<noteq> Operand q 5)"
  proof (intro ballI allI impI)
    fix c dst src n q
    assume c: "c \<in> set (order cs)" and d: "c = MemcpyD2D dst src n"
    from c have "c \<in> set cs" using perm [of cs] by (metis mset_eq_setD)
    then obtain r' where "c \<in> set (snd (memcpy_trace sys (sys_mem sys) r'))"
      unfolding cs_def by auto
    then have "opaque src = Operand r' 0"
      unfolding memcpy_trace_eq using d by (auto dest: copy_sources)
    then show "opaque src \<noteq> Operand q 5" by simp
  qed
  have agree: "\<forall>b. (\<forall>q. b \<noteq> Operand q 5) \<longrightarrow> sys_mem (with_recv_sizes sys f) b = sys_mem sys b"
    by (auto simp: with_recv_sizes_def split: buffer_id.splits)
  show "\<forall>b. (\<forall>q. b \<noteq> Operand q 5) \<longrightarrow>
              memcpy_run (with_recv_sizes sys f) order b = memcpy_run sys order b"
    unfolding run run' by (rule fold_apply_copy_agree [OF src agree])
qed

lemmas system_simps = memcpy_run_def memcpy_trace_def RunMemCpyRaggedAllToAll_def
  LoadRaggedTensorMetadata_def issue_def and_then_def rank_env_def rank_value_def
  example_system_def rank_buffers_def whole_def example_mem_def Slice_def host_after_load_def
  read_region_def Rendezvous_def rendezvous_fn_def kNumRaggedMetadataOperands_def
  signed_divide_int_def upto_0_1 upt_rec Let_def is_copy_def apply_copy_def apply_write_def
  to_write_def write_at_def

lemma example_memcpy_run:
  "memcpy_run example_system rev (Result 0) = [10, 11, 20, 21, 22, 23, 0, 0]
   \<and> memcpy_run example_system rev (Result 1) = [12, 13, 0, 0, 24, 25, 26, 27]"
  by (simp add: system_simps)

theorem memcpy_ignores_recv_sizes_witness:
  "memcpy_run (with_recv_sizes example_system (\<lambda>r. [0, 0, 0, 0])) rev (Result 0)
     = [10, 11, 20, 21, 22, 23, 0, 0]
   \<and> memcpy_run (with_recv_sizes example_system (\<lambda>r. [0, 0, 0, 0])) rev (Result 1)
     = [12, 13, 0, 0, 24, 25, 26, 27]"
proof -
  have perm: "\<And>cs :: Call list. mset (rev cs) = mset cs" by simp
  from memcpy_ignores_recv_sizes [of rev example_system "\<lambda>r. [0, 0, 0, 0]" 0, OF perm]
  have "memcpy_run (with_recv_sizes example_system (\<lambda>r. [0, 0, 0, 0])) rev (Result 0)
          = memcpy_run example_system rev (Result 0)"
    and "memcpy_run (with_recv_sizes example_system (\<lambda>r. [0, 0, 0, 0])) rev (Result 1)
          = memcpy_run example_system rev (Result 1)"
    by simp_all
  with example_memcpy_run show ?thesis by simp
qed


section \<open>Schedules of the memory-copy transport\<close>

subsection \<open>Schedules\<close>

lemma thread_calls_append: "thread_calls r (g @ h) = thread_calls r g @ thread_calls r h"
  by (simp add: thread_calls_def)

lemma thread_calls_split:
  "thread_calls q g = thread_calls q (take j g) @ thread_calls q (drop j g)"
  using thread_calls_append [of q "take j g" "drop j g"] by simp

lemma thread_calls_at:
  assumes "j < length g" and "g ! j = (r, c)"
  shows "thread_calls r g = thread_calls r (take j g) @ c # thread_calls r (drop (Suc j) g)"
proof -
  have "g = take j g @ (r, c) # drop (Suc j) g"
    using assms by (metis id_take_nth_drop)
  then have "thread_calls r g = thread_calls r (take j g @ (r, c) # drop (Suc j) g)" by simp
  then show ?thesis by (simp add: thread_calls_def)
qed

lemma thread_calls_earlier:
  assumes "c \<in> set (thread_calls q (take j g))"
  shows "\<exists>i < j. g ! i = (q, c)"
proof -
  from assms have "(q, c) \<in> set (take j g)" by (auto simp: thread_calls_def)
  then obtain i where "i < length (take j g)" "take j g ! i = (q, c)"
    by (auto simp: in_set_conv_nth)
  then show ?thesis by (intro exI [of _ i]) simp
qed

lemma thread_calls_issued:
  assumes "c \<in> set (thread_calls q g)"
  shows "\<exists>j < length g. g ! j = (q, c)"
proof -
  from assms have "(q, c) \<in> set g" by (auto simp: thread_calls_def)
  then show ?thesis by (auto simp: in_set_conv_nth)
qed

subsection \<open>Prefixes of a run and the rendezvous they contain\<close>

lemma prefix_contains:
  assumes "xs @ ys = P @ S"
    and "length (filter is_rendezvous xs) < length (filter is_rendezvous P)"
  shows "set xs \<subseteq> set P"
proof -
  from assms(1) obtain us where "xs = P @ us \<and> us @ ys = S \<or> xs @ us = P \<and> ys = us @ S"
    by (auto simp: append_eq_append_conv2)
  then show ?thesis
  proof
    assume "xs = P @ us \<and> us @ ys = S"
    with assms(2) show ?thesis by simp
  next
    assume "xs @ us = P \<and> ys = us @ S"
    then show ?thesis by auto
  qed
qed

lemma split_at_call:
  assumes "xs @ ys = P @ c # rest"
  shows "c \<in> set xs \<or> (\<exists>us. P = xs @ us \<and> ys = us @ c # rest)"
proof -
  from assms obtain us where
    "xs = P @ us \<and> us @ ys = c # rest \<or> xs @ us = P \<and> ys = us @ c # rest"
    by (auto simp: append_eq_append_conv2)
  then show ?thesis
  proof
    assume a: "xs = P @ us \<and> us @ ys = c # rest"
    show ?thesis
    proof (cases us)
      case Nil
      with a show ?thesis by auto
    next
      case (Cons u us')
      with a show ?thesis by auto
    qed
  next
    assume "xs @ us = P \<and> ys = us @ c # rest"
    then show ?thesis by auto
  qed
qed

text \<open>The shape of a run: \<open>X @ W1 @ Y @ W2\<close>.\<close>

lemma wait_position:
  assumes T: "X @ W1 @ Y @ W2 = P @ WaitFor e # rest"
    and X: "WaitFor e \<notin> set X" and Y: "WaitFor e \<notin> set Y"
  shows "(WaitFor e \<in> set W1 \<and> length (filter is_rendezvous X) \<le> length (filter is_rendezvous P))
       \<or> (WaitFor e \<in> set W2
          \<and> length (filter is_rendezvous X) + length (filter is_rendezvous Y)
              \<le> length (filter is_rendezvous P))"
proof -
  from split_at_call [OF T] X obtain us where
    us: "P = X @ us" "W1 @ Y @ W2 = us @ WaitFor e # rest" by blast
  from split_at_call [OF us(2)] show ?thesis
  proof
    assume "WaitFor e \<in> set W1"
    with us(1) show ?thesis by simp
  next
    assume "\<exists>vs. us = W1 @ vs \<and> Y @ W2 = vs @ WaitFor e # rest"
    then obtain vs where vs: "us = W1 @ vs" "Y @ W2 = vs @ WaitFor e # rest" by blast
    from split_at_call [OF vs(2)] Y obtain ws where
      ws: "vs = Y @ ws" "W2 = ws @ WaitFor e # rest" by blast
    then have "WaitFor e \<in> set W2" by simp
    with us(1) vs(1) ws(1) show ?thesis by simp
  qed
qed


subsection \<open>Events are recorded before they are waited for\<close>

lemma no_rendezvous_load_calls: "filter is_rendezvous (load_calls buffers allocs) = []"
  by (simp add: load_calls_def is_rendezvous_def filter_empty_conv)

lemma no_rendezvous_copy_calls:
  "filter is_rendezvous (copy_calls n u e ty input vals in_offs sends out_offs) = []"
  by (auto simp: copy_calls_def is_rendezvous_def filter_empty_conv)

lemma no_rendezvous_waits: "filter is_rendezvous (map (\<lambda>v. WaitFor (f v)) vs) = []"
  by (simp add: is_rendezvous_def filter_empty_conv)

lemma no_wait_load_calls: "WaitFor e \<notin> set (load_calls buffers allocs)"
  by (auto simp: load_calls_def)

lemma no_wait_copy_calls:
  "WaitFor e \<notin> set (copy_calls n u e' ty input vals in_offs sends out_offs)"
  by (auto simp: copy_calls_def)

lemma memcpy_calls_respond:
  "memcpy_calls (env\<lparr>respond := f\<rparr>) clique r e t buffers allocs start_ev end_ev
     = memcpy_calls env clique r e t buffers allocs start_ev end_ev"
  by (simp add: memcpy_calls_def host_after_load_def)

lemma memcpy_trace_in_stops:
  "stops_at_first_failure (rendezvous_returns ((rank_env sys (sys_mem sys) q)\<lparr>respond := resp q\<rparr>))
     (memcpy_trace_in sys resp q) []
     (memcpy_calls (rank_env sys (sys_mem sys) q) ''clique'' q (sys_row_elems sys)
        (sys_total_updates sys) (rank_buffers sys q) [0, 1, 2, 3]
        (start_event (rank_value sys q)) (end_event (rank_value sys q)))"
  using RunMemCpyRaggedAllToAll_stops
          [of "(rank_env sys (sys_mem sys) q)\<lparr>respond := resp q\<rparr>" "''clique''" q
              "sys_row_elems sys" "sys_total_updates sys" "rank_buffers sys q" "[0, 1, 2, 3]"
              "start_event (rank_value sys q)" "end_event (rank_value sys q)" "[]"]
  unfolding memcpy_trace_in_def memcpy_calls_respond .

lemma event_owner:
  assumes "0 \<le> p" and "0 \<le> q"
  shows "start_event (rank_value sys p) \<noteq> end_event (rank_value sys q)"
    and "start_event (rank_value sys p) = start_event (rank_value sys q) \<Longrightarrow> p = q"
    and "end_event (rank_value sys p) = end_event (rank_value sys q) \<Longrightarrow> p = q"
proof -
  have a: "0 \<le> 2 * p" "0 \<le> 2 * q" "0 \<le> 2 * p + 1" "0 \<le> 2 * q + 1" using assms by simp_all
  have "2 * p \<noteq> 2 * q + 1" by presburger
  then show "start_event (rank_value sys p) \<noteq> end_event (rank_value sys q)"
    using a by (simp add: rank_value_def eq_nat_nat_iff)
  show "start_event (rank_value sys p) = start_event (rank_value sys q) \<Longrightarrow> p = q"
    using a by (simp add: rank_value_def eq_nat_nat_iff)
  show "end_event (rank_value sys p) = end_event (rank_value sys q) \<Longrightarrow> p = q"
    using a by (simp add: rank_value_def eq_nat_nat_iff)
qed

lemma memcpy_record_before_wait:
  assumes arr: "mset (sys_arrival sys) = mset [0..sys_ranks sys - 1]"
    and sched: "memcpy_schedule sys resp g"
    and j: "j < length g" and w: "g ! j = (r, WaitFor e)"
  shows "\<exists>i < j. \<exists>q \<in> set [0..sys_ranks sys - 1]. g ! i = (q, RecordEvent e)
           \<and> (e = start_event (rank_value sys q) \<or> e = end_event (rank_value sys q))"
proof -
  define n where "n = sys_ranks sys"
  define front where "front = (\<lambda>q. [MaybeRegisterBuffers (rank_buffers sys q), NumRanks]
       @ load_calls (rank_buffers sys q) [0, 1, 2, 3] @ [RecordEvent (start_event (rank_value sys q))])"
  define R1 where "R1 = (\<lambda>q. RendezvousCall ''start memcpy ragged-all-to-all'' q ''clique'' n)"
  define R2 where "R2 = (\<lambda>q. RendezvousCall ''finish memcpy ragged-all-to-all'' q ''clique'' n)"
  define W1 where "W1 = map (\<lambda>v. WaitFor (start_event v)) (map (rank_value sys) [0..n - 1])"
  define W2 where "W2 = map (\<lambda>v. WaitFor (end_event v)) (map (rank_value sys) [0..n - 1])"
  define C where "C = (\<lambda>q. copy_calls n (sys_total_updates sys sdiv n) (sys_row_elems sys)
       (element_type (rank_buffers sys q ! 0)) (source_buffer (rank_buffers sys q ! 0))
       (map (rank_value sys) [0..n - 1])
       (host_after_load (rank_env sys (sys_mem sys) q) (rank_buffers sys q) [0, 1, 2, 3] ([0, 1, 2, 3] ! 0))
       (host_after_load (rank_env sys (sys_mem sys) q) (rank_buffers sys q) [0, 1, 2, 3] ([0, 1, 2, 3] ! 1))
       (host_after_load (rank_env sys (sys_mem sys) q) (rank_buffers sys q) [0, 1, 2, 3] ([0, 1, 2, 3] ! 2)))"
  define rear where "rear = (\<lambda>q. C q @ [RecordEvent (end_event (rank_value sys q))])"
  have shape: "\<exists>zs. thread_calls q g @ zs = front q @ R1 q # W1 @ rear q @ R2 q # W2"
    if q: "q \<in> set [0..n - 1]" for q
  proof -
    define full where "full = memcpy_calls (rank_env sys (sys_mem sys) q) ''clique'' q
        (sys_row_elems sys) (sys_total_updates sys) (rank_buffers sys q) [0, 1, 2, 3]
        (start_event (rank_value sys q)) (end_event (rank_value sys q))"
    have "prefix (thread_calls q g) (snd (memcpy_trace_in sys resp q))"
      using sched q unfolding memcpy_schedule_def n_def by blast
    then obtain us where us: "snd (memcpy_trace_in sys resp q) = thread_calls q g @ us"
      unfolding prefix_def by blast
    from stops_prefix [OF memcpy_trace_in_stops, of sys q resp] obtain k where
      k: "snd (memcpy_trace_in sys resp q) = take k full"
      unfolding full_def by auto
    have "thread_calls q g @ (us @ drop k full) = full"
      using us k by (metis append.assoc append_take_drop_id)
    moreover have "full = front q @ R1 q # W1 @ rear q @ R2 q # W2"
      unfolding full_def memcpy_calls_rank [OF arr q [unfolded n_def]]
      by (simp add: front_def R1_def R2_def W1_def W2_def rear_def C_def n_def)
    ultimately show ?thesis by metis
  qed
  have rc_front: "length (filter is_rendezvous (front q)) = 0" for q
    by (simp add: front_def no_rendezvous_load_calls) (simp add: is_rendezvous_def)
  have rc_R: "is_rendezvous (R1 q)" "is_rendezvous (R2 q)" for q
    by (simp_all add: R1_def R2_def is_rendezvous_def)
  have rc_W: "filter is_rendezvous W1 = []" "filter is_rendezvous W2 = []"
    unfolding W1_def W2_def by (rule no_rendezvous_waits)+
  have rc_rear: "filter is_rendezvous (rear q) = []" for q
    by (simp add: rear_def C_def no_rendezvous_copy_calls) (simp add: is_rendezvous_def)
  have nw_front: "WaitFor e \<notin> set (front q @ [R1 q])" for q
    by (simp add: front_def R1_def no_wait_load_calls)
  have nw_rear: "WaitFor e \<notin> set (rear q @ [R2 q])" for q
    by (simp add: rear_def C_def R2_def no_wait_copy_calls)
  have "(r, WaitFor e) \<in> set g" using j w by (metis nth_mem)
  then have r: "r \<in> set [0..n - 1]"
    using sched unfolding memcpy_schedule_def n_def by force
  define P where "P = thread_calls r (take j g)"
  from shape [OF r] obtain zs where
    zs: "thread_calls r g @ zs = front r @ R1 r # W1 @ rear r @ R2 r # W2" by blast
  have "thread_calls r g = P @ WaitFor e # thread_calls r (drop (Suc j) g)"
    unfolding P_def using j w by (rule thread_calls_at)
  then have T: "(front r @ [R1 r]) @ W1 @ (rear r @ [R2 r]) @ W2
                  = P @ WaitFor e # (thread_calls r (drop (Suc j) g) @ zs)"
    using zs by simp
  have barrier: "length (filter is_rendezvous P) \<le> length (filter is_rendezvous (thread_calls q (take j g)))"
    if "q \<in> set [0..n - 1]" for q
    using sched j w that unfolding memcpy_schedule_def barrier_respected_def n_def P_def
      rendezvous_entered_def
    by (metis (no_types, lifting) atLeastLessThan_iff fst_conv le0 set_upt)
  from wait_position [OF T nw_front nw_rear]
  show ?thesis
  proof
    assume a: "WaitFor e \<in> set W1 \<and> length (filter is_rendezvous (front r @ [R1 r]))
                  \<le> length (filter is_rendezvous P)"
    then obtain q where q: "q \<in> set [0..n - 1]" and e: "e = start_event (rank_value sys q)"
      by (auto simp: W1_def)
    from a have "1 \<le> length (filter is_rendezvous P)"
      using rc_front [of r] rc_R(1) [of r] by simp
    with barrier [OF q] have "0 < length (filter is_rendezvous (thread_calls q (take j g)))"
      by linarith
    then have lt: "length (filter is_rendezvous (front q))
                     < length (filter is_rendezvous (thread_calls q (take j g)))"
      using rc_front [of q] by linarith
    from shape [OF q] obtain ys where
      ys: "thread_calls q g @ ys = front q @ R1 q # W1 @ rear q @ R2 q # W2" by blast
    have "front q @ (R1 q # W1 @ rear q @ R2 q # W2)
            = thread_calls q (take j g) @ (thread_calls q (drop j g) @ ys)"
      using ys thread_calls_split [of q g j] by simp
    from prefix_contains [OF this lt]
    have "RecordEvent e \<in> set (thread_calls q (take j g))"
      by (auto simp: front_def e)
    from thread_calls_earlier [OF this] q e show ?thesis unfolding n_def by blast
  next
    assume a: "WaitFor e \<in> set W2
                 \<and> length (filter is_rendezvous (front r @ [R1 r]))
                     + length (filter is_rendezvous (rear r @ [R2 r]))
                   \<le> length (filter is_rendezvous P)"
    then obtain q where q: "q \<in> set [0..n - 1]" and e: "e = end_event (rank_value sys q)"
      by (auto simp: W2_def)
    from a have "2 \<le> length (filter is_rendezvous P)"
      using rc_front [of r] rc_R [of r] rc_rear [of r] by simp
    with barrier [OF q] have two: "2 \<le> length (filter is_rendezvous (thread_calls q (take j g)))"
      by linarith
    have "length (filter is_rendezvous (front q @ R1 q # W1 @ rear q)) = 1"
      using rc_front [of q] rc_R(1) [of q] rc_W rc_rear [of q] by simp
    with two have lt: "length (filter is_rendezvous (front q @ R1 q # W1 @ rear q))
                     < length (filter is_rendezvous (thread_calls q (take j g)))"
      by linarith
    from shape [OF q] obtain ys where
      ys: "thread_calls q g @ ys = front q @ R1 q # W1 @ rear q @ R2 q # W2" by blast
    have "(front q @ R1 q # W1 @ rear q) @ (R2 q # W2)
            = thread_calls q (take j g) @ (thread_calls q (drop j g) @ ys)"
      using ys thread_calls_split [of q g j] by simp
    from prefix_contains [OF this lt]
    have "RecordEvent e \<in> set (thread_calls q (take j g))"
      by (auto simp: rear_def e)
    from thread_calls_earlier [OF this] q e show ?thesis unfolding n_def by blast
  qed
qed

lemma memcpy_success_waits:
  assumes arr: "mset (sys_arrival sys) = mset [0..sys_ranks sys - 1]"
    and sched: "memcpy_schedule sys resp g"
    and q: "q \<in> set [0..sys_ranks sys - 1]"
    and ok: "fst (memcpy_trace_in sys resp q) = OkStatus"
    and fin: "thread_calls q g = snd (memcpy_trace_in sys resp q)"
    and p: "p \<in> set [0..sys_ranks sys - 1]"
    and ev: "ev = start_event (rank_value sys p) \<or> ev = end_event (rank_value sys p)"
  shows "\<exists>i j. i < j \<and> j < length g \<and> g ! i = (p, RecordEvent ev) \<and> g ! j = (q, WaitFor ev)"
proof -
  from stops_OkD [OF memcpy_trace_in_stops ok]
  have "snd (memcpy_trace_in sys resp q)
          = memcpy_calls (rank_env sys (sys_mem sys) q) ''clique'' q (sys_row_elems sys)
              (sys_total_updates sys) (rank_buffers sys q) [0, 1, 2, 3]
              (start_event (rank_value sys q)) (end_event (rank_value sys q))"
    by (cases "memcpy_trace_in sys resp q") auto
  then have "WaitFor ev \<in> set (thread_calls q g)"
    unfolding fin memcpy_calls_rank [OF arr q] using p ev by auto
  from thread_calls_issued [OF this] obtain j where j: "j < length g" "g ! j = (q, WaitFor ev)"
    by blast
  from memcpy_record_before_wait [OF arr sched j] obtain i p' where
    i: "i < j" and p': "p' \<in> set [0..sys_ranks sys - 1]" and rec: "g ! i = (p', RecordEvent ev)"
    and own: "ev = start_event (rank_value sys p') \<or> ev = end_event (rank_value sys p')"
    by blast
  have "0 \<le> p" "0 \<le> p'" using p p' by simp_all
  from event_owner [OF this, of sys] event_owner [OF this(2,1), of sys] ev own
  have "p' = p" by metis
  with i j rec show ?thesis by blast
qed


section \<open>The two phases of the memory-copy transport\<close>

text \<open>
  Claim C4. In every runtime a run of \<open>RunMemCpyRaggedAllToAll\<close> issues exactly these
  calls, in this order, and stops at the first one that fails and at no other point:
  buffer registration, rank count and metadata load; the record of its start event; the
  first rendezvous; a wait for the start event of every rendezvous value; the copies;
  the record of its end event; the second rendezvous; a wait for the end event of every
  rendezvous value. It returns success exactly when no call has failed, and then all of
  them have been issued, the waits for the end events last; otherwise it returns the
  status of the failing call (as an internal error when that call is the
  \<^verbatim>\<open>BlockHostUntilDone\<close> of the metadata loader). Across the threads of a
  clique, whatever calls fail and at whatever moment of the execution, when every
  rendezvous lets a thread continue only after all threads have entered it, every wait
  for an event is issued after the record of that event by the rank that owns it; and
  a thread that has returned success has waited for the start and the end event of
  every rank of the clique, each after its record.
\<close>

theorem memcpy_two_phase_order:
  "(let n = comm_num_ranks env;
        vals = Rendezvous (arrived_before env)
                 \<lparr>rank = r, output_buffer = destination_buffer (buffers ! 1),
                  start_event = start_ev, end_event = end_ev\<rparr>
                 (arrived_after env) rendezvous_fn;
        host = host_after_load env buffers allocs;
        calls =
          [MaybeRegisterBuffers buffers, NumRanks]
          @ load_calls buffers allocs
          @ [RecordEvent start_ev, RendezvousCall ''start memcpy ragged-all-to-all'' r clique n]
          @ map (\<lambda>v. WaitFor (start_event v)) vals
          @ copy_calls n (t sdiv n) e (element_type (buffers ! 0)) (source_buffer (buffers ! 0))
              vals (host (allocs ! 0)) (host (allocs ! 1)) (host (allocs ! 2))
          @ [RecordEvent end_ev, RendezvousCall ''finish memcpy ragged-all-to-all'' r clique n]
          @ map (\<lambda>v. WaitFor (end_event v)) vals;
        run = RunMemCpyRaggedAllToAll env clique r e t buffers allocs start_ev end_ev tr
    in stops_at_first_failure (rendezvous_returns env) run tr calls
       \<and> (fst run = OkStatus \<longrightarrow> snd run = tr @ calls))
   \<and> (mset (sys_arrival sys) = mset [0..sys_ranks sys - 1] \<and> memcpy_schedule sys resp g \<longrightarrow>
        (\<forall>j < length g. \<forall>q ev. g ! j = (q, WaitFor ev) \<longrightarrow>
           (\<exists>i < j. \<exists>p \<in> set [0..sys_ranks sys - 1]. g ! i = (p, RecordEvent ev)
              \<and> (ev = start_event (rank_value sys p) \<or> ev = end_event (rank_value sys p))))
        \<and> (\<forall>q \<in> set [0..sys_ranks sys - 1].
              fst (memcpy_trace_in sys resp q) = OkStatus
              \<and> thread_calls q g = snd (memcpy_trace_in sys resp q) \<longrightarrow>
              (\<forall>p \<in> set [0..sys_ranks sys - 1].
               \<forall>ev \<in> {start_event (rank_value sys p), end_event (rank_value sys p)}.
                 \<exists>i j. i < j \<and> j < length g \<and> g ! i = (p, RecordEvent ev)
                        \<and> g ! j = (q, WaitFor ev))))"
proof (intro conjI impI allI ballI)
  define calls where "calls = memcpy_calls env clique r e t buffers allocs start_ev end_ev"
  define run where "run = RunMemCpyRaggedAllToAll env clique r e t buffers allocs start_ev end_ev tr"
  have s: "stops_at_first_failure (rendezvous_returns env) run tr calls"
    unfolding run_def calls_def by (rule RunMemCpyRaggedAllToAll_stops)
  have "fst run = OkStatus \<longrightarrow> snd run = tr @ calls"
    using stops_OkD [OF s] by auto
  with s have "stops_at_first_failure (rendezvous_returns env) run tr calls
       \<and> (fst run = OkStatus \<longrightarrow> snd run = tr @ calls)" by blast
  then show "let n = comm_num_ranks env;
        vals = Rendezvous (arrived_before env)
                 \<lparr>rank = r, output_buffer = destination_buffer (buffers ! 1),
                  start_event = start_ev, end_event = end_ev\<rparr>
                 (arrived_after env) rendezvous_fn;
        host = host_after_load env buffers allocs;
        calls =
          [MaybeRegisterBuffers buffers, NumRanks]
          @ load_calls buffers allocs
          @ [RecordEvent start_ev, RendezvousCall ''start memcpy ragged-all-to-all'' r clique n]
          @ map (\<lambda>v. WaitFor (start_event v)) vals
          @ copy_calls n (t sdiv n) e (element_type (buffers ! 0)) (source_buffer (buffers ! 0))
              vals (host (allocs ! 0)) (host (allocs ! 1)) (host (allocs ! 2))
          @ [RecordEvent end_ev, RendezvousCall ''finish memcpy ragged-all-to-all'' r clique n]
          @ map (\<lambda>v. WaitFor (end_event v)) vals;
        run = RunMemCpyRaggedAllToAll env clique r e t buffers allocs start_ev end_ev tr
    in stops_at_first_failure (rendezvous_returns env) run tr calls
       \<and> (fst run = OkStatus \<longrightarrow> snd run = tr @ calls)"
    unfolding run_def calls_def memcpy_calls_def Let_def .
next
  fix j q ev
  assume "mset (sys_arrival sys) = mset [0..sys_ranks sys - 1] \<and> memcpy_schedule sys resp g"
    and "j < length g" and "g ! j = (q, WaitFor ev)"
  then show "\<exists>i < j. \<exists>p \<in> set [0..sys_ranks sys - 1]. g ! i = (p, RecordEvent ev)
              \<and> (ev = start_event (rank_value sys p) \<or> ev = end_event (rank_value sys p))"
    using memcpy_record_before_wait [of sys resp g j q ev] by blast
next
  fix q p ev
  assume "mset (sys_arrival sys) = mset [0..sys_ranks sys - 1] \<and> memcpy_schedule sys resp g"
    and "q \<in> set [0..sys_ranks sys - 1]"
    and "fst (memcpy_trace_in sys resp q) = OkStatus
         \<and> thread_calls q g = snd (memcpy_trace_in sys resp q)"
    and "p \<in> set [0..sys_ranks sys - 1]"
    and "ev \<in> {start_event (rank_value sys p), end_event (rank_value sys p)}"
  then show "\<exists>i j. i < j \<and> j < length g \<and> g ! i = (p, RecordEvent ev) \<and> g ! j = (q, WaitFor ev)"
    using memcpy_success_waits [of sys resp g q p ev] by blast
qed


lemma example_schedule_valid: "memcpy_schedule example_system all_succeed example_schedule"
  by code_simp

lemma stalled_schedule_valid: "memcpy_schedule example_system copies_of_rank_1_fail stalled_schedule"
  by code_simp

theorem memcpy_two_phase_order_witness:
  "stops_at_first_failure (rendezvous_returns (rank_env example_system example_mem 0))
     (memcpy_trace example_system example_mem 0) []
     [MaybeRegisterBuffers (rank_buffers example_system 0), NumRanks,
      Memcpy 0 \<lparr>opaque = Operand 0 2, elem_offset = 0, elem_count = 4\<rparr> 4,
      Memcpy 1 \<lparr>opaque = Operand 0 3, elem_offset = 0, elem_count = 4\<rparr> 4,
      Memcpy 2 \<lparr>opaque = Operand 0 4, elem_offset = 0, elem_count = 4\<rparr> 4,
      Memcpy 3 \<lparr>opaque = Operand 0 5, elem_offset = 0, elem_count = 4\<rparr> 4,
      BlockHostUntilDone, RecordEvent 0,
      RendezvousCall ''start memcpy ragged-all-to-all'' 0 ''clique'' 2,
      WaitFor 0, WaitFor 2,
      MemcpyD2D \<lparr>opaque = Result 0, elem_offset = 0, elem_count = 2\<rparr>
        \<lparr>opaque = Operand 0 0, elem_offset = 0, elem_count = 2\<rparr> 2,
      MemcpyD2D \<lparr>opaque = Result 1, elem_offset = 0, elem_count = 2\<rparr>
        \<lparr>opaque = Operand 0 0, elem_offset = 2, elem_count = 2\<rparr> 2,
      MemcpyD2D \<lparr>opaque = Result 0, elem_offset = 2, elem_count = 0\<rparr>
        \<lparr>opaque = Operand 0 0, elem_offset = 2, elem_count = 0\<rparr> 0,
      MemcpyD2D \<lparr>opaque = Result 1, elem_offset = 2, elem_count = 0\<rparr>
        \<lparr>opaque = Operand 0 0, elem_offset = 4, elem_count = 0\<rparr> 0,
      RecordEvent 1,
      RendezvousCall ''finish memcpy ragged-all-to-all'' 0 ''clique'' 2,
      WaitFor 1, WaitFor 3]
   \<and> memcpy_schedule example_system all_succeed example_schedule
   \<and> example_schedule ! 19 = (0, WaitFor 2) \<and> example_schedule ! 7 = (1, RecordEvent 2)
   \<and> example_schedule ! 37 = (0, WaitFor 3) \<and> example_schedule ! 32 = (1, RecordEvent 3)
   \<and> (\<exists>i < 19. \<exists>p. example_schedule ! i = (p, RecordEvent 2))
   \<and> (\<exists>i < 37. \<exists>p. example_schedule ! i = (p, RecordEvent 3))
   \<and> fst (memcpy_trace_in example_system all_succeed 0) = OkStatus
   \<and> (\<exists>i j. i < j \<and> j < length example_schedule
              \<and> example_schedule ! i = (1, RecordEvent 3) \<and> example_schedule ! j = (0, WaitFor 3))
   \<and> memcpy_schedule example_system copies_of_rank_1_fail stalled_schedule
   \<and> fst (memcpy_trace_in example_system copies_of_rank_1_fail 1) = Error (kOther 2) ''copy failed''
   \<and> stalled_schedule ! 19 = (0, WaitFor 2)
   \<and> (\<exists>i < 19. \<exists>p. stalled_schedule ! i = (p, RecordEvent 2))"
proof -
  have run: "stops_at_first_failure (rendezvous_returns (rank_env example_system example_mem 0))
     (memcpy_trace example_system example_mem 0) []
     [MaybeRegisterBuffers (rank_buffers example_system 0), NumRanks,
      Memcpy 0 \<lparr>opaque = Operand 0 2, elem_offset = 0, elem_count = 4\<rparr> 4,
      Memcpy 1 \<lparr>opaque = Operand 0 3, elem_offset = 0, elem_count = 4\<rparr> 4,
      Memcpy 2 \<lparr>opaque = Operand 0 4, elem_offset = 0, elem_count = 4\<rparr> 4,
      Memcpy 3 \<lparr>opaque = Operand 0 5, elem_offset = 0, elem_count = 4\<rparr> 4,
      BlockHostUntilDone, RecordEvent 0,
      RendezvousCall ''start memcpy ragged-all-to-all'' 0 ''clique'' 2,
      WaitFor 0, WaitFor 2,
      MemcpyD2D \<lparr>opaque = Result 0, elem_offset = 0, elem_count = 2\<rparr>
        \<lparr>opaque = Operand 0 0, elem_offset = 0, elem_count = 2\<rparr> 2,
      MemcpyD2D \<lparr>opaque = Result 1, elem_offset = 0, elem_count = 2\<rparr>
        \<lparr>opaque = Operand 0 0, elem_offset = 2, elem_count = 2\<rparr> 2,
      MemcpyD2D \<lparr>opaque = Result 0, elem_offset = 2, elem_count = 0\<rparr>
        \<lparr>opaque = Operand 0 0, elem_offset = 2, elem_count = 0\<rparr> 0,
      MemcpyD2D \<lparr>opaque = Result 1, elem_offset = 2, elem_count = 0\<rparr>
        \<lparr>opaque = Operand 0 0, elem_offset = 4, elem_count = 0\<rparr> 0,
      RecordEvent 1,
      RendezvousCall ''finish memcpy ragged-all-to-all'' 0 ''clique'' 2,
      WaitFor 1, WaitFor 3]"
    using memcpy_two_phase_order
            [where env = "rank_env example_system example_mem 0" and clique = "''clique''"
               and r = 0 and e = 2 and t = 4 and buffers = "rank_buffers example_system 0"
               and allocs = "[0, 1, 2, 3]" and start_ev = 0 and end_ev = 1 and tr = "[]",
             THEN conjunct1]
    unfolding memcpy_trace_def
    by (simp add: rank_env_def rank_value_def rank_buffers_def example_system_def whole_def
          load_calls_def copy_calls_def Slice_def host_after_load_def read_region_def
          example_mem_def Rendezvous_def rendezvous_fn_def kNumRaggedMetadataOperands_def
          signed_divide_int_def upto_0_1 upt_rec Let_def)
  have arr: "mset (sys_arrival example_system) = mset [0..sys_ranks example_system - 1]"
    by (simp add: example_system_def upto_0_1)
  note full = memcpy_two_phase_order
                [where sys = example_system and resp = all_succeed and g = example_schedule,
                 THEN conjunct2, rule_format, OF conjI [OF arr example_schedule_valid]]
  note stalled = memcpy_two_phase_order
                [where sys = example_system and resp = copies_of_rank_1_fail
                   and g = stalled_schedule,
                 THEN conjunct2, rule_format, OF conjI [OF arr stalled_schedule_valid]]
  have b: "example_schedule ! 19 = (0, WaitFor 2)" "example_schedule ! 7 = (1, RecordEvent 2)"
    "example_schedule ! 37 = (0, WaitFor 3)" "example_schedule ! 32 = (1, RecordEvent 3)"
    "19 < length example_schedule" "37 < length example_schedule"
    by code_simp+
  have c: "stalled_schedule ! 19 = (0, WaitFor 2)" "19 < length stalled_schedule"
    by code_simp+
  have d: "fst (memcpy_trace_in example_system all_succeed 0) = OkStatus"
    "thread_calls 0 example_schedule = snd (memcpy_trace_in example_system all_succeed 0)"
    "fst (memcpy_trace_in example_system copies_of_rank_1_fail 1) = Error (kOther 2) ''copy failed''"
    by code_simp+
  have ranks: "(0 :: int) \<in> set [0..sys_ranks example_system - 1]"
    "(1 :: int) \<in> set [0..sys_ranks example_system - 1]"
    by (simp_all add: example_system_def)
  have e3: "(3 :: nat) \<in> {start_event (rank_value example_system 1),
                           end_event (rank_value example_system 1)}"
    by (simp add: rank_value_def)
  from full [THEN conjunct1, rule_format, OF b(5) b(1)]
  have w1: "\<exists>i < 19. \<exists>p. example_schedule ! i = (p, RecordEvent 2)" by blast
  from full [THEN conjunct1, rule_format, OF b(6) b(3)]
  have w2: "\<exists>i < 37. \<exists>p. example_schedule ! i = (p, RecordEvent 3)" by blast
  from full [THEN conjunct2, rule_format, OF ranks(1) conjI [OF d(1) d(2)] ranks(2) e3]
  have w3: "\<exists>i j. i < j \<and> j < length example_schedule
              \<and> example_schedule ! i = (1, RecordEvent 3) \<and> example_schedule ! j = (0, WaitFor 3)" .
  from stalled [THEN conjunct1, rule_format, OF c(2) c(1)]
  have w4: "\<exists>i < 19. \<exists>p. stalled_schedule ! i = (p, RecordEvent 2)" by blast
  from run example_schedule_valid stalled_schedule_valid b(1-4) c(1) d(1,3) w1 w2 w3 w4
  show ?thesis by blast
qed

section \<open>Agreement of the two transports\<close>

subsection \<open>Compatible writes\<close>









subsection \<open>The sends and receives of a bracket\<close>















subsection \<open>Valid systems\<close>





subsection \<open>The offset resolution across ranks\<close>











subsection \<open>The data exchange across ranks\<close>









subsection \<open>The copies of the memory-copy transport across ranks\<close>









subsection \<open>The writes of the two transports\<close>










end
